(* ===== verification/Prelude.thy ===== *)
theory Prelude
  imports Complex_Main
begin

text \<open>
  Shared vocabulary of the development: the simp collection the handler proofs
  unfold with, the abstract ``last n elements'' of a list that specifies a
  bounded FIFO window, and the arithmetic mean that specifies the smoothing
  filter. Nothing here models a line of the server; these are the generic
  list and arithmetic facts the component theories share.
\<close>

named_theorems model_defs \<open>definitions of the model unfolded by the handler proofs\<close>

section \<open>The last n elements of a list\<close>

definition last_n :: "nat \<Rightarrow> 'a list \<Rightarrow> 'a list" where
  "last_n n xs = drop (length xs - n) xs"

lemma length_last_n [simp]: "length (last_n n xs) = min n (length xs)"
  by (simp add: last_n_def)

lemma last_n_short [simp]: "length xs \<le> n \<Longrightarrow> last_n n xs = xs"
  by (simp add: last_n_def)

lemma last_n_Nil [simp]: "last_n n [] = []"
  by (simp add: last_n_def)

lemma last_n_append_long:
  "n \<le> length ys \<Longrightarrow> last_n n (xs @ ys) = last_n n ys"
  by (simp add: last_n_def)

lemma last_n_replicate [simp]: "last_n n (replicate m x) = replicate (min n m) x"
  by (simp add: last_n_def min_def)

lemma last_n_Cons_long:
  "n \<le> length ys \<Longrightarrow> last_n n (x # ys) = last_n n ys"
  using last_n_append_long [of n ys "[x]"] by simp

lemma last_n_last_n_append:
  "last_n n (last_n n xs @ ys) = last_n n (xs @ ys)"
proof (cases "length xs \<le> n")
  case True
  then show ?thesis by (simp add: last_n_def)
next
  case False
  then have "last_n n xs @ ys = drop (length xs - n) (xs @ ys)"
    by (simp add: last_n_def)
  with False show ?thesis by (simp add: last_n_def add.commute)
qed

text \<open>Appending one element to a window of the last n elements: the bounded append.\<close>

lemma last_n_snoc:
  "last_n n (xs @ [x]) = (if n = 0 then [] else if length xs < n then xs @ [x] else tl (last_n n xs) @ [x])"
  by (auto simp: last_n_def drop_Suc tl_drop Suc_diff_le)

lemma in_last_n: "length ys < n \<Longrightarrow> e \<in> set (last_n n (xs @ e # ys))"
  by (auto simp: last_n_def drop_append)

section \<open>Results paired with a state\<close>

text \<open>The state of a computation that returns a result or an exception together with its state.\<close>

lemma snd_case_result:
  "snd (case p of (Inl a, t) \<Rightarrow> (f a, t) | (Inr b, t) \<Rightarrow> (g b, t)) = snd p"
  by (cases p, rename_tac r t, case_tac r) simp_all

section \<open>Arithmetic mean\<close>

definition mean :: "real list \<Rightarrow> real" where
  "mean xs = sum_list xs / real (length xs)"

lemma mean_replicate [simp]: "0 < n \<Longrightarrow> mean (replicate n x) = x"
  by (simp add: mean_def sum_list_replicate)

lemma mean_Cons_Nil [simp]: "mean [x] = x"
  by (simp add: mean_def)

lemma sum_list_abs_le:
  assumes "\<forall>x \<in> set xs. \<bar>x\<bar> \<le> M"
  shows "\<bar>sum_list xs\<bar> \<le> real (length xs) * M"
proof -
  have "\<bar>sum_list xs\<bar> \<le> sum_list (map abs xs)" by (rule sum_list_abs)
  also have "\<dots> \<le> sum_list (map (\<lambda>x. M) xs)" using assms by (intro sum_list_mono) simp
  also have "\<dots> = real (length xs) * M" by (simp add: sum_list_triv)
  finally show ?thesis .
qed

lemma mean_abs_le:
  assumes "xs \<noteq> []" and "\<forall>x \<in> set xs. \<bar>x\<bar> \<le> M"
  shows "\<bar>mean xs\<bar> \<le> M"
  using sum_list_abs_le [OF assms(2)] assms(1)
  by (simp add: mean_def abs_divide pos_divide_le_eq mult.commute)

end
