(* ===== verification/PyValue.thy ===== *)
theory PyValue
  imports Prelude
begin

text \<open>
  The values the request handlers of \<^verbatim>\<open>src/mouse_control_server.py\<close> work on:
  \<^verbatim>\<open>request.get_json()\<close> returns a decoded JSON document (a Python dict, list,
  str, int/float, bool or None), and the handlers apply four Python operations to
  it: membership \<^verbatim>\<open>'dx' in data\<close>, subscription \<^verbatim>\<open>data['dx']\<close>, the builtin
  \<^verbatim>\<open>sum\<close> over the window's coordinates and true division by \<^verbatim>\<open>len\<close>.
  Each operation returns the exception Python raises as \<open>Inl\<close>; which exception
  a handler catches is decided in the handler theory. JSON numbers (Python
  \<^verbatim>\<open>int\<close> and \<^verbatim>\<open>float\<close>) are one constructor carrying a \<open>real\<close>: rounding of
  floating point and overflow of \<^verbatim>\<open>float\<close> are not modelled.
\<close>

datatype jval =
    JNull
  | JBool bool
  | JNum real
  | JStr string
  | JArr "jval list"
  | JObj "(string \<times> jval) list"

text \<open>
  The exceptions the program can raise: those of the handlers, and
  \<^verbatim>\<open>OSError\<close> with its message from the socket calls of \<^verbatim>\<open>get_ip\<close>.
\<close>

datatype pyexc =
    TypeError
  | KeyError
  | ZeroDivisionError
  | RuntimeError
  | HostError string
  | OSError string

section \<open>Membership: \<^verbatim>\<open>k in data\<close>\<close>

text \<open>Substring test of Python's \<^verbatim>\<open>str.__contains__\<close>.\<close>

fun starts_with :: "string \<Rightarrow> string \<Rightarrow> bool" where
  "starts_with [] s = True"
| "starts_with (c # k) [] = False"
| "starts_with (c # k) (d # s) = (c = d \<and> starts_with k s)"

fun str_contains :: "string \<Rightarrow> string \<Rightarrow> bool" where
  "str_contains k [] = (k = [])"
| "str_contains k (c # s) = (starts_with k (c # s) \<or> str_contains k s)"

text \<open>
  A dict tests its keys, a list compares each element with \<open>==\<close> (only the
  string \<open>k\<close> equals \<open>k\<close>), a string tests for a substring; \<open>None\<close>, numbers and
  booleans are not iterable and raise \<^verbatim>\<open>TypeError\<close>.
\<close>

fun py_contains :: "jval \<Rightarrow> string \<Rightarrow> pyexc + bool" where
  "py_contains (JObj kvs) k = Inr (k \<in> set (map fst kvs))"
| "py_contains (JArr vs) k = Inr (JStr k \<in> set vs)"
| "py_contains (JStr s) k = Inr (str_contains k s)"
| "py_contains JNull k = Inl TypeError"
| "py_contains (JBool b) k = Inl TypeError"
| "py_contains (JNum r) k = Inl TypeError"

section \<open>Subscription: \<^verbatim>\<open>data[k]\<close>\<close>

text \<open>
  Python's \<^verbatim>\<open>json\<close> module keeps the last of duplicate keys, hence the lookup in
  the reversed association list. A list or a string subscripted by a string, and
  a scalar subscripted at all, raise \<^verbatim>\<open>TypeError\<close>.
\<close>

fun py_getitem :: "jval \<Rightarrow> string \<Rightarrow> pyexc + jval" where
  "py_getitem (JObj kvs) k = (case map_of (rev kvs) k of None \<Rightarrow> Inl KeyError | Some v \<Rightarrow> Inr v)"
| "py_getitem (JArr vs) k = Inl TypeError"
| "py_getitem (JStr s) k = Inl TypeError"
| "py_getitem JNull k = Inl TypeError"
| "py_getitem (JBool b) k = Inl TypeError"
| "py_getitem (JNum r) k = Inl TypeError"

section \<open>\<^verbatim>\<open>sum\<close> and \<^verbatim>\<open>/\<close>\<close>

text \<open>
  The numeric reading of a value by \<^verbatim>\<open>int.__add__\<close> / \<^verbatim>\<open>float.__add__\<close>:
  \<^verbatim>\<open>bool\<close> is a subclass of \<^verbatim>\<open>int\<close>, so \<^verbatim>\<open>True\<close> adds as 1.
\<close>

fun py_num :: "jval \<Rightarrow> real option" where
  "py_num (JNum r) = Some r"
| "py_num (JBool b) = Some (if b then 1 else 0)"
| "py_num JNull = None"
| "py_num (JStr s) = None"
| "py_num (JArr vs) = None"
| "py_num (JObj kvs) = None"

text \<open>\<^verbatim>\<open>sum(xs)\<close> adds left to right from the start value \<^verbatim>\<open>0\<close>; the first
  operand that is not a number raises \<^verbatim>\<open>TypeError\<close>.\<close>

fun py_sum_from :: "real \<Rightarrow> jval list \<Rightarrow> pyexc + real" where
  "py_sum_from acc [] = Inr acc"
| "py_sum_from acc (v # vs) =
     (case py_num v of None \<Rightarrow> Inl TypeError | Some r \<Rightarrow> py_sum_from (acc + r) vs)"

definition py_sum :: "jval list \<Rightarrow> pyexc + real" where
  "py_sum vs = py_sum_from 0 vs"

definition py_truediv :: "real \<Rightarrow> nat \<Rightarrow> pyexc + real" where
  "py_truediv s n = (if n = 0 then Inl ZeroDivisionError else Inr (s / real n))"

definition py_is_num :: "jval \<Rightarrow> bool" where
  "py_is_num v \<longleftrightarrow> py_num v \<noteq> None"

definition num_val :: "jval \<Rightarrow> real" where
  "num_val v = (case py_num v of Some r \<Rightarrow> r | None \<Rightarrow> 0)"

declare py_sum_def [model_defs] py_truediv_def [model_defs]

section \<open>Lemmas\<close>

lemma py_sum_from_num:
  "list_all py_is_num vs \<Longrightarrow> py_sum_from acc vs = Inr (acc + sum_list (map num_val vs))"
  by (induction vs arbitrary: acc) (auto simp: py_is_num_def num_val_def algebra_simps)

lemma py_sum_from_not_num:
  "\<not> list_all py_is_num vs \<Longrightarrow> py_sum_from acc vs = Inl TypeError"
  by (induction vs arbitrary: acc) (auto simp: py_is_num_def split: option.splits)

lemma py_sum_cases:
  "py_sum vs = (if list_all py_is_num vs then Inr (sum_list (map num_val vs)) else Inl TypeError)"
  by (simp add: py_sum_def py_sum_from_num py_sum_from_not_num)

lemma py_sum_JNum [simp]: "py_sum (map JNum xs) = Inr (sum_list xs)"
proof -
  have "list_all py_is_num (map JNum xs)" by (simp add: list_all_iff py_is_num_def)
  moreover have "map num_val (map JNum xs) = xs"
    by (induction xs) (simp_all add: num_val_def)
  ultimately show ?thesis by (simp add: py_sum_cases)
qed

lemma py_sum_JNum_comp [simp]: "py_sum (map (JNum \<circ> f) xs) = Inr (sum_list (map f xs))"
  using py_sum_JNum [of "map f xs"] by simp

lemma is_num_simps [simp]:
  "py_is_num (JNum r)" "py_is_num (JBool b)" "\<not> py_is_num JNull" "\<not> py_is_num (JStr s)"
  "\<not> py_is_num (JArr vs)" "\<not> py_is_num (JObj kvs)"
  by (simp_all add: py_is_num_def)

lemma num_val_simps [simp]:
  "num_val (JNum r) = r" "num_val (JBool b) = (if b then 1 else 0)"
  by (simp_all add: num_val_def)

lemma map_of_rev_keys: "map_of (rev kvs) k = Some v \<Longrightarrow> k \<in> set (map fst kvs)"
  by (drule map_of_SomeD) force

lemma py_sum_from_cong:
  "map py_num vs = map py_num vs' \<Longrightarrow> py_sum_from acc vs = py_sum_from acc vs'"
proof (induction vs arbitrary: vs' acc)
  case Nil
  then show ?case by simp
next
  case (Cons v vs)
  then show ?case by (cases vs') (auto split: option.splits)
qed

end
