(* ===== verification/Window.thy ===== *)
theory Window
  imports PyValue
begin

text \<open>
  The Smoothing Filter: the module-level \<^verbatim>\<open>movement_history = deque(maxlen=5)\<close>
  (line 21 of \<^verbatim>\<open>src/mouse_control_server.py\<close>), the append of each sample
  (line 117) and the two moving averages (lines 120--121). The window holds the
  values exactly as \<^verbatim>\<open>data['dx']\<close> and \<^verbatim>\<open>data['dy']\<close> returned them, numeric or
  not, oldest first. Its abstract specification is the mean of the last five
  samples ever recorded; \<open>smooth_outputs_refines\<close> shows the deque
  implements it.
\<close>

type_synonym entry = "jval \<times> jval"
type_synonym sample = "real \<times> real"

definition history_maxlen :: nat where
  "history_maxlen = 5"

text \<open>
  CPython's \<^verbatim>\<open>deque.append\<close> on a deque with \<^verbatim>\<open>maxlen\<close>: the item is added
  on the right, then, if the size exceeds \<^verbatim>\<open>maxlen\<close>, one item is popped on the
  left.
\<close>

definition deque_append :: "nat \<Rightarrow> 'a list \<Rightarrow> 'a \<Rightarrow> 'a list" where
  "deque_append m xs x = (let ys = xs @ [x] in if m < length ys then tl ys else ys)"

definition history_append :: "entry list \<Rightarrow> entry \<Rightarrow> entry list" where
  "history_append w e = deque_append history_maxlen w e"

text \<open>\<^verbatim>\<open>sum(m[i] for m in movement_history) / len(movement_history)\<close>.\<close>

definition avg_component :: "(entry \<Rightarrow> jval) \<Rightarrow> entry list \<Rightarrow> pyexc + real" where
  "avg_component sel w =
     (case py_sum (map sel w) of Inl ex \<Rightarrow> Inl ex | Inr s \<Rightarrow> py_truediv s (length w))"

text \<open>Lines 120--121: \<^verbatim>\<open>avg_dx\<close> first; \<^verbatim>\<open>avg_dy\<close> only if it did not raise.\<close>

definition window_average :: "entry list \<Rightarrow> pyexc + sample" where
  "window_average w =
     (case avg_component fst w of
        Inl ex \<Rightarrow> Inl ex
      | Inr ax \<Rightarrow> (case avg_component snd w of Inl ex \<Rightarrow> Inl ex | Inr ay \<Rightarrow> Inr (ax, ay)))"

text \<open>
  Lines 117--121 in order: the append, then the averages over the new window.
  The new window is kept whether or not an average raises: the append has
  already happened when \<^verbatim>\<open>sum\<close> fails.
\<close>

definition record_and_average :: "entry list \<Rightarrow> entry \<Rightarrow> entry list \<times> (pyexc + sample)" where
  "record_and_average w e = (let w' = history_append w e in (w', window_average w'))"

declare history_maxlen_def [model_defs] history_append_def [model_defs]
  record_and_average_def [model_defs]

section \<open>Abstract specification\<close>

text \<open>A numeric sample as the handler receives it from a well-formed request.\<close>

definition num_entry :: "sample \<Rightarrow> entry" where
  "num_entry s = (JNum (fst s), JNum (snd s))"

definition smoothed_spec :: "sample list \<Rightarrow> sample" where
  "smoothed_spec hs =
     (mean (map fst (last_n history_maxlen hs)), mean (map snd (last_n history_maxlen hs)))"

text \<open>
  The pointer position the specification predicts: from \<open>c\<close>, each sample moves
  the pointer by the smoothed average of the samples recorded so far.
\<close>

fun pointer_after :: "sample \<Rightarrow> sample list \<Rightarrow> sample list \<Rightarrow> sample" where
  "pointer_after c pre [] = c"
| "pointer_after c pre (d # ds) =
     pointer_after (fst c + fst (smoothed_spec (pre @ [d])), snd c + snd (smoothed_spec (pre @ [d])))
       (pre @ [d]) ds"

text \<open>The same sequence run through the implementation.\<close>

fun smooth_outputs :: "entry list \<Rightarrow> entry list \<Rightarrow> (pyexc + sample) list" where
  "smooth_outputs w [] = []"
| "smooth_outputs w (e # es) =
     (case record_and_average w e of (w', r) \<Rightarrow> r # smooth_outputs w' es)"

fun history_run :: "entry list \<Rightarrow> entry list \<Rightarrow> entry list" where
  "history_run w [] = w"
| "history_run w (e # es) = history_run (history_append w e) es"

text \<open>An entry both of whose coordinates \<^verbatim>\<open>sum\<close> accepts, and the numeric view of an entry.\<close>

definition entry_num :: "entry \<Rightarrow> bool" where
  "entry_num e \<longleftrightarrow> py_is_num (fst e) \<and> py_is_num (snd e)"

definition num_view :: "entry \<Rightarrow> real option \<times> real option" where
  "num_view e = (py_num (fst e), py_num (snd e))"

section \<open>The deque against the last-n specification\<close>

lemma deque_append_last_n:
  "length xs \<le> m \<Longrightarrow> deque_append m xs x = last_n m (xs @ [x])"
proof (cases "length xs < m")
  case True
  then show ?thesis by (simp add: deque_append_def last_n_def)
next
  case False
  moreover assume "length xs \<le> m"
  ultimately have "m = length xs" by simp
  then show ?thesis by (simp add: deque_append_def last_n_def drop_Suc del: drop_append)
qed

lemma history_append_last_n:
  "length w \<le> history_maxlen \<Longrightarrow> history_append w e = last_n history_maxlen (w @ [e])"
  by (simp add: history_append_def deque_append_last_n)

lemma length_history_append:
  "length w \<le> history_maxlen \<Longrightarrow> length (history_append w e) \<le> history_maxlen"
  by (simp add: history_append_last_n)

lemma history_append_nonempty: "history_append w e \<noteq> []"
  by (cases w) (simp_all add: history_append_def deque_append_def history_maxlen_def Let_def)

lemma history_run_last_n:
  "length w \<le> history_maxlen \<Longrightarrow> history_run w es = last_n history_maxlen (w @ es)"
proof (induction es arbitrary: w)
  case Nil
  then show ?case by simp
next
  case (Cons e es)
  have "history_run w (e # es) = history_run (last_n history_maxlen (w @ [e])) es"
    using Cons.prems by (simp add: history_append_last_n)
  also have "\<dots> = last_n history_maxlen (last_n history_maxlen (w @ [e]) @ es)"
    by (rule Cons.IH) (simp add: min_def)
  finally show ?case by (simp add: last_n_last_n_append)
qed

section \<open>Averages of a numeric window\<close>

lemma fst_num_entry [simp]: "fst \<circ> num_entry = JNum \<circ> fst"
  by (auto simp: num_entry_def)

lemma snd_num_entry [simp]: "snd \<circ> num_entry = JNum \<circ> snd"
  by (auto simp: num_entry_def)

lemma avg_component_fst_num:
  "rs \<noteq> [] \<Longrightarrow> avg_component fst (map num_entry rs) = Inr (mean (map fst rs))"
  by (simp add: avg_component_def py_truediv_def mean_def)

lemma avg_component_snd_num:
  "rs \<noteq> [] \<Longrightarrow> avg_component snd (map num_entry rs) = Inr (mean (map snd rs))"
  by (simp add: avg_component_def py_truediv_def mean_def)

lemma window_average_num:
  "rs \<noteq> [] \<Longrightarrow> window_average (map num_entry rs) = Inr (mean (map fst rs), mean (map snd rs))"
  by (simp add: window_average_def avg_component_fst_num avg_component_snd_num)

lemma last_n_map: "last_n n (map f xs) = map f (last_n n xs)"
  by (simp add: last_n_def drop_map)

lemma last_n_nonempty: "0 < n \<Longrightarrow> xs \<noteq> [] \<Longrightarrow> last_n n xs \<noteq> []"
  by (cases xs) (simp_all add: last_n_def)

lemma window_average_last_n_num:
  "ss \<noteq> [] \<Longrightarrow>
   window_average (last_n history_maxlen (map num_entry ss)) = Inr (smoothed_spec ss)"
  by (simp add: last_n_map window_average_num last_n_nonempty smoothed_spec_def history_maxlen_def)

lemma num_val_entry [simp]: "num_val \<circ> fst \<circ> num_entry = fst" "num_val \<circ> snd \<circ> num_entry = snd"
  by (simp_all add: num_entry_def num_val_def fun_eq_iff)

lemma list_all_num_entry [simp]: "list_all entry_num (map num_entry w)"
  by (simp add: list_all_iff entry_num_def num_entry_def py_is_num_def)

lemma history_append_num:
  "length w \<le> history_maxlen \<Longrightarrow>
   history_append (map num_entry w) (num_entry a) = map num_entry (last_n history_maxlen (w @ [a]))"
proof -
  assume "length w \<le> history_maxlen"
  moreover have "map num_entry w @ [num_entry a] = map num_entry (w @ [a])" by simp
  ultimately show ?thesis by (simp only: history_append_last_n length_map last_n_map)
qed

section \<open>Runs of the filter\<close>

lemma record_and_average_run:
  "record_and_average w e = (history_append w e, window_average (history_append w e))"
  by (simp add: record_and_average_def Let_def)

lemma smooth_outputs_nth:
  "k < length es \<Longrightarrow> smooth_outputs w es ! k = window_average (history_run w (take (Suc k) es))"
proof (induction es arbitrary: w k)
  case Nil
  then show ?case by simp
next
  case (Cons e es)
  then show ?case
    by (cases k) (simp_all add: record_and_average_run)
qed

lemma length_smooth_outputs [simp]: "length (smooth_outputs w es) = length es"
  by (induction es arbitrary: w) (simp_all add: record_and_average_run)

lemma smooth_outputs_num_nth:
  assumes "k < length ss"
  shows "smooth_outputs (map num_entry (last_n history_maxlen pre)) (map num_entry ss) ! k
           = Inr (smoothed_spec (pre @ take (Suc k) ss))"
proof -
  let ?w = "map num_entry (last_n history_maxlen pre)"
  let ?t = "take (Suc k) ss"
  have "history_run ?w (take (Suc k) (map num_entry ss)) = last_n history_maxlen (?w @ map num_entry ?t)"
    by (simp add: history_run_last_n take_map min_def)
  also have "\<dots> = map num_entry (last_n history_maxlen (last_n history_maxlen pre @ ?t))"
    by (simp only: map_append [symmetric] last_n_map)
  also have "\<dots> = last_n history_maxlen (map num_entry (pre @ ?t))"
    by (simp only: last_n_last_n_append last_n_map)
  finally have h: "history_run ?w (take (Suc k) (map num_entry ss))
      = last_n history_maxlen (map num_entry (pre @ ?t))" .
  have ne: "pre @ ?t \<noteq> []" using assms by (cases ss) simp_all
  have "smooth_outputs ?w (map num_entry ss) ! k
      = window_average (history_run ?w (take (Suc k) (map num_entry ss)))"
    using assms by (simp add: smooth_outputs_nth)
  also have "\<dots> = window_average (last_n history_maxlen (map num_entry (pre @ ?t)))"
    by (simp only: h)
  also have "\<dots> = Inr (smoothed_spec (pre @ ?t))"
    using ne by (rule window_average_last_n_num)
  finally show ?thesis .
qed

lemma last_n_take_Suc:
  "k < length xs \<Longrightarrow> n \<le> Suc k \<Longrightarrow> last_n n (take (Suc k) xs) = take n (drop (Suc k - n) xs)"
proof -
  assume "k < length xs" "n \<le> Suc k"
  then have "length (take (Suc k) xs) = Suc k" by simp
  then show ?thesis using \<open>n \<le> Suc k\<close> by (simp add: last_n_def drop_take)
qed

section \<open>Poisoned and equivalent windows\<close>

lemma record_and_average_num:
  "record_and_average (map num_entry (last_n history_maxlen pre)) (JNum a, JNum b) =
     (map num_entry (last_n history_maxlen (pre @ [(a, b)])), Inr (smoothed_spec (pre @ [(a, b)])))"
proof -
  have "history_append (map num_entry (last_n history_maxlen pre)) (num_entry (a, b))
      = last_n history_maxlen (map num_entry (last_n history_maxlen pre) @ [num_entry (a, b)])"
    by (simp add: history_append_last_n min_def)
  also have "\<dots> = map num_entry (last_n history_maxlen (last_n history_maxlen pre @ [(a, b)]))"
    by (simp add: last_n_map [symmetric])
  also have "\<dots> = map num_entry (last_n history_maxlen (pre @ [(a, b)]))"
    by (simp only: last_n_last_n_append)
  finally have w: "history_append (map num_entry (last_n history_maxlen pre)) (num_entry (a, b))
      = last_n history_maxlen (map num_entry (pre @ [(a, b)]))"
    by (simp only: last_n_map)
  have e: "(JNum a, JNum b) = num_entry (a, b)" by (simp add: num_entry_def)
  have avg: "window_average (map num_entry (last_n history_maxlen (pre @ [(a, b)])))
      = Inr (smoothed_spec (pre @ [(a, b)]))"
    using window_average_last_n_num [of "pre @ [(a, b)]"] by (simp only: last_n_map) simp
  show ?thesis
    by (simp only: e record_and_average_run w avg last_n_map)
qed

lemma avg_component_not_num:
  "\<not> list_all (\<lambda>e. py_is_num (sel e)) w \<Longrightarrow> avg_component sel w = Inl TypeError"
  by (auto simp: avg_component_def py_sum_cases list_all_iff)

lemma window_average_poisoned:
  assumes "\<not> list_all entry_num w"
  shows "window_average w = Inl TypeError"
proof (cases "list_all (\<lambda>e. py_is_num (fst e)) w")
  case True
  with assms have "\<not> list_all (\<lambda>e. py_is_num (snd e)) w"
    by (auto simp: list_all_iff entry_num_def)
  then have snd: "avg_component snd w = Inl TypeError" by (rule avg_component_not_num)
  from assms have "w \<noteq> []" by auto
  with True have "\<exists>ax. avg_component fst w = Inr ax"
    by (simp add: avg_component_def py_sum_cases py_truediv_def list_all_iff)
  with snd show ?thesis by (auto simp: window_average_def)
next
  case False
  then show ?thesis by (simp add: window_average_def avg_component_not_num)
qed

lemma last_history_append: "last (history_append w e) = e"
  by (cases w) (simp_all add: history_append_def deque_append_def Let_def history_maxlen_def)

lemma avg_component_cong:
  "map (py_num \<circ> sel) w = map (py_num \<circ> sel) w' \<Longrightarrow> avg_component sel w = avg_component sel w'"
proof -
  assume h: "map (py_num \<circ> sel) w = map (py_num \<circ> sel) w'"
  then have "length w = length w'" by (metis length_map)
  moreover from h have "py_sum (map sel w) = py_sum (map sel w')"
    unfolding py_sum_def by (intro py_sum_from_cong) simp
  ultimately show ?thesis by (simp add: avg_component_def split: sum.splits)
qed

lemma window_average_cong:
  "map num_view w = map num_view w' \<Longrightarrow> window_average w = window_average w'"
proof -
  assume h: "map num_view w = map num_view w'"
  have f: "avg_component fst w = avg_component fst w'"
    using arg_cong [OF h, of "map fst"] by (intro avg_component_cong) (simp add: num_view_def comp_def)
  have s: "avg_component snd w = avg_component snd w'"
    using arg_cong [OF h, of "map snd"] by (intro avg_component_cong) (simp add: num_view_def comp_def)
  show ?thesis unfolding window_average_def f s ..
qed

lemma map_deque_append: "map f (deque_append m xs x) = deque_append m (map f xs) (f x)"
  by (simp add: deque_append_def Let_def map_tl)

lemma history_append_num_view:
  "num_view e = num_view e' \<Longrightarrow>
   map num_view (history_append w e) = map num_view (history_append w e')"
  by (simp add: history_append_def map_deque_append)

section \<open>The pointer path predicted by the specification\<close>

lemma prefix_means_weights:
  "(\<Sum>j<n. (\<Sum>i<Suc j. x i) / real (Suc j)) = (\<Sum>i<n. x i * (\<Sum>k = Suc i..n. 1 / real k))"
proof (induction n)
  case (Suc n)
  have w: "(\<Sum>k = Suc i..Suc n. 1 / real k) = (\<Sum>k = Suc i..n. 1 / real k) + 1 / real (Suc n)"
    if "i < Suc n" for i
    using that by simp
  have "(\<Sum>i<Suc n. x i * (\<Sum>k = Suc i..Suc n. 1 / real k))
      = (\<Sum>i<Suc n. x i * (\<Sum>k = Suc i..n. 1 / real k)) + (\<Sum>i<Suc n. x i) / real (Suc n)"
    by (simp add: w distrib_left sum.distrib sum_divide_distrib add_divide_distrib)
  then show ?case using Suc.IH by simp
qed simp

lemma pointer_after_sum:
  "pointer_after c pre ds =
     (fst c + (\<Sum>j<length ds. fst (smoothed_spec (pre @ take (Suc j) ds))),
      snd c + (\<Sum>j<length ds. snd (smoothed_spec (pre @ take (Suc j) ds))))"
proof (induction ds arbitrary: c pre)
  case (Cons d ds)
  show ?case
    using Cons.IH [of _ "pre @ [d]"] by (simp add: sum.lessThan_Suc_shift del: sum.lessThan_Suc)
qed simp

lemma smoothed_prefix:
  assumes "length ds \<le> history_maxlen" and "j < length ds"
  shows "smoothed_spec (take (Suc j) ds)
     = ((\<Sum>i<Suc j. fst (ds ! i)) / real (Suc j), (\<Sum>i<Suc j. snd (ds ! i)) / real (Suc j))"
proof -
  have l: "length (take (Suc j) ds) = Suc j" using assms(2) by simp
  have s: "sum_list (map f (take (Suc j) ds)) = (\<Sum>i<Suc j. f (ds ! i))" for f :: "sample \<Rightarrow> real"
    using assms(2) by (simp add: sum_list_sum_nth atLeast0LessThan)
  have "last_n history_maxlen (take (Suc j) ds) = take (Suc j) ds" using assms l by simp
  then show ?thesis using l s by (simp add: smoothed_spec_def mean_def del: sum.lessThan_Suc)
qed

lemma pointer_after_weights:
  assumes "length ds \<le> history_maxlen"
  shows "pointer_after c [] ds =
    (fst c + (\<Sum>i<length ds. fst (ds ! i) * (\<Sum>k = Suc i..length ds. 1 / real k)),
     snd c + (\<Sum>i<length ds. snd (ds ! i) * (\<Sum>k = Suc i..length ds. 1 / real k)))"
  using smoothed_prefix [OF assms]
  by (simp add: pointer_after_sum prefix_means_weights [symmetric])

section \<open>Properties of the Smoothing Filter\<close>

text \<open>C1 (refinement). From any window of numeric samples, the sequence of averages the filter reports is the abstract one: after each sample, the mean of the last five samples recorded, taken coordinate-wise.\<close>

theorem smoothing_refines_spec:
  "smooth_outputs (map num_entry (last_n history_maxlen pre)) (map num_entry ss)
     = map (\<lambda>k. Inr (smoothed_spec (pre @ take (Suc k) ss))) [0..<length ss]"
  by (rule nth_equalityI) (simp_all add: smooth_outputs_num_nth)

text \<open>C2. For a sequence of at most five samples into an empty window, the average reported after the (k+1)-th sample is the arithmetic mean of exactly the first k+1 samples (nothing has been evicted yet).\<close>

theorem smoothing_short_exact_mean:
  assumes "length ss \<le> history_maxlen" and "k < length ss"
  shows "smooth_outputs [] (map num_entry ss) ! k
           = Inr (mean (map fst (take (Suc k) ss)), mean (map snd (take (Suc k) ss)))"
  using smooth_outputs_num_nth [of k ss "[]"] assms by (simp add: smoothed_spec_def)

theorem smoothing_short_exact_mean_witness:
  "length [(10, 0), (0, 20)] \<le> history_maxlen \<and> (1::nat) < length [(10::real, 0::real), (0, 20)] \<and>
   smooth_outputs [] (map num_entry [(10, 0), (0, 20)]) ! 1 = Inr (5, 10)"
  using smoothing_short_exact_mean [of "[(10, 0), (0, 20)]" 1]
  by (simp add: history_maxlen_def mean_def)

text \<open>C3. From the fifth sample on, the average reported after sample k+1 is the mean of exactly the five most recent samples, k-3 to k+1: the FIFO eviction of the deque.\<close>

theorem smoothing_window_of_five:
  assumes "history_maxlen \<le> k" and "k < length ss"
  shows "smooth_outputs [] (map num_entry ss) ! k
           = Inr (mean (map fst (take history_maxlen (drop (Suc k - history_maxlen) ss))),
                  mean (map snd (take history_maxlen (drop (Suc k - history_maxlen) ss))))"
  using smooth_outputs_num_nth [of k ss "[]"] assms
  by (simp add: smoothed_spec_def last_n_take_Suc)

text \<open>C4. Once a sixth sample has arrived, the first sample no longer influences the reported average: replacing it by any other sample changes nothing.\<close>

theorem smoothing_oldest_forgotten:
  assumes "history_maxlen \<le> k" and "k < Suc (length ss)"
  shows "smooth_outputs [] (map num_entry (s # ss)) ! k = smooth_outputs [] (map num_entry (s' # ss)) ! k"
proof -
  have "history_maxlen \<le> length (take k ss)" using assms by simp
  then have "last_n history_maxlen (take (Suc k) (s # ss)) = last_n history_maxlen (take (Suc k) (s' # ss))"
    by (simp add: last_n_Cons_long)
  then show ?thesis
    using smooth_outputs_num_nth [of k "s # ss" "[]"] smooth_outputs_num_nth [of k "s' # ss" "[]"] assms
    by (simp add: smoothed_spec_def)
qed

text \<open>C5. Submitting the same sample d five times in a row makes the reported average d, whatever the window held before, even entries that are not numbers.\<close>

theorem smoothing_constant_input:
  assumes "length w \<le> history_maxlen" and "history_maxlen \<le> Suc k" and "k < n"
  shows "smooth_outputs w (replicate n (num_entry d)) ! k = Inr d"
proof -
  have t: "take (Suc k) (replicate n (num_entry d)) = replicate (Suc k) (num_entry d)"
    using assms(3) by simp
  have "history_run w (replicate (Suc k) (num_entry d))
      = last_n history_maxlen (w @ replicate (Suc k) (num_entry d))"
    using assms(1) by (rule history_run_last_n)
  also have "\<dots> = last_n history_maxlen (replicate (Suc k) (num_entry d))"
    using assms(2) by (simp add: last_n_append_long del: replicate_Suc)
  also have "\<dots> = map num_entry (replicate history_maxlen d)"
    using assms(2) by (simp add: min_def del: replicate_Suc)
  finally have h: "history_run w (replicate (Suc k) (num_entry d))
      = map num_entry (replicate history_maxlen d)" .
  have "smooth_outputs w (replicate n (num_entry d)) ! k
      = window_average (history_run w (take (Suc k) (replicate n (num_entry d))))"
    by (rule smooth_outputs_nth) (simp add: assms(3))
  also have "\<dots> = window_average (map num_entry (replicate history_maxlen d))"
    by (simp only: t h)
  also have "\<dots> = Inr d"
    by (subst window_average_num) (simp_all add: history_maxlen_def)
  finally show ?thesis .
qed


theorem smoothing_window_of_five_witness:
  "history_maxlen \<le> (5::nat) \<and> 5 < length [(1::real, 0::real), (2, 0), (3, 0), (4, 0), (5, 0), (6, 0)] \<and>
   smooth_outputs [] (map num_entry [(1, 0), (2, 0), (3, 0), (4, 0), (5, 0), (6, 0)]) ! 5 = Inr (4, 0)"
  using smoothing_window_of_five [of 5 "[(1, 0), (2, 0), (3, 0), (4, 0), (5, 0), (6, 0)]"]
  by (simp add: history_maxlen_def mean_def)

theorem smoothing_oldest_forgotten_witness:
  "history_maxlen \<le> (5::nat) \<and> 5 < Suc (length [(1::real, 1::real), (2, 2), (3, 3), (4, 4), (5, 5)]) \<and>
   smooth_outputs [] (map num_entry ((100, 0) # [(1, 1), (2, 2), (3, 3), (4, 4), (5, 5)])) ! 5
     = smooth_outputs [] (map num_entry ((0, 0) # [(1, 1), (2, 2), (3, 3), (4, 4), (5, 5)])) ! 5"
  using smoothing_oldest_forgotten [of 5 "[(1, 1), (2, 2), (3, 3), (4, 4), (5, 5)]" "(100, 0)" "(0, 0)"]
  by (simp add: history_maxlen_def)

theorem smoothing_constant_input_witness:
  "length [(JStr ''a'', JNull)] \<le> history_maxlen \<and> history_maxlen \<le> Suc 4 \<and> (4::nat) < 5 \<and>
   smooth_outputs [(JStr ''a'', JNull)] (replicate 5 (num_entry (3, 4))) ! 4 = Inr (3, 4)"
  using smoothing_constant_input [of "[(JStr ''a'', JNull)]" 4 5 "(3, 4)"]
  by (simp add: history_maxlen_def)

text \<open>C6. Step response: from a window holding five copies of a sample a, the (k+1)-th consecutive sample b (k < 5) yields ((4-k) a + (k+1) b) / 5 on each axis: the pointer speed follows a step of the finger's speed linearly and reaches b exactly at the fifth sample. The specification's scenario, where a constant movement is followed by a different one, is an instance.\<close>

theorem smoothing_step_response:
  assumes "k < history_maxlen" and "k < n"
  shows "smooth_outputs (map num_entry (replicate history_maxlen a)) (map num_entry (replicate n b)) ! k
           = Inr ((real (history_maxlen - Suc k) * fst a + real (Suc k) * fst b) / real history_maxlen,
                  (real (history_maxlen - Suc k) * snd a + real (Suc k) * snd b) / real history_maxlen)"
proof -
  have w: "replicate history_maxlen a = last_n history_maxlen (replicate history_maxlen a)" by simp
  have t: "take (Suc k) (replicate n b) = replicate (Suc k) b" using assms(2) by simp
  have l: "last_n 5 (replicate 5 a @ replicate (Suc k) b) = replicate (4 - k) a @ replicate (Suc k) b"
    using assms(1) by (simp add: last_n_def history_maxlen_def del: replicate_Suc)
  have r: "real (4 - k) = 4 - real k" using assms(1) by (simp add: history_maxlen_def of_nat_diff)
  show ?thesis
    using smooth_outputs_num_nth [of k "replicate n b" "replicate history_maxlen a"] assms w
    by (simp add: t l r smoothed_spec_def mean_def sum_list_replicate history_maxlen_def algebra_simps
        del: replicate_Suc)
qed

theorem smoothing_step_response_witness:
  "(1::nat) < history_maxlen \<and> (1::nat) < 4 \<and>
   smooth_outputs (map num_entry (replicate history_maxlen (10, 0))) (map num_entry (replicate 4 (0, 20))) ! 1
     = Inr (6, 8)"
  using smoothing_step_response [of 1 4 "(10, 0)" "(0, 20)"] by (simp add: history_maxlen_def)

end
