(* ===== verification/Host.thy ===== *)
theory Host
  imports PyValue
begin

text \<open>
  The Host Input Subsystem: the three \<^verbatim>\<open>pyautogui\<close> calls the handlers make,
  \<^verbatim>\<open>position()\<close>, \<^verbatim>\<open>moveTo(x, y, duration)\<close> and \<^verbatim>\<open>click(button)\<close>.
  \<^verbatim>\<open>pyautogui\<close> is a library the sources only call, so its behaviour is modelled
  from the specification (section 6): an external state holding the pointer
  position, the log of every call made to it, and an optional fault the
  subsystem reports (no display, permission denied, fail-safe). A faulty host
  raises on every call; the call is still logged, so ``no host-input call was
  made'' is a statement about the log. Pointer coordinates are reals:
  \<^verbatim>\<open>pyautogui\<close>'s rounding to whole pixels is not modelled.
\<close>

datatype button = Left | Right

datatype hcall =
    HPosition
  | HMoveTo real real real
  | HClick button

record host =
  cursor :: "real \<times> real"
  calls :: "hcall list"
  fault :: "string option"

definition host_call :: "hcall \<Rightarrow> host \<Rightarrow> host" where
  "host_call c h = h\<lparr>calls := calls h @ [c]\<rparr>"

definition host_position :: "host \<Rightarrow> (pyexc + real \<times> real) \<times> host" where
  "host_position h =
     (let h' = host_call HPosition h in
      case fault h of Some m \<Rightarrow> (Inl (HostError m), h') | None \<Rightarrow> (Inr (cursor h), h'))"

definition host_moveTo :: "real \<Rightarrow> real \<Rightarrow> real \<Rightarrow> host \<Rightarrow> (pyexc + unit) \<times> host" where
  "host_moveTo x y d h =
     (let h' = host_call (HMoveTo x y d) h in
      case fault h of Some m \<Rightarrow> (Inl (HostError m), h') | None \<Rightarrow> (Inr (), h'\<lparr>cursor := (x, y)\<rparr>))"

definition host_click :: "button \<Rightarrow> host \<Rightarrow> (pyexc + unit) \<times> host" where
  "host_click b h =
     (let h' = host_call (HClick b) h in
      case fault h of Some m \<Rightarrow> (Inl (HostError m), h') | None \<Rightarrow> (Inr (), h'))"

text \<open>A working host with the pointer at the origin, for concrete runs.\<close>

abbreviation idle_host :: host where
  "idle_host \<equiv> \<lparr>cursor = (0, 0), calls = [], fault = None\<rparr>"

text \<open>A working host with the pointer inside the screen, away from the corners.\<close>

abbreviation desk_host :: host where
  "desk_host \<equiv> \<lparr>cursor = (400, 300), calls = [], fault = None\<rparr>"

declare host_call_def [model_defs] host_position_def [model_defs]
  host_moveTo_def [model_defs] host_click_def [model_defs]

end
