(* ===== verification/Dispatcher.thy ===== *)
theory Dispatcher
  imports Window Host
begin

text \<open>
  The Motion/Click Dispatcher: the Flask views \<^verbatim>\<open>move\<close> (lines 111--133) and
  \<^verbatim>\<open>click\<close> (lines 136--149) of \<^verbatim>\<open>src/mouse_control_server.py\<close>. The server
  state is the shared window \<^verbatim>\<open>movement_history\<close> and the host. Each view
  decodes the body (\<^verbatim>\<open>request.get_json()\<close>), tests for its fields outside the
  \<^verbatim>\<open>try\<close> block (an exception there escapes the view and Flask answers
  500), and runs the rest inside \<^verbatim>\<open>try ... except Exception\<close>, where every
  exception becomes \<^verbatim>\<open>{"status": "error", "message": str(e)}\<close>. The state a
  view leaves is the state at the point it returned or raised: an append done
  before an exception is kept. The \<^verbatim>\<open>print\<close> calls are not modelled.
\<close>

section \<open>Requests and responses\<close>

text \<open>
  The body of a request as \<^verbatim>\<open>request.get_json()\<close> sees it: a JSON document, a
  body that is not valid JSON (Flask aborts with 400), or a request whose
  content type is not JSON (415). Flask's request decoding is a library the
  source only calls; it is modelled from its documented behaviour.
\<close>

datatype req_body = Json jval | Bad_json | Not_json

definition get_json :: "req_body \<Rightarrow> nat + jval" where
  "get_json b = (case b of Json v \<Rightarrow> Inr v | Bad_json \<Rightarrow> Inl 400 | Not_json \<Rightarrow> Inl 415)"

datatype errmsg = Invalid_data | Exc_message pyexc

datatype status = Success | Error errmsg

text \<open>A JSON response of the view (HTTP 200), or an HTTP error status.\<close>

datatype http_resp = Json_resp status | Http_error nat

record server =
  history :: "entry list"
  host_state :: host

definition move_duration :: real where
  "move_duration = 0.05"

section \<open>\<^verbatim>\<open>move\<close>\<close>

text \<open>
  The \<^verbatim>\<open>try\<close> block of \<^verbatim>\<open>move\<close> (lines 115--129): read both fields, append
  and average (\<open>record_and_average\<close>), read the pointer, move it.
\<close>

definition move_try :: "jval \<Rightarrow> server \<Rightarrow> (pyexc + unit) \<times> server" where
  "move_try data s =
     (case py_getitem data ''dx'' of
        Inl ex \<Rightarrow> (Inl ex, s)
      | Inr dx \<Rightarrow>
        (case py_getitem data ''dy'' of
           Inl ex \<Rightarrow> (Inl ex, s)
         | Inr dy \<Rightarrow>
           (case record_and_average (history s) (dx, dy) of
              (w, Inl ex) \<Rightarrow> (Inl ex, s\<lparr>history := w\<rparr>)
            | (w, Inr (avg_dx, avg_dy)) \<Rightarrow>
              (case host_position (host_state s) of
                 (Inl ex, h) \<Rightarrow> (Inl ex, s\<lparr>history := w, host_state := h\<rparr>)
               | (Inr (x, y), h) \<Rightarrow>
                 (case host_moveTo (x + avg_dx) (y + avg_dy) move_duration h of
                    (r, h') \<Rightarrow> (r, s\<lparr>history := w, host_state := h'\<rparr>))))))"

definition move :: "req_body \<Rightarrow> server \<Rightarrow> http_resp \<times> server" where
  "move body s =
     (case get_json body of
        Inl code \<Rightarrow> (Http_error code, s)
      | Inr data \<Rightarrow>
        (case py_contains data ''dx'' of
           Inl ex \<Rightarrow> (Http_error 500, s)
         | Inr has_dx \<Rightarrow>
           (if \<not> has_dx then (Json_resp (Error Invalid_data), s)
            else
              (case py_contains data ''dy'' of
                 Inl ex \<Rightarrow> (Http_error 500, s)
               | Inr has_dy \<Rightarrow>
                 (if \<not> has_dy then (Json_resp (Error Invalid_data), s)
                  else
                    (case move_try data s of
                       (Inl ex, s') \<Rightarrow> (Json_resp (Error (Exc_message ex)), s')
                     | (Inr u, s') \<Rightarrow> (Json_resp Success, s')))))))"

section \<open>\<^verbatim>\<open>click\<close>\<close>

text \<open>
  The \<^verbatim>\<open>try\<close> block of \<^verbatim>\<open>click\<close> (lines 140--145). The second
  \<^verbatim>\<open>data['button']\<close> of the \<^verbatim>\<open>elif\<close> reads the same dict again and cannot
  raise where the first did not, so it is read once. A value that is neither
  \<^verbatim>\<open>'left'\<close> nor \<^verbatim>\<open>'right'\<close> falls through both branches to the success
  return.
\<close>

definition click_host :: "button \<Rightarrow> server \<Rightarrow> (pyexc + unit) \<times> server" where
  "click_host b s = (case host_click b (host_state s) of (r, h) \<Rightarrow> (r, s\<lparr>host_state := h\<rparr>))"

definition click_try :: "jval \<Rightarrow> server \<Rightarrow> (pyexc + unit) \<times> server" where
  "click_try data s =
     (case py_getitem data ''button'' of
        Inl ex \<Rightarrow> (Inl ex, s)
      | Inr b \<Rightarrow>
        (if b = JStr ''left'' then click_host Left s
         else if b = JStr ''right'' then click_host Right s
         else (Inr (), s)))"

definition click :: "req_body \<Rightarrow> server \<Rightarrow> http_resp \<times> server" where
  "click body s =
     (case get_json body of
        Inl code \<Rightarrow> (Http_error code, s)
      | Inr data \<Rightarrow>
        (case py_contains data ''button'' of
           Inl ex \<Rightarrow> (Http_error 500, s)
         | Inr has_button \<Rightarrow>
           (if \<not> has_button then (Json_resp (Error Invalid_data), s)
            else
              (case click_try data s of
                 (Inl ex, s') \<Rightarrow> (Json_resp (Error (Exc_message ex)), s')
               | (Inr u, s') \<Rightarrow> (Json_resp Success, s')))))"

declare get_json_def [model_defs] move_try_def [model_defs] move_def [model_defs]
  click_host_def [model_defs] click_try_def [model_defs] click_def [model_defs]

section \<open>The requests the page sends, and runs of requests\<close>

text \<open>
  The bodies the touchpad page posts: \<^verbatim>\<open>JSON.stringify({ dx: deltaX, dy: deltaY })\<close>
  to \<^verbatim>\<open>/move\<close> and \<^verbatim>\<open>JSON.stringify({ button: button })\<close> to \<^verbatim>\<open>/click\<close>.
\<close>

definition sample_body :: "sample \<Rightarrow> req_body" where
  "sample_body d = Json (JObj [(''dx'', JNum (fst d)), (''dy'', JNum (snd d))])"

definition click_body :: "button \<Rightarrow> req_body" where
  "click_body b = Json (JObj [(''button'', JStr (case b of Left \<Rightarrow> ''left'' | Right \<Rightarrow> ''right''))])"

text \<open>The server as the module leaves it at start-up: an empty window.\<close>

definition init_server :: "host \<Rightarrow> server" where
  "init_server h = \<lparr>history = [], host_state = h\<rparr>"

text \<open>A sequence of \<^verbatim>\<open>/move\<close> requests served one after the other.\<close>

fun move_run :: "req_body list \<Rightarrow> server \<Rightarrow> http_resp list \<times> server" where
  "move_run [] s = ([], s)"
| "move_run (b # bs) s = (case move b s of (r, s') \<Rightarrow> (case move_run bs s' of (rs, s'') \<Rightarrow> (r # rs, s'')))"

section \<open>Lemmas\<close>

lemma move_obj:
  assumes "map_of (rev kvs) ''dx'' = Some a" and "map_of (rev kvs) ''dy'' = Some b"
  shows "move (Json (JObj kvs)) s =
    (case record_and_average (history s) (a, b) of (w, avg) \<Rightarrow>
     (case avg of Inl ex \<Rightarrow> (Json_resp (Error (Exc_message ex)), s\<lparr>history := w\<rparr>)
      | Inr (avg_dx, avg_dy) \<Rightarrow>
        (case host_position (host_state s) of
          (Inl ex, h) \<Rightarrow> (Json_resp (Error (Exc_message ex)), s\<lparr>history := w, host_state := h\<rparr>)
        | (Inr (x, y), h) \<Rightarrow>
          (case host_moveTo (x + avg_dx) (y + avg_dy) move_duration h of
            (Inl ex, h') \<Rightarrow> (Json_resp (Error (Exc_message ex)), s\<lparr>history := w, host_state := h'\<rparr>)
          | (Inr u, h') \<Rightarrow> (Json_resp Success, s\<lparr>history := w, host_state := h'\<rparr>)))))"
  using assms map_of_rev_keys [OF assms(1)] map_of_rev_keys [OF assms(2)]
  by (auto simp: move_def get_json_def move_try_def Let_def split: prod.splits sum.splits)

lemma move_try_history:
  "history (snd (move_try data s)) = history s \<or>
   (\<exists>e. history (snd (move_try data s)) = history_append (history s) e)"
  by (auto simp: move_try_def record_and_average_run split: sum.splits prod.splits)

lemma move_history_cases:
  "history (snd (move b s)) = history s \<or> (\<exists>e. history (snd (move b s)) = history_append (history s) e)"
proof (cases "get_json b")
  case (Inl c)
  then show ?thesis by (simp add: move_def)
next
  case (Inr data)
  then have "snd (move b s) = s \<or> snd (move b s) = snd (move_try data s)"
    by (auto simp: move_def split: sum.splits prod.splits)
  then show ?thesis
  proof
    assume "snd (move b s) = s"
    then show ?thesis by simp
  next
    assume "snd (move b s) = snd (move_try data s)"
    with move_try_history [of data s] show ?thesis by simp
  qed
qed

lemma click_history: "history (snd (click b s)) = history s"
  by (auto simp: click_def click_try_def click_host_def split: sum.splits prod.splits)

lemma move_sample_poisoned:
  assumes "\<not> list_all entry_num (history_append (history s) (num_entry d))"
  shows "move (sample_body d) s
           = (Json_resp (Error (Exc_message TypeError)), s\<lparr>history := history_append (history s) (num_entry d)\<rparr>)"
  using assms window_average_poisoned [OF assms]
  by (simp add: sample_body_def move_obj record_and_average_run num_entry_def)

lemma poison_run:
  assumes "\<not> entry_num e"
  shows "history s = last_n history_maxlen (xs @ e # ys) \<Longrightarrow> length ys + length ds \<le> 4 \<Longrightarrow>
         move_run (map sample_body ds) s
           = (replicate (length ds) (Json_resp (Error (Exc_message TypeError))),
              s\<lparr>history := last_n history_maxlen (xs @ e # ys @ map num_entry ds)\<rparr>)"
proof (induction ds arbitrary: s ys)
  case Nil
  then show ?case by simp
next
  case (Cons d ds)
  let ?w = "last_n history_maxlen (xs @ e # ys @ [num_entry d])"
  have app: "history_append (history s) (num_entry d) = ?w"
    using Cons.prems(1) by (simp add: history_append_last_n min_def last_n_last_n_append)
  have "e \<in> set ?w" using Cons.prems(2) by (simp add: in_last_n history_maxlen_def)
  with assms have "\<not> list_all entry_num ?w" by (auto simp: list_all_iff)
  with app have step: "move (sample_body d) s
      = (Json_resp (Error (Exc_message TypeError)), s\<lparr>history := ?w\<rparr>)"
    by (simp add: move_sample_poisoned)
  have "move_run (map sample_body ds) (s\<lparr>history := ?w\<rparr>)
      = (replicate (length ds) (Json_resp (Error (Exc_message TypeError))),
         s\<lparr>history := last_n history_maxlen (xs @ e # (ys @ [num_entry d]) @ map num_entry ds)\<rparr>)"
    using Cons.IH [of "s\<lparr>history := ?w\<rparr>" "ys @ [num_entry d]"] Cons.prems(2) by simp
  then show ?case by (simp add: step)
qed

lemma move_numeric_outcome:
  assumes "history s = map num_entry (last_n history_maxlen pre)" and "fault (host_state s) = None"
  shows "fst (move (sample_body d) s) = Json_resp Success \<and>
         history (snd (move (sample_body d) s)) = map num_entry (last_n history_maxlen (pre @ [d])) \<and>
         cursor (host_state (snd (move (sample_body d) s)))
           = (fst (cursor (host_state s)) + fst (smoothed_spec (pre @ [d])),
              snd (cursor (host_state s)) + snd (smoothed_spec (pre @ [d]))) \<and>
         fault (host_state (snd (move (sample_body d) s))) = None"
  using assms
  by (simp add: sample_body_def move_obj record_and_average_num host_position_def host_moveTo_def
      host_call_def Let_def case_prod_unfold)

section \<open>Properties of the Dispatcher\<close>

text \<open>C7. A well-formed move request on a numeric window with a working host succeeds: the sample is appended, the pointer is read once and moved once, by the smoothed average, over 50 ms, and nothing else changes.\<close>

theorem move_success:
  assumes "history s = map num_entry (last_n history_maxlen pre)"
      and "fault (host_state s) = None"
  shows "move (sample_body (dx, dy)) s =
           (let (ax, ay) = smoothed_spec (pre @ [(dx, dy)]); (x, y) = cursor (host_state s) in
            (Json_resp Success,
             s\<lparr>history := map num_entry (last_n history_maxlen (pre @ [(dx, dy)])),
               host_state := host_state s\<lparr>cursor := (x + ax, y + ay),
                 calls := calls (host_state s) @ [HPosition, HMoveTo (x + ax) (y + ay) move_duration]\<rparr>\<rparr>))"
  using assms
  by (simp add: sample_body_def move_obj record_and_average_num host_position_def host_moveTo_def
      host_call_def Let_def split: prod.splits)

theorem move_success_witness:
  "history \<lparr>history = [], host_state = \<lparr>cursor = (10, 10), calls = [], fault = None\<rparr>\<rparr>
     = map num_entry (last_n history_maxlen []) \<and>
   fault (host_state \<lparr>history = [], host_state = \<lparr>cursor = (10, 10), calls = [], fault = None\<rparr>\<rparr>) = None \<and>
   move (sample_body (1, 2)) \<lparr>history = [], host_state = \<lparr>cursor = (10, 10), calls = [], fault = None\<rparr>\<rparr>
     = (Json_resp Success, \<lparr>history = [num_entry (1, 2)],
          host_state = \<lparr>cursor = (11, 12), calls = [HPosition, HMoveTo 11 12 move_duration], fault = None\<rparr>\<rparr>)"
  using move_success [of "\<lparr>history = [], host_state = \<lparr>cursor = (10, 10), calls = [], fault = None\<rparr>\<rparr>" "[]" 1 2]
  by (simp add: smoothed_spec_def history_maxlen_def)

text \<open>C8. A move request whose object lacks dx or dy is answered with the error 'Invalid data' and changes nothing: no host call, no change of the window.\<close>

theorem move_missing_field:
  assumes "''dx'' \<notin> set (map fst kvs) \<or> ''dy'' \<notin> set (map fst kvs)"
  shows "move (Json (JObj kvs)) s = (Json_resp (Error Invalid_data), s)"
  using assms by (auto simp: move_def get_json_def)

theorem move_missing_field_witness:
  "''dx'' \<notin> set (map fst [(''dy'', JNum 1)]) \<and>
   move (Json (JObj [(''dy'', JNum 1)])) (init_server idle_host)
     = (Json_resp (Error Invalid_data), init_server idle_host)"
  using move_missing_field [of "[(''dy'', JNum 1)]" "init_server idle_host"] by simp

text \<open>C9. When the host subsystem fails, a well-formed move request is answered with an error carrying the host's message; the sample has already been recorded in the window, and no move is attempted after the failed position read.\<close>

theorem move_host_failure:
  assumes "history s = map num_entry (last_n history_maxlen pre)"
      and "fault (host_state s) = Some m"
  shows "move (sample_body (dx, dy)) s =
           (Json_resp (Error (Exc_message (HostError m))),
            s\<lparr>history := map num_entry (last_n history_maxlen (pre @ [(dx, dy)])),
              host_state := host_state s\<lparr>calls := calls (host_state s) @ [HPosition]\<rparr>\<rparr>)"
  using assms
  by (simp add: sample_body_def move_obj record_and_average_num host_position_def host_call_def
      Let_def split: prod.splits)

theorem move_host_failure_witness:
  "history (init_server (idle_host\<lparr>fault := Some ''no display''\<rparr>)) = map num_entry (last_n history_maxlen []) \<and>
   fault (host_state (init_server (idle_host\<lparr>fault := Some ''no display''\<rparr>))) = Some ''no display'' \<and>
   move (sample_body (1, 2)) (init_server (idle_host\<lparr>fault := Some ''no display''\<rparr>))
     = (Json_resp (Error (Exc_message (HostError ''no display''))),
        \<lparr>history = [num_entry (1, 2)],
         host_state = \<lparr>cursor = (0, 0), calls = [HPosition], fault = Some ''no display''\<rparr>\<rparr>)"
  using move_host_failure [of "init_server (idle_host\<lparr>fault := Some ''no display''\<rparr>)" "[]" "''no display''" 1 2]
  by (simp add: init_server_def history_maxlen_def)

text \<open>C10. A move request whose dx or dy is not a number (a string, null, a list, an object) is answered with an error, but its values are appended to the shared window before the sum fails.\<close>

theorem move_non_numeric_poisons:
  assumes "map_of (rev kvs) ''dx'' = Some a" and "map_of (rev kvs) ''dy'' = Some b"
      and "\<not> entry_num (a, b)"
  shows "move (Json (JObj kvs)) s
           = (Json_resp (Error (Exc_message TypeError)), s\<lparr>history := history_append (history s) (a, b)\<rparr>)"
proof -
  have "\<not> list_all entry_num (history_append (history s) (a, b))"
    using assms(3) last_history_append [of "history s" "(a, b)"] history_append_nonempty [of "history s" "(a, b)"]
    by (metis last_in_set list_all_iff)
  then show ?thesis
    using assms(1,2) by (simp add: move_obj record_and_average_run window_average_poisoned)
qed

theorem move_non_numeric_poisons_witness:
  "map_of (rev [(''dx'', JStr ''1''), (''dy'', JNum 0)]) ''dx'' = Some (JStr ''1'') \<and>
   map_of (rev [(''dx'', JStr ''1''), (''dy'', JNum 0)]) ''dy'' = Some (JNum 0) \<and>
   \<not> entry_num (JStr ''1'', JNum 0) \<and>
   move (Json (JObj [(''dx'', JStr ''1''), (''dy'', JNum 0)])) (init_server idle_host)
     = (Json_resp (Error (Exc_message TypeError)),
        \<lparr>history = [(JStr ''1'', JNum 0)], host_state = idle_host\<rparr>)"
  using move_non_numeric_poisons [of "[(''dx'', JStr ''1''), (''dy'', JNum 0)]" "JStr ''1''" "JNum 0"
      "init_server idle_host"]
  by (simp add: init_server_def entry_num_def history_append_def deque_append_def history_maxlen_def)

text \<open>C11. After such a request, each of the next four well-formed move requests fails with the same error, whatever its numbers: the bad entry stays in the window until four more appends have pushed it out.\<close>

theorem poison_lasts_four_moves:
  assumes "length (history s) \<le> history_maxlen" and "\<not> entry_num e" and "length ds \<le> 4"
  shows "fst (move_run (map sample_body ds) (s\<lparr>history := history_append (history s) e\<rparr>))
           = replicate (length ds) (Json_resp (Error (Exc_message TypeError)))"
  using poison_run [OF assms(2), of "s\<lparr>history := history_append (history s) e\<rparr>" "history s" "[]" ds]
    assms(1,3) history_append_last_n [OF assms(1)]
  by simp

theorem poison_lasts_four_moves_witness:
  "length (history (init_server idle_host)) \<le> history_maxlen \<and> \<not> entry_num (JStr ''1'', JNum 0) \<and>
   length [(1::real, 0::real), (2, 0)] \<le> 4 \<and>
   fst (move_run (map sample_body [(1, 0), (2, 0)])
         ((init_server idle_host)\<lparr>history := history_append (history (init_server idle_host)) (JStr ''1'', JNum 0)\<rparr>))
     = [Json_resp (Error (Exc_message TypeError)), Json_resp (Error (Exc_message TypeError))]"
  using poison_lasts_four_moves [of "init_server idle_host" "(JStr ''1'', JNum 0)" "[(1, 0), (2, 0)]"]
  by (simp add: init_server_def entry_num_def history_maxlen_def numeral_2_eq_2)

text \<open>C13. A click request for 'left' or 'right' with a working host succeeds and issues exactly one click of that button, and nothing else.\<close>

theorem click_button:
  assumes "fault (host_state s) = None"
  shows "click (click_body b) s
           = (Json_resp Success, s\<lparr>host_state := host_state s\<lparr>calls := calls (host_state s) @ [HClick b]\<rparr>\<rparr>)"
  using assms
  by (cases b) (simp_all add: click_body_def click_def get_json_def click_try_def click_host_def
      host_click_def host_call_def Let_def)

theorem click_button_witness:
  "fault (host_state (init_server idle_host)) = None \<and>
   click (click_body Right) (init_server idle_host)
     = (Json_resp Success, \<lparr>history = [], host_state = \<lparr>cursor = (0, 0), calls = [HClick Right], fault = None\<rparr>\<rparr>)"
  using click_button [of "init_server idle_host" Right] by (simp add: init_server_def)

text \<open>C14. A click request whose button is present but neither 'left' nor 'right' (for example 'middle') is answered with success and issues no host call.\<close>

theorem click_unknown_button:
  assumes "map_of (rev kvs) ''button'' = Some v" and "v \<noteq> JStr ''left''" and "v \<noteq> JStr ''right''"
  shows "click (Json (JObj kvs)) s = (Json_resp Success, s)"
  using assms map_of_rev_keys [OF assms(1)] by (simp add: click_def get_json_def click_try_def)

theorem click_unknown_button_witness:
  "map_of (rev [(''button'', JStr ''middle'')]) ''button'' = Some (JStr ''middle'') \<and>
   JStr ''middle'' \<noteq> JStr ''left'' \<and> JStr ''middle'' \<noteq> JStr ''right'' \<and>
   click (Json (JObj [(''button'', JStr ''middle'')])) (init_server idle_host)
     = (Json_resp Success, init_server idle_host)"
  using click_unknown_button [of "[(''button'', JStr ''middle'')]" "JStr ''middle''" "init_server idle_host"]
  by simp

text \<open>C15. A click request without a button field is answered with the error 'Invalid data' and issues no host call.\<close>

theorem click_missing_button:
  assumes "''button'' \<notin> set (map fst kvs)"
  shows "click (Json (JObj kvs)) s = (Json_resp (Error Invalid_data), s)"
  using assms by (simp add: click_def get_json_def)

theorem click_missing_button_witness:
  "''button'' \<notin> set (map fst ([] :: (string \<times> jval) list)) \<and>
   click (Json (JObj [])) (init_server idle_host) = (Json_resp (Error Invalid_data), init_server idle_host)"
  using click_missing_button [of "[]" "init_server idle_host"] by simp

text \<open>C16. When the host subsystem fails, a click request is answered with an error carrying the host's message.\<close>

theorem click_host_failure:
  assumes "fault (host_state s) = Some m"
  shows "click (click_body b) s
           = (Json_resp (Error (Exc_message (HostError m))),
              s\<lparr>host_state := host_state s\<lparr>calls := calls (host_state s) @ [HClick b]\<rparr>\<rparr>)"
  using assms
  by (cases b) (simp_all add: click_body_def click_def get_json_def click_try_def click_host_def
      host_click_def host_call_def Let_def)

theorem click_host_failure_witness:
  "fault (host_state (init_server (idle_host\<lparr>fault := Some ''denied''\<rparr>))) = Some ''denied'' \<and>
   click (click_body Left) (init_server (idle_host\<lparr>fault := Some ''denied''\<rparr>))
     = (Json_resp (Error (Exc_message (HostError ''denied''))),
        \<lparr>history = [], host_state = \<lparr>cursor = (0, 0), calls = [HClick Left], fault = Some ''denied''\<rparr>\<rparr>)"
  using click_host_failure [of "init_server (idle_host\<lparr>fault := Some ''denied''\<rparr>)" "''denied''" Left]
  by (simp add: init_server_def)

text \<open>C17. A request body that is JSON null, a number or a boolean makes the membership test raise outside the try block: both views answer HTTP 500 and change nothing.\<close>

theorem scalar_body_internal_error:
  assumes "data = JNull \<or> data = JNum r \<or> data = JBool t"
  shows "move (Json data) s = (Http_error 500, s) \<and> click (Json data) s = (Http_error 500, s)"
  using assms by (auto simp: move_def click_def get_json_def)

theorem scalar_body_internal_error_witness:
  "move (Json JNull) (init_server idle_host) = (Http_error 500, init_server idle_host) \<and>
   click (Json JNull) (init_server idle_host) = (Http_error 500, init_server idle_host)"
  using scalar_body_internal_error [of JNull 0 True "init_server idle_host"] by simp

text \<open>C18. A move request with dx = true is handled exactly as one with dx = 1: same response, same pointer movement.\<close>

theorem move_true_is_one:
  "fst (move (Json (JObj [(''dx'', JBool True), (''dy'', v)])) s)
     = fst (move (Json (JObj [(''dx'', JNum 1), (''dy'', v)])) s) \<and>
   host_state (snd (move (Json (JObj [(''dx'', JBool True), (''dy'', v)])) s))
     = host_state (snd (move (Json (JObj [(''dx'', JNum 1), (''dy'', v)])) s))"
proof -
  have eq: "window_average (history_append (history s) (JBool True, v))
      = window_average (history_append (history s) (JNum 1, v))"
    by (intro window_average_cong history_append_num_view) (simp add: num_view_def)
  show ?thesis
  proof (cases "window_average (history_append (history s) (JNum 1, v))")
    case (Inl ex)
    with eq show ?thesis by (simp add: move_obj record_and_average_run)
  next
    case (Inr a)
    then obtain ax ay where "window_average (history_append (history s) (JNum 1, v)) = Inr (ax, ay)"
      by (cases a) auto
    moreover obtain cx cy where "cursor (host_state s) = (cx, cy)"
      by (cases "cursor (host_state s)")
    ultimately show ?thesis using eq
      by (cases "fault (host_state s)")
        (simp_all add: move_obj record_and_average_run host_position_def host_moveTo_def
          host_call_def Let_def)
  qed
qed

text \<open>C36. Bounds: with a numeric window and a working host, one move shifts the pointer along each axis by at most the largest magnitude among the five samples the window then holds: the smoothing never amplifies a sample.\<close>

theorem move_step_bounded:
  assumes "history s = map num_entry (last_n history_maxlen pre)" and "fault (host_state s) = None"
    and "\<forall>e \<in> set (last_n history_maxlen (pre @ [d])). \<bar>fst e\<bar> \<le> M \<and> \<bar>snd e\<bar> \<le> M"
  shows "\<bar>fst (cursor (host_state (snd (move (sample_body d) s)))) - fst (cursor (host_state s))\<bar> \<le> M \<and>
         \<bar>snd (cursor (host_state (snd (move (sample_body d) s)))) - snd (cursor (host_state s))\<bar> \<le> M"
proof -
  have ne: "last_n history_maxlen (pre @ [d]) \<noteq> []"
    by (simp add: last_n_nonempty history_maxlen_def)
  have "\<bar>mean (map fst (last_n history_maxlen (pre @ [d])))\<bar> \<le> M"
    using ne assms(3) by (intro mean_abs_le) auto
  moreover have "\<bar>mean (map snd (last_n history_maxlen (pre @ [d])))\<bar> \<le> M"
    using ne assms(3) by (intro mean_abs_le) auto
  ultimately show ?thesis
    using move_numeric_outcome [OF assms(1,2), of d] by (simp add: smoothed_spec_def)
qed

theorem move_step_bounded_witness:
  "history \<lparr>history = map num_entry [(3, 1)], host_state = idle_host\<rparr>
     = map num_entry (last_n history_maxlen [(3, 1)]) \<and>
   fault (host_state \<lparr>history = map num_entry [(3, 1)], host_state = idle_host\<rparr>) = None \<and>
   \<bar>fst (3::real, 1::real)\<bar> \<le> 5 \<and> \<bar>snd (3::real, 1::real)\<bar> \<le> 5 \<and>
   \<bar>fst (- 5::real, 2::real)\<bar> \<le> 5 \<and> \<bar>snd (- 5::real, 2::real)\<bar> \<le> 5 \<and>
   \<bar>fst (cursor (host_state (snd (move (sample_body (- 5, 2))
      \<lparr>history = map num_entry [(3, 1)], host_state = idle_host\<rparr>)))) - 0\<bar> \<le> 5"
  using move_step_bounded [of "\<lparr>history = map num_entry [(3, 1)], host_state = idle_host\<rparr>" "[(3, 1)]" "(- 5, 2)" 5]
  by (simp add: history_maxlen_def last_n_def)

end
