(* ===== verification/Server.thy ===== *)
theory Server
  imports Dispatcher
begin

text \<open>
  Flask's routing of the three views of \<^verbatim>\<open>src/mouse_control_server.py\<close>
  (\<^verbatim>\<open>@app.route('/')\<close> line 106, \<^verbatim>\<open>@app.route('/move', methods=['POST'])\<close>
  line 111, \<^verbatim>\<open>@app.route('/click', methods=['POST'])\<close> line 136), requests
  served one after another, and the states the server can reach when requests
  and changes of the host (the user moving the physical mouse, the display
  going away) alternate.
\<close>

datatype http_method = GET | HEAD | POST | OPTIONS | Other_method string

record request =
  req_method :: http_method
  req_path :: string
  req_data :: req_body

text \<open>
  What Flask sends back: the page of \<^verbatim>\<open>index\<close>, the response of a view, the
  automatic answer to \<^verbatim>\<open>OPTIONS\<close>, 404 for an unknown path, 405 for a method
  the route does not accept. A route without \<^verbatim>\<open>methods\<close> accepts \<^verbatim>\<open>GET\<close>
  (and \<^verbatim>\<open>HEAD\<close>); every route answers \<^verbatim>\<open>OPTIONS\<close> itself.
\<close>

datatype reply = Page | View http_resp | Options_reply | Not_found | Method_not_allowed

definition serve :: "request \<Rightarrow> server \<Rightarrow> reply \<times> server" where
  "serve r s =
     (if req_path r = ''/'' then
        (if req_method r \<in> {GET, HEAD} then (Page, s)
         else if req_method r = OPTIONS then (Options_reply, s)
         else (Method_not_allowed, s))
      else if req_path r = ''/move'' then
        (if req_method r = POST then (case move (req_data r) s of (resp, s') \<Rightarrow> (View resp, s'))
         else if req_method r = OPTIONS then (Options_reply, s)
         else (Method_not_allowed, s))
      else if req_path r = ''/click'' then
        (if req_method r = POST then (case click (req_data r) s of (resp, s') \<Rightarrow> (View resp, s'))
         else if req_method r = OPTIONS then (Options_reply, s)
         else (Method_not_allowed, s))
      else (Not_found, s))"

fun serve_run :: "request list \<Rightarrow> server \<Rightarrow> reply list \<times> server" where
  "serve_run [] s = ([], s)"
| "serve_run (r # rs) s =
     (case serve r s of (a, s') \<Rightarrow> (case serve_run rs s' of (as, s'') \<Rightarrow> (a # as, s'')))"

text \<open>The requests the page issues.\<close>

definition move_request :: "sample \<Rightarrow> request" where
  "move_request d = \<lparr>req_method = POST, req_path = ''/move'', req_data = sample_body d\<rparr>"

definition click_request :: "button \<Rightarrow> request" where
  "click_request b = \<lparr>req_method = POST, req_path = ''/click'', req_data = click_body b\<rparr>"

text \<open>
  One step of the running server: a request is served, or the environment
  changes the host (the pointer moved by hand, a fault appearing or going).
\<close>

inductive server_step :: "server \<Rightarrow> server \<Rightarrow> bool" where
  request: "server_step s (snd (serve r s))"
| environment: "server_step s (s\<lparr>host_state := (host_state s)\<lparr>cursor := c, fault := f\<rparr>\<rparr>)"

inductive reachable :: "server \<Rightarrow> bool" where
  start: "reachable (init_server h)"
| step: "reachable s \<Longrightarrow> server_step s t \<Longrightarrow> reachable t"

inductive_cases server_stepE: "server_step s t"

text \<open>The entry a request body makes \<^verbatim>\<open>move\<close> append, if any.\<close>

definition move_entry :: "req_body \<Rightarrow> entry option" where
  "move_entry b =
     (case get_json b of
        Inl c \<Rightarrow> None
      | Inr data \<Rightarrow>
        (case (py_contains data ''dx'', py_contains data ''dy'') of
           (Inr True, Inr True) \<Rightarrow>
             (case (py_getitem data ''dx'', py_getitem data ''dy'') of
                (Inr a, Inr b) \<Rightarrow> Some (a, b)
              | _ \<Rightarrow> None)
         | _ \<Rightarrow> None))"

text \<open>The entries a sequence of requests appends, in arrival order.\<close>

definition appends :: "request \<Rightarrow> entry list" where
  "appends r =
     (if req_path r = ''/move'' \<and> req_method r = POST
      then (case move_entry (req_data r) of None \<Rightarrow> [] | Some e \<Rightarrow> [e]) else [])"

lemma move_try_history_exact:
  "history (snd (move_try data s)) =
     (case (py_getitem data ''dx'', py_getitem data ''dy'') of
        (Inr a, Inr b) \<Rightarrow> history_append (history s) (a, b)
      | _ \<Rightarrow> history s)"
  by (simp add: move_try_def record_and_average_run split: sum.splits prod.splits)

lemma move_history_exact:
  "history (snd (move b s)) =
     (case move_entry b of None \<Rightarrow> history s | Some e \<Rightarrow> history_append (history s) e)"
proof (cases "get_json b")
  case (Inl c)
  then show ?thesis by (simp add: move_def move_entry_def)
next
  case (Inr data)
  then have "snd (move b s) =
      (case (py_contains data ''dx'', py_contains data ''dy'') of
         (Inr True, Inr True) \<Rightarrow> snd (move_try data s) | _ \<Rightarrow> s)"
    by (simp add: move_def snd_case_result split: sum.splits)
  with Inr show ?thesis
    by (simp add: move_entry_def move_try_history_exact split: sum.splits prod.splits bool.splits)
qed

lemma serve_state:
  "snd (serve r s) =
     (if req_method r = POST \<and> req_path r = ''/move'' then snd (move (req_data r) s)
      else if req_method r = POST \<and> req_path r = ''/click'' then snd (click (req_data r) s)
      else s)"
  by (simp add: serve_def case_prod_unfold)

lemma serve_run_Cons_state: "snd (serve_run (r # rs) s) = snd (serve_run rs (snd (serve r s)))"
  by (simp add: case_prod_unfold)

lemma serve_history:
  assumes "length (history s) \<le> history_maxlen"
  shows "history (snd (serve r s)) = last_n history_maxlen (history s @ appends r)"
  using assms
  by (auto simp: serve_state appends_def move_history_exact click_history history_append_last_n
      split: option.splits)

lemma serve_run_moves_numeric:
  "history s = map num_entry (last_n history_maxlen pre) \<Longrightarrow> fault (host_state s) = None \<Longrightarrow>
   fst (serve_run (map move_request ds) s) = replicate (length ds) (View (Json_resp Success)) \<and>
   history (snd (serve_run (map move_request ds) s)) = map num_entry (last_n history_maxlen (pre @ ds)) \<and>
   cursor (host_state (snd (serve_run (map move_request ds) s))) = pointer_after (cursor (host_state s)) pre ds \<and>
   fault (host_state (snd (serve_run (map move_request ds) s))) = None"
proof (induction ds arbitrary: s pre)
  case Nil
  then show ?case by simp
next
  case (Cons d ds)
  let ?s' = "snd (move (sample_body d) s)"
  have step: "serve (move_request d) s = (View (Json_resp Success), ?s')"
    using move_numeric_outcome [OF Cons.prems, of d]
    by (simp add: serve_def move_request_def case_prod_unfold prod_eq_iff)
  have o: "history ?s' = map num_entry (last_n history_maxlen (pre @ [d]))"
    "cursor (host_state ?s') = (fst (cursor (host_state s)) + fst (smoothed_spec (pre @ [d])),
              snd (cursor (host_state s)) + snd (smoothed_spec (pre @ [d])))"
    "fault (host_state ?s') = None"
    using move_numeric_outcome [OF Cons.prems, of d] by simp_all
  have ih: "fst (serve_run (map move_request ds) ?s') = replicate (length ds) (View (Json_resp Success)) \<and>
     history (snd (serve_run (map move_request ds) ?s')) = map num_entry (last_n history_maxlen ((pre @ [d]) @ ds)) \<and>
     cursor (host_state (snd (serve_run (map move_request ds) ?s'))) = pointer_after (cursor (host_state ?s')) (pre @ [d]) ds \<and>
     fault (host_state (snd (serve_run (map move_request ds) ?s'))) = None"
    using Cons.IH [OF o(1) o(3)] .
  show ?case
    using ih step by (simp add: o(2) case_prod_unfold)
qed

text \<open>C20. Only a POST to /move can change the window, and only a POST to /move or /click can change anything at all: every other request leaves the server state as it was.\<close>

theorem serve_frame:
  "(\<not> (req_method r = POST \<and> req_path r = ''/move'') \<longrightarrow> history (snd (serve r s)) = history s) \<and>
   (\<not> (req_method r = POST \<and> req_path r \<in> {''/move'', ''/click''}) \<longrightarrow> snd (serve r s) = s)"
  by (auto simp: serve_state click_history)

theorem serve_frame_witness:
  "history (snd (serve \<lparr>req_method = GET, req_path = ''/move'', req_data = sample_body (1, 2)\<rparr>
      (init_server idle_host))) = history (init_server idle_host) \<and>
   snd (serve \<lparr>req_method = GET, req_path = ''/move'', req_data = sample_body (1, 2)\<rparr>
      (init_server idle_host)) = init_server idle_host"
  using serve_frame [of "\<lparr>req_method = GET, req_path = ''/move'', req_data = sample_body (1, 2)\<rparr>"
      "init_server idle_host"]
  by simp

text \<open>C21 (refinement). Served in order from start-up, any sequence of requests leaves in the window exactly the last five (dx, dy) values that POST /move requests carried past the field tests, in arrival order: nothing is duplicated, dropped or reordered.\<close>

theorem window_is_last_five_received:
  "history (snd (serve_run rs (init_server h))) = last_n history_maxlen (concat (map appends rs))"
proof -
  have "\<And>s. length (history s) \<le> history_maxlen \<Longrightarrow>
      history (snd (serve_run rs s)) = last_n history_maxlen (history s @ concat (map appends rs))"
  proof (induction rs)
    case Nil
    then show ?case by simp
  next
    case (Cons r rs)
    let ?s' = "snd (serve r s)"
    have h: "history ?s' = last_n history_maxlen (history s @ appends r)"
      using Cons.prems by (rule serve_history)
    then have "length (history ?s') \<le> history_maxlen" by simp
    then have "history (snd (serve_run rs ?s')) = last_n history_maxlen (history ?s' @ concat (map appends rs))"
      by (rule Cons.IH)
    then show ?case
      by (simp del: serve_run.simps add: serve_run_Cons_state h last_n_last_n_append)
  qed
  then show ?thesis by (simp add: init_server_def)
qed

text \<open>C22 (invariant). In every state the running server can reach, whatever requests arrive and however the host changes in between, the window holds at most five entries.\<close>

theorem reachable_window_bounded:
  "reachable s \<Longrightarrow> length (history s) \<le> history_maxlen"
proof (induction rule: reachable.induct)
  case (start h)
  then show ?case by (simp add: init_server_def)
next
  case (step s t)
  from step.hyps(2) consider (request) r where "t = snd (serve r s)"
    | (environment) c f where "t = s\<lparr>host_state := (host_state s)\<lparr>cursor := c, fault := f\<rparr>\<rparr>"
    by (blast elim: server_stepE)
  then show ?case
  proof cases
    case request
    with step.IH show ?thesis by (simp add: serve_history)
  next
    case environment
    with step.IH show ?thesis by simp
  qed
qed

theorem reachable_window_bounded_witness:
  "reachable (snd (serve (move_request (1, 2)) (init_server idle_host))) \<and>
   length (history (snd (serve (move_request (1, 2)) (init_server idle_host)))) \<le> history_maxlen"
proof -
  have r: "reachable (snd (serve (move_request (1, 2)) (init_server idle_host)))"
    by (rule reachable.step [OF reachable.start server_step.request])
  show ?thesis using r reachable_window_bounded [OF r] by simp
qed

text \<open>C23. Recovery: from any state whose window respects the bound (every reachable state, by C22), five well-formed move requests in a row replace the whole window by their samples, so a poisoned window is healed after five requests.\<close>

theorem five_moves_refill_window:
  assumes "length (history s) \<le> history_maxlen" and "length ds = history_maxlen"
  shows "history (snd (serve_run (map move_request ds) s)) = map num_entry ds"
proof -
  have gen: "\<And>s. length (history s) \<le> history_maxlen \<Longrightarrow>
      history (snd (serve_run (map move_request ds) s)) = last_n history_maxlen (history s @ map num_entry ds)"
  proof (induction ds)
    case Nil
    then show ?case by simp
  next
    case (Cons d ds)
    have app: "appends (move_request d) = [num_entry d]"
      by (simp add: appends_def move_request_def move_entry_def sample_body_def get_json_def num_entry_def)
    let ?s' = "snd (serve (move_request d) s)"
    have h: "history ?s' = last_n history_maxlen (history s @ [num_entry d])"
      using serve_history [OF Cons.prems, of "move_request d"] app by simp
    then have "length (history ?s') \<le> history_maxlen" by simp
    then have "history (snd (serve_run (map move_request ds) ?s'))
        = last_n history_maxlen (history ?s' @ map num_entry ds)"
      by (rule Cons.IH)
    then show ?case by (simp del: serve_run.simps add: serve_run_Cons_state h last_n_last_n_append)
  qed
  show ?thesis
    using gen [OF assms(1)] assms(2) by (simp add: last_n_append_long)
qed

theorem five_moves_refill_window_witness:
  "length (history \<lparr>history = [(JStr ''x'', JNull)], host_state = idle_host\<rparr>) \<le> history_maxlen \<and>
   length [(1::real, 0::real), (2, 0), (3, 0), (4, 0), (5, 0)] = history_maxlen \<and>
   history (snd (serve_run (map move_request [(1, 0), (2, 0), (3, 0), (4, 0), (5, 0)])
       \<lparr>history = [(JStr ''x'', JNull)], host_state = idle_host\<rparr>))
     = map num_entry [(1, 0), (2, 0), (3, 0), (4, 0), (5, 0)]"
  using five_moves_refill_window [of "\<lparr>history = [(JStr ''x'', JNull)], host_state = idle_host\<rparr>"
      "[(1, 0), (2, 0), (3, 0), (4, 0), (5, 0)]"]
  by (simp add: history_maxlen_def)

section \<open>The pointer and the answers\<close>

lemma click_cursor: "cursor (host_state (snd (click b s))) = cursor (host_state s)"
  by (auto simp: click_def click_try_def click_host_def model_defs Let_def split: sum.splits prod.splits option.splits)

lemma move_cursor:
  "cursor (host_state (snd (move b s))) \<noteq> cursor (host_state s) \<Longrightarrow> fst (move b s) = Json_resp Success"
  by (auto simp: move_def move_try_def record_and_average_def model_defs Let_def
      split: sum.splits prod.splits option.splits if_splits)

text \<open>C12. The pointer moves only when a \<^verbatim>\<open>POST /move\<close> request is answered with success: no other route, no error path of \<^verbatim>\<open>move\<close> (bad body, missing or non-numeric field, failing host) and no click changes the pointer's position.\<close>

theorem pointer_moves_only_on_success:
  "cursor (host_state (snd (serve r s))) \<noteq> cursor (host_state s) \<Longrightarrow>
   req_path r = ''/move'' \<and> req_method r = POST \<and> fst (serve r s) = View (Json_resp Success)"
  using move_cursor [of "req_data r" s] click_cursor [of "req_data r" s]
  by (auto simp: serve_def case_prod_unfold split: if_splits)

theorem pointer_moves_only_on_success_witness:
  "cursor (host_state (snd (serve (move_request (1, 2)) (init_server idle_host))))
     \<noteq> cursor (host_state (init_server idle_host)) \<and>
   req_path (move_request (1, 2)) = ''/move'' \<and> req_method (move_request (1, 2)) = POST \<and>
   fst (serve (move_request (1, 2)) (init_server idle_host)) = View (Json_resp Success)"
proof -
  have c: "cursor (host_state (snd (serve (move_request (1, 2)) (init_server idle_host)))) = (1, 2)"
    using serve_run_moves_numeric [of "init_server idle_host" "[]" "[(1, 2)]"]
    by (simp add: init_server_def smoothed_spec_def history_maxlen_def mean_def case_prod_unfold)
  have "cursor (host_state (snd (serve (move_request (1, 2)) (init_server idle_host))))
     \<noteq> cursor (host_state (init_server idle_host))"
    using c by (simp add: init_server_def)
  then show ?thesis using pointer_moves_only_on_success by blast
qed

end
