(* ===== verification/Client.thy ===== *)
theory Client
  imports Server
begin

text \<open>
  The script of the page served at \<^verbatim>\<open>/\<close> (the \<^verbatim>\<open><script>\<close> of
  \<^verbatim>\<open>html_template\<close>, lines 50--99 of \<^verbatim>\<open>src/mouse_control_server.py\<close>):
  the variables \<^verbatim>\<open>lastX\<close>, \<^verbatim>\<open>lastY\<close> (initially \<^verbatim>\<open>null\<close>), the
  \<^verbatim>\<open>touchstart\<close>, \<^verbatim>\<open>touchmove\<close> and \<^verbatim>\<open>touchend\<close> listeners and the
  buttons' \<^verbatim>\<open>sendClick\<close>. An event carries the coordinates of
  \<^verbatim>\<open>event.touches[0]\<close>; a step returns the new state and the requests the
  listener posts. The requests are posted with \<^verbatim>\<open>fetch\<close> and not awaited;
  that they reach the server in the order they were posted is an assumption of
  the sequential properties, and the reason for the concurrent model.
\<close>

record touch_state =
  lastX :: "real option"
  lastY :: "real option"

datatype page_event =
    TouchStart real real
  | TouchMove real real
  | TouchEnd
  | Button_tap button

definition page_init :: touch_state where
  "page_init = \<lparr>lastX = None, lastY = None\<rparr>"

fun page_step :: "touch_state \<Rightarrow> page_event \<Rightarrow> touch_state \<times> request list" where
  "page_step st (TouchStart x y) = (st\<lparr>lastX := Some x, lastY := Some y\<rparr>, [])"
| "page_step st (TouchMove x y) =
     (case (lastX st, lastY st) of
        (Some lx, Some ly) \<Rightarrow>
          (st\<lparr>lastX := Some x, lastY := Some y\<rparr>, [move_request ((x - lx) * 2, (y - ly) * 2)])
      | _ \<Rightarrow> (st, []))"
| "page_step st TouchEnd = (st\<lparr>lastX := None, lastY := None\<rparr>, [])"
| "page_step st (Button_tap b) = (st, [click_request b])"

fun page_run :: "touch_state \<Rightarrow> page_event list \<Rightarrow> touch_state \<times> request list" where
  "page_run st [] = (st, [])"
| "page_run st (e # es) =
     (case page_step st e of (st', rs) \<Rightarrow> (case page_run st' es of (st'', rs') \<Rightarrow> (st'', rs @ rs')))"

text \<open>A drag: a touch at \<open>p0\<close> moved through the points \<open>ps\<close>.\<close>

definition drag :: "sample \<Rightarrow> sample list \<Rightarrow> page_event list" where
  "drag p0 ps = TouchStart (fst p0) (snd p0) # map (\<lambda>p. TouchMove (fst p) (snd p)) ps"

text \<open>The samples a drag should produce: twice each step of the finger.\<close>

fun drag_deltas :: "sample \<Rightarrow> sample list \<Rightarrow> sample list" where
  "drag_deltas p0 [] = []"
| "drag_deltas p0 (p # ps) = ((fst p - fst p0) * 2, (snd p - snd p0) * 2) # drag_deltas p ps"

text \<open>
  The server states reached when every request comes from the page: each step
  serves the requests one page event posts, or the environment changes the host.
\<close>

inductive page_served :: "server \<Rightarrow> bool" where
  start: "page_served (init_server h)"
| page: "page_served s \<Longrightarrow> page_served (snd (serve_run (snd (page_step st ev)) s))"
| host_env: "page_served s \<Longrightarrow> page_served (s\<lparr>host_state := (host_state s)\<lparr>cursor := c, fault := f\<rparr>\<rparr>)"

text \<open>
  The end of each \<^verbatim>\<open>fetch\<close> chain (lines 75--77 and 96--98):
  \<^verbatim>\<open>response.json()\<close> parses a JSON answer and \<^verbatim>\<open>console.log\<close> prints its
  status; any other answer (Flask's HTML error pages for 400, 415, 500, or a
  page) makes \<^verbatim>\<open>response.json()\<close> reject, and \<^verbatim>\<open>.catch\<close> calls
  \<^verbatim>\<open>console.error\<close>. Network failures are not modelled.
\<close>

datatype console_call = Console_log status | Console_error

fun fetch_outcome :: "reply \<Rightarrow> console_call" where
  "fetch_outcome (View (Json_resp st)) = Console_log st"
| "fetch_outcome r = Console_error"

lemma page_run_moves:
  "page_run \<lparr>lastX = Some (fst p0), lastY = Some (snd p0)\<rparr> (map (\<lambda>p. TouchMove (fst p) (snd p)) ps)
     = (\<lparr>lastX = Some (fst (last (p0 # ps))), lastY = Some (snd (last (p0 # ps)))\<rparr>,
        map move_request (drag_deltas p0 ps))"
  by (induction ps arbitrary: p0) (simp_all add: case_prod_unfold)

lemma sum_drag_deltas_fst: "sum_list (map fst (drag_deltas p0 ps)) = 2 * (fst (last (p0 # ps)) - fst p0)"
  by (induction ps arbitrary: p0) (simp_all add: algebra_simps)

lemma sum_drag_deltas_snd: "sum_list (map snd (drag_deltas p0 ps)) = 2 * (snd (last (p0 # ps)) - snd p0)"
  by (induction ps arbitrary: p0) (simp_all add: algebra_simps)

lemma page_run_drag: "snd (page_run st (drag p0 ps)) = map move_request (drag_deltas p0 ps)"
proof -
  have "snd (page_run st (drag p0 ps))
      = snd (page_run \<lparr>lastX = Some (fst p0), lastY = Some (snd p0)\<rparr> (map (\<lambda>p. TouchMove (fst p) (snd p)) ps))"
    by (cases st) (simp add: drag_def case_prod_unfold)
  then show ?thesis by (simp add: page_run_moves)
qed

lemma length_drag_deltas [simp]: "length (drag_deltas p0 ps) = length ps"
  by (induction ps arbitrary: p0) simp_all

lemma page_run_new_drag:
  "snd (page_run st [TouchEnd, TouchStart x y, TouchMove (x - u) y]) = [move_request (- (u * 2), 0)]"
  by (simp add: case_prod_unfold)

text \<open>C24. A drag from any page state posts one move request per touchmove, carrying twice the finger's step, so the posted dx add up to twice the finger's horizontal displacement, and likewise dy.\<close>

theorem drag_posts_twice_displacement:
  "snd (page_run st (drag p0 ps)) = map move_request (drag_deltas p0 ps) \<and>
   sum_list (map fst (drag_deltas p0 ps)) = 2 * (fst (last (p0 # ps)) - fst p0) \<and>
   sum_list (map snd (drag_deltas p0 ps)) = 2 * (snd (last (p0 # ps)) - snd p0)"
  by (simp add: page_run_drag sum_drag_deltas_fst sum_drag_deltas_snd)

lemma page_run_idle:
  "\<forall>e \<in> set es. (\<exists>x y. e = TouchMove x y) \<or> e = TouchEnd \<Longrightarrow> lastX st = None \<Longrightarrow>
   snd (page_run st es) = []"
proof (induction es arbitrary: st)
  case (Cons e es)
  then show ?case by (auto simp: case_prod_unfold)
qed simp

text \<open>C25. Without an active touch nothing moves: from page load, and after a touchend in the middle of any drag, touchmove events post no request until the next touchstart (the touchend resets \<^verbatim>\<open>lastX\<close> and \<^verbatim>\<open>lastY\<close>).\<close>

theorem no_move_without_touch:
  assumes "\<forall>e \<in> set es. (\<exists>x y. e = TouchMove x y) \<or> e = TouchEnd"
  shows "snd (page_run page_init es) = [] \<and> snd (page_run st (TouchEnd # es)) = []"
  using page_run_idle [OF assms, of page_init] page_run_idle [OF assms, of "st\<lparr>lastX := None, lastY := None\<rparr>"]
  by (simp add: page_init_def case_prod_unfold)

theorem no_move_without_touch_witness:
  "snd (page_run page_init [TouchMove 1 2, TouchEnd, TouchMove 3 4]) = [] \<and>
   snd (page_run \<lparr>lastX = Some 5, lastY = Some 5\<rparr> [TouchEnd, TouchMove 1 2, TouchEnd, TouchMove 3 4]) = []"
  using no_move_without_touch [of "[TouchMove 1 2, TouchEnd, TouchMove 3 4]" "\<lparr>lastX = Some 5, lastY = Some 5\<rparr>"]
  by auto

section \<open>The page's requests keep the window numeric\<close>

lemma page_step_requests:
  "snd (page_step st ev) = [] \<or> (\<exists>d. snd (page_step st ev) = [move_request d]) \<or>
   (\<exists>b. snd (page_step st ev) = [click_request b])"
  by (cases ev) (auto split: option.splits)

lemma serve_move_request_num:
  assumes "history s = map num_entry (last_n history_maxlen pre)"
  shows "history (snd (serve (move_request d) s)) = map num_entry (last_n history_maxlen (pre @ [d]))"
proof -
  have "length (history s) \<le> history_maxlen" using assms by simp
  moreover have "appends (move_request d) = [num_entry d]"
    by (simp add: appends_def move_request_def move_entry_def sample_body_def get_json_def num_entry_def)
  ultimately show ?thesis
    using assms by (simp add: serve_history last_n_map [symmetric] last_n_last_n_append)
qed

lemma serve_click_request_history: "history (snd (serve (click_request b) s)) = history s"
  by (simp add: serve_state click_request_def click_history)

lemma page_served_num: "page_served s \<Longrightarrow> \<exists>pre. history s = map num_entry (last_n history_maxlen pre)"
proof (induction rule: page_served.induct)
  case (start h)
  have "history (init_server h) = map num_entry (last_n history_maxlen [])" by (simp add: init_server_def)
  then show ?case by blast
next
  case (page s st ev)
  then obtain pre where h: "history s = map num_entry (last_n history_maxlen pre)" by blast
  from page_step_requests [of st ev] show ?case
  proof (elim disjE exE)
    fix d assume "snd (page_step st ev) = [move_request d]"
    then show ?thesis using serve_move_request_num [OF h, of d] by (auto simp: case_prod_unfold)
  next
    fix b assume "snd (page_step st ev) = [click_request b]"
    then show ?thesis using h serve_click_request_history [of b s] by (auto simp: case_prod_unfold)
  qed (use h in auto)
qed auto

lemma page_requests_json:
  "list_all (\<lambda>r. fetch_outcome (fst (serve r s)) \<noteq> Console_error) (snd (page_step st ev))"
proof -
  have m: "fetch_outcome (fst (serve (move_request d) s)) \<noteq> Console_error" for d
    by (simp add: serve_def move_request_def move_def sample_body_def get_json_def split: sum.splits prod.splits)
  have c: "fetch_outcome (fst (serve (click_request b) s)) \<noteq> Console_error" for b
    by (simp add: serve_def click_request_def click_def click_body_def get_json_def split: sum.splits prod.splits)
  show ?thesis using page_step_requests [of st ev] m c by auto
qed

lemma entry_num_num_entry [simp]: "entry_num (num_entry d)"
  by (simp add: entry_num_def num_entry_def)

text \<open>C37. Type invariant of the served window: as long as every request comes from the page, whatever its events and whatever the host does, the window holds only pairs of JSON numbers, so every move with a working host succeeds: the poisoning of C11 needs a request the page never sends. And every request the page posts is answered with JSON that its \<^verbatim>\<open>fetch\<close> chain logs; the \<^verbatim>\<open>.catch\<close> branch is never taken for an answer of the server.\<close>

theorem page_served_window_numeric:
  "page_served s \<Longrightarrow>
   list_all entry_num (history s) \<and>
   (fault (host_state s) = None \<longrightarrow> fst (serve (move_request d) s) = View (Json_resp Success)) \<and>
   list_all (\<lambda>r. fetch_outcome (fst (serve r s)) \<noteq> Console_error) (snd (page_step st ev))"
proof -
  assume "page_served s"
  then obtain pre where h: "history s = map num_entry (last_n history_maxlen pre)"
    using page_served_num by blast
  have "fault (host_state s) = None \<Longrightarrow> fst (serve (move_request d) s) = View (Json_resp Success)"
    using move_numeric_outcome [OF h, of d] by (simp add: serve_def move_request_def case_prod_unfold)
  then show ?thesis using h page_requests_json [of s st ev] by (simp add: list_all_iff)
qed

theorem page_served_window_numeric_witness:
  "page_served (snd (serve_run (snd (page_step \<lparr>lastX = Some 0, lastY = Some 0\<rparr> (TouchMove 2 1)))
     (init_server idle_host))) \<and>
   list_all entry_num (history (snd (serve_run (snd (page_step \<lparr>lastX = Some 0, lastY = Some 0\<rparr> (TouchMove 2 1)))
     (init_server idle_host)))) \<and>
   fst (serve (move_request (1, 1)) (snd (serve_run (snd (page_step \<lparr>lastX = Some 0, lastY = Some 0\<rparr> (TouchMove 2 1)))
     (init_server idle_host)))) = View (Json_resp Success)"
proof -
  have p: "page_served (snd (serve_run (snd (page_step \<lparr>lastX = Some 0, lastY = Some 0\<rparr> (TouchMove 2 1)))
     (init_server idle_host)))"
    by (rule page_served.page [OF page_served.start])
  have f: "fault (host_state (snd (serve_run (snd (page_step \<lparr>lastX = Some 0, lastY = Some 0\<rparr> (TouchMove 2 1)))
     (init_server idle_host)))) = None"
  proof -
    have e: "snd (page_step \<lparr>lastX = Some 0, lastY = Some 0\<rparr> (TouchMove 2 1)) = map move_request [(4, 2)]"
      by simp
    show ?thesis
      using serve_run_moves_numeric [of "init_server idle_host" "[]" "[(4, 2)]"] unfolding e
      by (simp add: init_server_def)
  qed
  show ?thesis using p f page_served_window_numeric [OF p, of "(1, 1)" page_init "Button_tap Left"] by simp
qed

end
