(* ===== verification/Concurrency.thy ===== *)
theory Concurrency
  imports Client "HOL-Library.Multiset"
begin

text \<open>
  The threaded server: Flask's development server runs each request in its own
  thread, and \<^verbatim>\<open>move\<close> takes no lock around lines 117--128. A request
  first goes through the part of its thread that reads only the request
  (\<open>route_arrival\<close>: routing, body decoding, field tests, subscriptions);
  that part is one step, since it touches no shared state. A request that fails
  there is answered at once; a \<^verbatim>\<open>move\<close> request that passes is a thread
  holding the entry it read, whose steps are the operations CPython performs
  atomically on the shared deque:
  \<^item> \<^verbatim>\<open>movement_history.append\<close> (one C call, atomic under the GIL); it
    increments the deque's mutation counter (\<^verbatim>\<open>deque->state\<close>);
  \<^item> \<^verbatim>\<open>sum(m[0] for m in movement_history)\<close>: the iterator is created with the
    counter of that moment and every \<^verbatim>\<open>next\<close>, the last one included, raises
    \<^verbatim>\<open>RuntimeError\<close> if the counter has changed; other threads may run between
    the creation and the last \<^verbatim>\<open>next\<close>, so the sum is two steps;
  \<^item> \<^verbatim>\<open>len(movement_history)\<close>, a separate read after the sum;
  \<^item> the same for \<open>dy\<close>, then \<^verbatim>\<open>pyautogui.position()\<close> and \<^verbatim>\<open>moveTo\<close>.
  The field \<open>log\<close> is a ghost: the entries in the order they were appended.
  A \<^verbatim>\<open>click\<close> request that passed its \<^verbatim>\<open>'button' in data\<close> test is a
  thread of one step, its \<^verbatim>\<open>try\<close> block (\<open>click_try\<close>): it makes at most one
  host call and never touches the window. The field \<open>clicks\<close> holds these
  threads with their result once they have run.
\<close>

datatype tpc =
    T_start
  | T_sum_x_begin
  | T_sum_x_end nat
  | T_len_x real
  | T_sum_y_begin real
  | T_sum_y_end real nat
  | T_len_y real real
  | T_position real real
  | T_move_to real real
  | T_done "pyexc + unit"

record cstate =
  dq :: "entry list"
  dq_mut :: nat
  chost :: host
  threads :: "(entry \<times> tpc) list"
  log :: "entry list"
  clicks :: "(jval \<times> (pyexc + unit) option) list"

definition cinit :: "host \<Rightarrow> cstate" where
  "cinit h = \<lparr>dq = [], dq_mut = 0, chost = h, threads = [], log = [], clicks = []\<rparr>"

text \<open>The last \<^verbatim>\<open>next\<close> of a deque iterator created when the counter was \<open>c\<close>.\<close>

definition iter_sum_end :: "nat \<Rightarrow> (entry \<Rightarrow> jval) \<Rightarrow> cstate \<Rightarrow> pyexc + real" where
  "iter_sum_end c sel s = (if dq_mut s \<noteq> c then Inl RuntimeError else py_sum (map sel (dq s)))"

fun thread_step :: "entry \<Rightarrow> tpc \<Rightarrow> cstate \<Rightarrow> tpc \<times> cstate" where
  "thread_step e T_start s =
     (T_sum_x_begin, s\<lparr>dq := history_append (dq s) e, dq_mut := Suc (dq_mut s), log := log s @ [e]\<rparr>)"
| "thread_step e T_sum_x_begin s = (T_sum_x_end (dq_mut s), s)"
| "thread_step e (T_sum_x_end c) s =
     ((case iter_sum_end c fst s of Inl ex \<Rightarrow> T_done (Inl ex) | Inr sx \<Rightarrow> T_len_x sx), s)"
| "thread_step e (T_len_x sx) s =
     ((case py_truediv sx (length (dq s)) of Inl ex \<Rightarrow> T_done (Inl ex) | Inr ax \<Rightarrow> T_sum_y_begin ax), s)"
| "thread_step e (T_sum_y_begin ax) s = (T_sum_y_end ax (dq_mut s), s)"
| "thread_step e (T_sum_y_end ax c) s =
     ((case iter_sum_end c snd s of Inl ex \<Rightarrow> T_done (Inl ex) | Inr sy \<Rightarrow> T_len_y ax sy), s)"
| "thread_step e (T_len_y ax sy) s =
     ((case py_truediv sy (length (dq s)) of Inl ex \<Rightarrow> T_done (Inl ex) | Inr ay \<Rightarrow> T_position ax ay), s)"
| "thread_step e (T_position ax ay) s =
     (case host_position (chost s) of
        (Inl ex, h) \<Rightarrow> (T_done (Inl ex), s\<lparr>chost := h\<rparr>)
      | (Inr (x, y), h) \<Rightarrow> (T_move_to (x + ax) (y + ay), s\<lparr>chost := h\<rparr>))"
| "thread_step e (T_move_to tx ty) s =
     (case host_moveTo tx ty move_duration (chost s) of (r, h) \<Rightarrow> (T_done r, s\<lparr>chost := h\<rparr>))"
| "thread_step e (T_done r) s = (T_done r, s)"

text \<open>The sequential view of the shared state: the window and the host.\<close>

definition cserver :: "cstate \<Rightarrow> server" where
  "cserver s = \<lparr>history = dq s, host_state = chost s\<rparr>"

definition entry_obj :: "entry \<Rightarrow> jval" where
  "entry_obj e = JObj [(''dx'', fst e), (''dy'', snd e)]"

text \<open>
  A step of the system: a request arrives, one thread makes one step (the
  scheduler's choice), a click thread runs, or the environment changes the host.
\<close>

inductive cstep :: "cstate \<Rightarrow> cstate \<Rightarrow> bool" where
  spawn: "cstep s (s\<lparr>threads := threads s @ [(e, T_start)]\<rparr>)"
| run: "i < length (threads s) \<Longrightarrow> threads s ! i = (e, p) \<Longrightarrow> thread_step e p s = (p', s') \<Longrightarrow>
        cstep s (s'\<lparr>threads := (threads s)[i := (e, p')]\<rparr>)"
| env: "cstep s (s\<lparr>chost := (chost s)\<lparr>cursor := c, fault := f\<rparr>\<rparr>)"
| click_arrive: "cstep s (s\<lparr>clicks := clicks s @ [(v, None)]\<rparr>)"
| click_run: "i < length (clicks s) \<Longrightarrow> clicks s ! i = (v, None) \<Longrightarrow> click_try v (cserver s) = (r, srv) \<Longrightarrow>
        cstep s (s\<lparr>chost := host_state srv, clicks := (clicks s)[i := (v, Some r)]\<rparr>)"

inductive creach :: "cstate \<Rightarrow> bool" where
  init: "creach (cinit h)"
| step: "creach s \<Longrightarrow> cstep s t \<Longrightarrow> creach t"

inductive_cases cstepE: "cstep s t"

text \<open>
  What a request's thread does before it touches shared state: the routing of
  \<open>serve\<close>, then in \<^verbatim>\<open>move\<close> the body decoding, the field tests and the two
  subscriptions (lines 113--117, up to the append), in \<^verbatim>\<open>click\<close> the body
  decoding and the field test (lines 138--139). The request is answered at
  once (\<open>Answered\<close>), or becomes a move thread with its entry, or a click
  thread with its data.
\<close>

datatype arrival = To_move entry | To_click jval | Answered reply

definition move_arrival :: "req_body \<Rightarrow> arrival" where
  "move_arrival body =
     (case get_json body of
        Inl code \<Rightarrow> Answered (View (Http_error code))
      | Inr data \<Rightarrow>
        (case py_contains data ''dx'' of
           Inl ex \<Rightarrow> Answered (View (Http_error 500))
         | Inr has_dx \<Rightarrow>
           (if \<not> has_dx then Answered (View (Json_resp (Error Invalid_data)))
            else
              (case py_contains data ''dy'' of
                 Inl ex \<Rightarrow> Answered (View (Http_error 500))
               | Inr has_dy \<Rightarrow>
                 (if \<not> has_dy then Answered (View (Json_resp (Error Invalid_data)))
                  else
                    (case py_getitem data ''dx'' of
                       Inl ex \<Rightarrow> Answered (View (Json_resp (Error (Exc_message ex))))
                     | Inr a \<Rightarrow>
                       (case py_getitem data ''dy'' of
                          Inl ex \<Rightarrow> Answered (View (Json_resp (Error (Exc_message ex))))
                        | Inr b \<Rightarrow> To_move (a, b))))))))"

definition click_arrival :: "req_body \<Rightarrow> arrival" where
  "click_arrival body =
     (case get_json body of
        Inl code \<Rightarrow> Answered (View (Http_error code))
      | Inr data \<Rightarrow>
        (case py_contains data ''button'' of
           Inl ex \<Rightarrow> Answered (View (Http_error 500))
         | Inr has_b \<Rightarrow> (if \<not> has_b then Answered (View (Json_resp (Error Invalid_data))) else To_click data)))"

definition route_arrival :: "request \<Rightarrow> arrival" where
  "route_arrival r =
     (if req_path r = ''/'' then
        (if req_method r \<in> {GET, HEAD} then Answered Page
         else if req_method r = OPTIONS then Answered Options_reply
         else Answered Method_not_allowed)
      else if req_path r = ''/move'' then
        (if req_method r = POST then move_arrival (req_data r)
         else if req_method r = OPTIONS then Answered Options_reply
         else Answered Method_not_allowed)
      else if req_path r = ''/click'' then
        (if req_method r = POST then click_arrival (req_data r)
         else if req_method r = OPTIONS then Answered Options_reply
         else Answered Method_not_allowed)
      else Answered Not_found)"

text \<open>Explicit schedules, to run given interleavings.\<close>

datatype sched =
    Arrive entry
  | Run nat
  | Host_change "real \<times> real" "string option"
  | Click_arrive jval
  | Click_run nat
  | Request request

fun cexec_step :: "cstate \<Rightarrow> sched \<Rightarrow> cstate" where
  "cexec_step s (Arrive e) = s\<lparr>threads := threads s @ [(e, T_start)]\<rparr>"
| "cexec_step s (Run i) =
     (if i < length (threads s)
      then (case threads s ! i of (e, p) \<Rightarrow>
              (case thread_step e p s of (p', s') \<Rightarrow> s'\<lparr>threads := (threads s)[i := (e, p')]\<rparr>))
      else s)"
| "cexec_step s (Host_change c f) = s\<lparr>chost := (chost s)\<lparr>cursor := c, fault := f\<rparr>\<rparr>"
| "cexec_step s (Click_arrive v) = s\<lparr>clicks := clicks s @ [(v, None)]\<rparr>"
| "cexec_step s (Click_run i) =
     (if i < length (clicks s)
      then (case clicks s ! i of
              (v, None) \<Rightarrow>
                (case click_try v (cserver s) of
                   (r, srv) \<Rightarrow> s\<lparr>chost := host_state srv, clicks := (clicks s)[i := (v, Some r)]\<rparr>)
            | (v, Some r) \<Rightarrow> s)
      else s)"
| "cexec_step s (Request r) =
     (case route_arrival r of
        To_move e \<Rightarrow> s\<lparr>threads := threads s @ [(e, T_start)]\<rparr>
      | To_click v \<Rightarrow> s\<lparr>clicks := clicks s @ [(v, None)]\<rparr>
      | Answered a \<Rightarrow> s)"

definition cexec :: "cstate \<Rightarrow> sched list \<Rightarrow> cstate" where
  "cexec s xs = foldl cexec_step s xs"

text \<open>One thread run alone, with enough fuel for the nine steps of \<^verbatim>\<open>move\<close>.\<close>

fun run_solo :: "nat \<Rightarrow> entry \<Rightarrow> tpc \<Rightarrow> cstate \<Rightarrow> tpc \<times> cstate" where
  "run_solo 0 e p s = (p, s)"
| "run_solo (Suc n) e p s =
     (case p of T_done r \<Rightarrow> (p, s) | _ \<Rightarrow> (case thread_step e p s of (p', s') \<Rightarrow> run_solo n e p' s'))"

text \<open>The response a finished thread sends (lines 129--133 of \<^verbatim>\<open>move\<close>).\<close>

fun thread_reply :: "tpc \<Rightarrow> http_resp option" where
  "thread_reply (T_done (Inl ex)) = Some (Json_resp (Error (Exc_message ex)))"
| "thread_reply (T_done (Inr u)) = Some (Json_resp Success)"
| "thread_reply p = None"

text \<open>The entries of the threads that have made their append.\<close>

definition appended :: "(entry \<times> tpc) list \<Rightarrow> entry list" where
  "appended ts = map fst (filter (\<lambda>t. snd t \<noteq> T_start) ts)"

definition cinv :: "cstate \<Rightarrow> bool" where
  "cinv s \<longleftrightarrow> dq s = last_n history_maxlen (log s) \<and> dq_mut s = length (log s) \<and>
     mset (log s) = mset (appended (threads s)) \<and>
     T_done (Inl ZeroDivisionError) \<notin> snd ` set (threads s)"

text \<open>The number of steps a thread has left; a finished thread has none.\<close>

fun steps_left :: "tpc \<Rightarrow> nat" where
  "steps_left T_start = 9"
| "steps_left T_sum_x_begin = 8"
| "steps_left (T_sum_x_end c) = 7"
| "steps_left (T_len_x sx) = 6"
| "steps_left (T_sum_y_begin ax) = 5"
| "steps_left (T_sum_y_end ax c) = 4"
| "steps_left (T_len_y ax sy) = 3"
| "steps_left (T_position ax ay) = 2"
| "steps_left (T_move_to tx ty) = 1"
| "steps_left (T_done r) = 0"

fun is_done :: "tpc \<Rightarrow> bool" where
  "is_done (T_done r) = True"
| "is_done p = False"

text \<open>
  Interleavings of two requests with entries \<open>a\<close> and \<open>b\<close>, the first
  handled by thread \<open>n\<close>, the second by thread \<open>n + 1\<close>. In \<open>mixed_sched\<close>
  the second request's append falls between the first request's \<^verbatim>\<open>sum\<close>
  and \<^verbatim>\<open>len\<close> of the x coordinate; in \<open>stale_sched\<close> it falls inside the
  first request's iteration of the deque; in \<open>lost_sched\<close> the first request
  has read the pointer position and not yet moved it when the second request
  runs whole.
\<close>

definition mixed_sched :: "nat \<Rightarrow> entry \<Rightarrow> entry \<Rightarrow> sched list" where
  "mixed_sched n a b = [Arrive a, Run n, Run n, Run n, Arrive b, Run (Suc n)] @ replicate 6 (Run n)"

definition stale_sched :: "nat \<Rightarrow> entry \<Rightarrow> entry \<Rightarrow> sched list" where
  "stale_sched n a b = [Arrive a, Run n, Run n, Arrive b, Run (Suc n), Run n]"

definition lost_sched :: "nat \<Rightarrow> entry \<Rightarrow> entry \<Rightarrow> sched list" where
  "lost_sched n a b = [Arrive a] @ replicate 8 (Run n) @ [Arrive b] @ replicate 9 (Run (Suc n)) @ [Run n]"

text \<open>The entry of the sample (10, 10), for concrete runs.\<close>

definition sample10 :: entry where "sample10 = (JNum 10, JNum 10)"

text \<open>
  Bounds on what a thread has computed: an entry is bounded by \<open>M\<close> when both
  its values are numbers of magnitude at most \<open>M\<close>; a thread's partial sums are
  bounded by \<open>M\<close> times the current window length, its averages by \<open>M\<close>.
\<close>

definition entry_bounded :: "real \<Rightarrow> entry \<Rightarrow> bool" where
  "entry_bounded M e \<longleftrightarrow> entry_num e \<and> \<bar>num_val (fst e)\<bar> \<le> M \<and> \<bar>num_val (snd e)\<bar> \<le> M"

fun tpc_bounded :: "real \<Rightarrow> nat \<Rightarrow> tpc \<Rightarrow> bool" where
  "tpc_bounded M n (T_len_x sx) = (\<bar>sx\<bar> \<le> M * real n)"
| "tpc_bounded M n (T_sum_y_begin ax) = (\<bar>ax\<bar> \<le> M)"
| "tpc_bounded M n (T_sum_y_end ax c) = (\<bar>ax\<bar> \<le> M)"
| "tpc_bounded M n (T_len_y ax sy) = (\<bar>ax\<bar> \<le> M \<and> \<bar>sy\<bar> \<le> M * real n)"
| "tpc_bounded M n (T_position ax ay) = (\<bar>ax\<bar> \<le> M \<and> \<bar>ay\<bar> \<le> M)"
| "tpc_bounded M n p = True"

definition binv :: "real \<Rightarrow> cstate \<Rightarrow> bool" where
  "binv M s \<longleftrightarrow>
     (list_all (entry_bounded M) (log s) \<longrightarrow> list_all (\<lambda>t. tpc_bounded M (length (dq s)) (snd t)) (threads s))"

text \<open>
  The exceptions a thread can finish with when every sample is numeric: a race
  on the deque, or a failure of the host.
\<close>

fun race_or_host :: "pyexc \<Rightarrow> bool" where
  "race_or_host RuntimeError = True"
| "race_or_host (HostError m) = True"
| "race_or_host ex = False"

definition finv :: "cstate \<Rightarrow> bool" where
  "finv s \<longleftrightarrow>
     (list_all entry_num (log s) \<longrightarrow> (\<forall>t \<in> set (threads s). \<forall>ex. snd t = T_done (Inl ex) \<longrightarrow> race_or_host ex))"

section \<open>Steps of one thread\<close>

lemma thread_step_threads [simp]: "threads (snd (thread_step e p s)) = threads s"
  by (cases "(e, p, s)" rule: thread_step.cases)
     (simp_all add: model_defs split: sum.splits prod.splits option.splits)

lemma thread_step_not_start: "fst (thread_step e p s) \<noteq> T_start"
  by (cases "(e, p, s)" rule: thread_step.cases)
     (simp_all add: model_defs split: sum.splits prod.splits option.splits)

lemma thread_step_window:
  "p \<noteq> T_start \<Longrightarrow> dq (snd (thread_step e p s)) = dq s \<and> dq_mut (snd (thread_step e p s)) = dq_mut s \<and>
     log (snd (thread_step e p s)) = log s"
  by (cases "(e, p, s)" rule: thread_step.cases)
     (simp_all add: model_defs split: sum.splits prod.splits option.splits)

lemma iter_sum_end_not_zero_div: "iter_sum_end c sel s \<noteq> Inl ZeroDivisionError"
  by (simp add: iter_sum_end_def py_sum_cases)

lemma thread_step_zero_div:
  "dq s \<noteq> [] \<Longrightarrow> p \<noteq> T_done (Inl ZeroDivisionError) \<Longrightarrow>
   fst (thread_step e p s) \<noteq> T_done (Inl ZeroDivisionError)"
  using iter_sum_end_not_zero_div [of _ fst s] iter_sum_end_not_zero_div [of _ snd s]
  by (cases "(e, p, s)" rule: thread_step.cases)
     (auto simp: model_defs Let_def py_truediv_def split: sum.splits prod.splits option.splits)

section \<open>The appended entries\<close>

lemma appended_snoc_start [simp]: "appended (ts @ [(e, T_start)]) = appended ts"
  by (simp add: appended_def)

lemma appended_update_start:
  "i < length ts \<Longrightarrow> ts ! i = (e, T_start) \<Longrightarrow> p' \<noteq> T_start \<Longrightarrow>
   mset (appended (ts[i := (e, p')])) = add_mset e (mset (appended ts))"
proof (induction ts arbitrary: i)
  case (Cons t ts)
  then show ?case by (cases i) (auto simp: appended_def)
qed simp

lemma appended_update_other:
  "ts ! i = (e, p) \<Longrightarrow> p \<noteq> T_start \<Longrightarrow> p' \<noteq> T_start \<Longrightarrow> appended (ts[i := (e, p')]) = appended ts"
proof (induction ts arbitrary: i)
  case (Cons t ts)
  then show ?case by (cases i) (auto simp: appended_def)
qed simp

lemma appended_member:
  "i < length ts \<Longrightarrow> ts ! i = (e, p) \<Longrightarrow> p \<noteq> T_start \<Longrightarrow> e \<in> set (appended ts)"
  by (force simp: appended_def in_set_conv_nth intro: rev_image_eqI)

section \<open>The invariant of the threaded server\<close>

lemma cinv_init: "cinv (cinit h)"
  by (simp add: cinv_def cinit_def appended_def)

lemma cinv_dq_nonempty:
  assumes "cinv s" "i < length (threads s)" "threads s ! i = (e, p)" "p \<noteq> T_start"
  shows "dq s \<noteq> []"
proof -
  have "e \<in># mset (log s)"
    using assms appended_member [of i "threads s" e p] by (simp add: cinv_def)
  then have "log s \<noteq> []" by auto
  then show ?thesis using assms(1) by (simp add: cinv_def last_n_nonempty history_maxlen_def)
qed

lemma cinv_run:
  assumes inv: "cinv s" and i: "i < length (threads s)" and ti: "threads s ! i = (e, p)"
    and st: "thread_step e p s = (p', s')"
  shows "cinv (s'\<lparr>threads := (threads s)[i := (e, p')]\<rparr>)"
proof -
  have p': "p' \<noteq> T_start" using thread_step_not_start [of e p s] st by simp
  have ts: "threads s' = threads s" using thread_step_threads [of e p s] st by simp
  have nz: "p \<noteq> T_done (Inl ZeroDivisionError)"
    using inv i ti by (force simp: cinv_def in_set_conv_nth)
  have z: "T_done (Inl ZeroDivisionError) \<notin> snd ` set ((threads s)[i := (e, p')])"
    if "p' \<noteq> T_done (Inl ZeroDivisionError)"
    using inv that set_update_subset_insert [of "threads s" i "(e, p')"] by (auto simp: cinv_def)
  show ?thesis
  proof (cases "p = T_start")
    case True
    have len: "length (dq s) \<le> history_maxlen" using inv by (simp add: cinv_def)
    show ?thesis
      using True st inv i ti z appended_update_start [OF i, of e p'] p'
      by (auto simp: cinv_def history_append_last_n [OF len] last_n_last_n_append)
  next
    case False
    have "dq s \<noteq> []" using cinv_dq_nonempty [OF inv i ti False] .
    then have "p' \<noteq> T_done (Inl ZeroDivisionError)"
      using thread_step_zero_div [OF _ nz, of s e] st by simp
    then show ?thesis
      using False st inv z thread_step_window [OF False, of e s] appended_update_other [OF ti False p'] ts
      by (simp add: cinv_def)
  qed
qed

lemma cinv_step:
  assumes "cinv s" "cstep s t"
  shows "cinv t"
  using assms(2)
proof (cases rule: cstep.cases)
  case (run i e p p' s')
  then show ?thesis using cinv_run [OF assms(1)] by simp
qed (insert assms(1), auto simp: cinv_def)

lemma creach_cinv: "creach s \<Longrightarrow> cinv s"
  by (induction rule: creach.induct) (auto intro: cinv_init cinv_step)

lemma cexec_step_cstep: "cexec_step s x = s \<or> cstep s (cexec_step s x)"
proof (cases x)
  case (Run i)
  then show ?thesis
    by (auto split: prod.splits intro: cstep.run)
next
  case (Click_run i)
  then show ?thesis
    by (auto split: prod.splits option.splits intro: cstep.click_run)
next
  case (Request r)
  then show ?thesis
    by (auto split: arrival.splits intro: cstep.spawn cstep.click_arrive)
qed (auto intro: cstep.spawn cstep.env cstep.click_arrive)

lemma creach_cexec: "creach s \<Longrightarrow> creach (cexec s xs)"
proof (induction xs arbitrary: s)
  case (Cons x xs)
  have "creach (cexec_step s x)"
    using cexec_step_cstep [of s x] Cons.prems by (auto intro: creach.step)
  then show ?case using Cons.IH by (simp add: cexec_def)
qed (simp add: cexec_def)

lemma creach_cexec_init: "creach (cexec (cinit h) xs)"
  by (rule creach_cexec [OF creach.init])

lemmas run_defs = cexec_def cinit_def sample10_def model_defs deque_append_def py_sum_def
  iter_sum_end_def py_truediv_def Let_def

lemma mixed_sched_run:
  "cexec (cinit idle_host) (mixed_sched 0 sample10 sample10) =
     \<lparr>dq = [sample10, sample10], dq_mut = 2,
      chost = \<lparr>cursor = (5, 10), calls = [HPosition, HMoveTo 5 10 move_duration], fault = None\<rparr>,
      threads = [(sample10, T_done (Inr ())), (sample10, T_sum_x_begin)],
      log = [sample10, sample10], clicks = []\<rparr>"
  by (simp add: mixed_sched_def numeral_eq_Suc run_defs)

lemma mixed_sched_prefix_run:
  "cexec (cinit idle_host) (take 10 (mixed_sched 0 sample10 sample10)) =
     \<lparr>dq = [sample10, sample10], dq_mut = 2, chost = idle_host,
      threads = [(sample10, T_position 5 10), (sample10, T_sum_x_begin)],
      log = [sample10, sample10], clicks = []\<rparr>"
  by (simp add: mixed_sched_def numeral_eq_Suc run_defs)

lemma stale_sched_run:
  "cexec (cinit idle_host) (stale_sched 0 sample10 sample10) =
     \<lparr>dq = [sample10, sample10], dq_mut = 2, chost = idle_host,
      threads = [(sample10, T_done (Inl RuntimeError)), (sample10, T_sum_x_begin)],
      log = [sample10, sample10], clicks = []\<rparr>"
  by (simp add: stale_sched_def run_defs)

section \<open>Bounded averages under interleaving\<close>

lemma py_sum_bounded:
  assumes "\<forall>e \<in> set w. py_is_num (sel e) \<and> \<bar>num_val (sel e)\<bar> \<le> M" and "py_sum (map sel w) = Inr x"
  shows "\<bar>x\<bar> \<le> M * real (length w)"
proof -
  have "x = sum_list (map (num_val \<circ> sel) w)"
    using assms by (auto simp: py_sum_cases list_all_iff split: if_splits)
  moreover have "\<bar>sum_list (map (num_val \<circ> sel) w)\<bar> \<le> real (length w) * M"
    using sum_list_abs_le [of "map (num_val \<circ> sel) w" M] assms(1) by auto
  ultimately show ?thesis by (simp add: mult.commute)
qed

lemma quotient_bounded: "\<bar>x\<bar> \<le> M * real n \<Longrightarrow> n \<noteq> 0 \<Longrightarrow> \<bar>x\<bar> / real n \<le> M"
  by (simp add: divide_le_eq)

lemma tpc_bounded_mono:
  assumes "tpc_bounded M n p" and "n \<le> n'" and "0 \<le> M"
  shows "tpc_bounded M n' p"
proof -
  have m: "M * real n \<le> M * real n'" using assms(2,3) by (simp add: mult_left_mono)
  show ?thesis using assms(1) m by (cases p) auto
qed

lemma thread_step_bounded:
  assumes w: "list_all (entry_bounded M) (dq s)" and p: "tpc_bounded M (length (dq s)) p"
  shows "tpc_bounded M (length (dq s)) (fst (thread_step e p s))"
proof -
  have fx: "\<forall>e \<in> set (dq s). py_is_num (fst e) \<and> \<bar>num_val (fst e)\<bar> \<le> M"
    and sx: "\<forall>e \<in> set (dq s). py_is_num (snd e) \<and> \<bar>num_val (snd e)\<bar> \<le> M"
    using w by (auto simp: list_all_iff entry_bounded_def entry_num_def)
  show ?thesis
    using p py_sum_bounded [OF fx] py_sum_bounded [OF sx] quotient_bounded [of _ M "length (dq s)"]
    by (cases "(e, p, s)" rule: thread_step.cases)
       (auto simp: model_defs Let_def iter_sum_end_def split: sum.splits prod.splits option.splits if_splits)
qed

lemma entry_bounded_nonneg: "entry_bounded M e \<Longrightarrow> 0 \<le> M"
  by (auto simp: entry_bounded_def)

lemma list_all_update:
  "list_all Q ts \<Longrightarrow> Q x \<Longrightarrow> list_all Q (ts[i := x])"
  using set_update_subset_insert [of ts i x] by (auto simp: list_all_iff)

lemma binv_run:
  assumes inv: "cinv s" and b: "binv M s" and i: "i < length (threads s)" and ti: "threads s ! i = (e, p)"
    and st: "thread_step e p s = (p', s')"
  shows "binv M (s'\<lparr>threads := (threads s)[i := (e, p')]\<rparr>)"
  unfolding binv_def
proof (simp, intro impI)
  assume L': "list_all (entry_bounded M) (log s')"
  have ts: "threads s' = threads s" using thread_step_threads [of e p s] st by simp
  have grow: "log s' = log s \<or> log s' = log s @ [e]" and nonempty: "log s' \<noteq> []"
    and len: "length (dq s) \<le> length (dq s')"
  proof -
    have "log s' = log s \<or> log s' = log s @ [e]"
      using st thread_step_window [of p e s] by (cases "p = T_start") auto
    moreover have "log s \<noteq> []" if "p \<noteq> T_start"
      using cinv_dq_nonempty [OF inv i ti that] inv by (auto simp: cinv_def)
    moreover have "dq s' = dq s \<or> dq s' = history_append (dq s) e"
      using st thread_step_window [of p e s] by (cases "p = T_start") auto
    moreover have "length (dq s) \<le> length (history_append (dq s) e)"
      using inv by (simp add: cinv_def history_append_last_n history_maxlen_def)
    ultimately show "log s' = log s \<or> log s' = log s @ [e]" "log s' \<noteq> []" "length (dq s) \<le> length (dq s')"
      using st by (cases "p = T_start"; auto)+
  qed
  have L: "list_all (entry_bounded M) (log s)" using grow L' by auto
  have M: "0 \<le> M" using L' nonempty by (cases "log s'") (auto intro: entry_bounded_nonneg)
  have old: "list_all (\<lambda>t. tpc_bounded M (length (dq s)) (snd t)) (threads s)"
    using b L by (simp add: binv_def)
  have keep: "list_all (\<lambda>t. tpc_bounded M (length (dq s')) (snd t)) (threads s)"
    using old len M by (auto simp: list_all_iff intro: tpc_bounded_mono)
  have new: "tpc_bounded M (length (dq s')) p'"
  proof (cases "p = T_start")
    case True
    then show ?thesis using st by auto
  next
    case False
    have w: "list_all (entry_bounded M) (dq s)"
      using L inv set_drop_subset [of _ "log s"] by (auto simp: cinv_def last_n_def list_all_iff)
    have "(e, p) \<in> set (threads s)" using i ti by (metis nth_mem)
    then have "tpc_bounded M (length (dq s)) p" using old by (auto simp: list_all_iff)
    then show ?thesis
      using thread_step_bounded [OF w, of p e] st thread_step_window [OF False, of e s] by simp
  qed
  show "list_all (\<lambda>t. tpc_bounded M (length (dq s')) (snd t)) ((threads s)[i := (e, p')])"
    using keep new by (intro list_all_update) simp_all
qed

lemma binv_step:
  assumes "cinv s" "binv M s" "cstep s t"
  shows "binv M t"
  using assms(3)
proof (cases rule: cstep.cases)
  case (run i e p p' s')
  then show ?thesis using binv_run [OF assms(1,2)] by simp
qed (insert assms(2), auto simp: binv_def)

lemma creach_binv: "creach s \<Longrightarrow> binv M s"
proof (induction rule: creach.induct)
  case (init h)
  then show ?case by (simp add: binv_def cinit_def)
next
  case (step s t)
  then show ?case using binv_step creach_cinv by blast
qed

section \<open>Failures under interleaving\<close>

lemma list_all_last_n: "list_all P xs \<Longrightarrow> list_all P (last_n n xs)"
  by (simp add: last_n_def list_all_iff) (meson in_set_dropD)

lemma cinv_window_num: "cinv s \<Longrightarrow> list_all entry_num (log s) \<Longrightarrow> list_all entry_num (dq s)"
  by (simp add: cinv_def list_all_last_n)

lemma iter_sum_end_num:
  assumes "list_all entry_num (dq s)"
  shows "iter_sum_end c fst s =
           (if dq_mut s = c then Inr (sum_list (map (num_val \<circ> fst) (dq s))) else Inl RuntimeError)"
    and "iter_sum_end c snd s =
           (if dq_mut s = c then Inr (sum_list (map (num_val \<circ> snd) (dq s))) else Inl RuntimeError)"
  using assms by (auto simp: iter_sum_end_def py_sum_cases list_all_iff entry_num_def)

lemma thread_step_fails:
  assumes "list_all entry_num (dq s)" and "dq s \<noteq> []" and "fst (thread_step e p s) = T_done (Inl ex)"
  shows "p = T_done (Inl ex) \<or> race_or_host ex"
  using assms(3) iter_sum_end_num [OF assms(1)] assms(2)
  by (cases "(e, p, s)" rule: thread_step.cases)
     (auto simp: model_defs Let_def py_truediv_def split: sum.splits prod.splits option.splits if_splits)

lemma finv_run:
  assumes inv: "cinv s" and f: "finv s" and i: "i < length (threads s)" and ti: "threads s ! i = (e, p)"
    and st: "thread_step e p s = (p', s')"
  shows "finv (s'\<lparr>threads := (threads s)[i := (e, p')]\<rparr>)"
  unfolding finv_def
proof (simp, intro impI ballI allI)
  assume L': "list_all entry_num (log s')"
  have "log s' = log s \<or> log s' = log s @ [e]"
    using st thread_step_window [of p e s] by (cases "p = T_start") auto
  then have L: "list_all entry_num (log s)" using L' by auto
  have old: "\<forall>t \<in> set (threads s). \<forall>ex. snd t = T_done (Inl ex) \<longrightarrow> race_or_host ex"
    using f L by (simp add: finv_def)
  have new: "race_or_host ex" if "p' = T_done (Inl ex)" for ex
  proof (cases "p = T_start")
    case True
    then show ?thesis using st that by auto
  next
    case False
    have "p = T_done (Inl ex) \<or> race_or_host ex"
      using thread_step_fails [OF cinv_window_num [OF inv L] cinv_dq_nonempty [OF inv i ti False], of e p ex] st that
      by simp
    moreover have "(e, p) \<in> set (threads s)" using i ti by (metis nth_mem)
    ultimately show ?thesis using old by auto
  qed
  fix t ex
  assume "t \<in> set ((threads s)[i := (e, p')])" and "snd t = T_done (Inl ex)"
  then show "race_or_host ex"
    using old new set_update_subset_insert [of "threads s" i "(e, p')"] by auto
qed

lemma creach_finv: "creach s \<Longrightarrow> finv s"
proof (induction rule: creach.induct)
  case (init h)
  then show ?case by (simp add: finv_def cinit_def)
next
  case (step s t)
  have c: "cinv s" using step.hyps(1) by (rule creach_cinv)
  from step.hyps(2) show ?case
  proof (cases rule: cstep.cases)
    case (run i e p p' s')
    then show ?thesis using finv_run [OF c step.IH] by simp
  qed (insert step.IH, auto simp: finv_def)
qed

section \<open>Runs of one thread inside a schedule\<close>

lemma thread_step_threads_upd:
  "thread_step e p (s\<lparr>threads := ts\<rparr>) = (fst (thread_step e p s), (snd (thread_step e p s))\<lparr>threads := ts\<rparr>)"
  by (cases "(e, p, s)" rule: thread_step.cases)
     (simp_all add: model_defs iter_sum_end_def Let_def split: sum.splits prod.splits option.splits)

lemma run_solo_threads_upd:
  "run_solo k e p (s\<lparr>threads := ts\<rparr>) = (fst (run_solo k e p s), (snd (run_solo k e p s))\<lparr>threads := ts\<rparr>)"
proof (induction k arbitrary: p s)
  case (Suc k)
  then show ?case
    by (cases p) (simp_all add: thread_step_threads_upd case_prod_unfold)
qed simp

lemma run_solo_done: "run_solo k e (T_done r) s = (T_done r, s)"
  by (cases k) simp_all

lemma run_solo_Suc_running:
  "\<forall>r. p \<noteq> T_done r \<Longrightarrow> run_solo (Suc k) e p s = (case thread_step e p s of (p', s') \<Rightarrow> run_solo k e p' s')"
  by (cases p) simp_all

lemma cexec_run_replicate:
  "i < length (threads s) \<Longrightarrow> threads s ! i = (e, p) \<Longrightarrow>
   cexec s (replicate k (Run i)) =
     (snd (run_solo k e p s))\<lparr>threads := (threads s)[i := (e, fst (run_solo k e p s))]\<rparr>"
proof (induction k arbitrary: p s)
  case 0
  then have "(threads s)[i := (e, p)] = threads s" using list_update_id [of "threads s" i] by simp
  then show ?case by (simp add: cexec_def)
next
  case (Suc k)
  obtain p1 s1 where st: "thread_step e p s = (p1, s1)" by fastforce
  have ts1: "threads s1 = threads s" using thread_step_threads [of e p s] st by simp
  have IH: "cexec (s1\<lparr>threads := (threads s)[i := (e, p1)]\<rparr>) (replicate k (Run i)) =
      (snd (run_solo k e p1 s1))\<lparr>threads := (threads s)[i := (e, fst (run_solo k e p1 s1))]\<rparr>"
    using Suc.IH [of "s1\<lparr>threads := (threads s)[i := (e, p1)]\<rparr>" p1] Suc.prems
    by (simp add: run_solo_threads_upd)
  have step: "cexec s (replicate (Suc k) (Run i)) = cexec (s1\<lparr>threads := (threads s)[i := (e, p1)]\<rparr>) (replicate k (Run i))"
    using Suc.prems st by (simp add: cexec_def)
  show ?case
  proof (cases "\<exists>r. p = T_done r")
    case True
    then obtain r where p: "p = T_done r" by blast
    then have "p1 = p" "s1 = s" using st by simp_all
    then show ?thesis using step IH p by (simp add: run_solo_done)
  next
    case False
    then have "run_solo (Suc k) e p s = run_solo k e p1 s1"
      using st run_solo_Suc_running [of p k e s] by simp
    then show ?thesis using step IH by simp
  qed
qed

lemma run_solo_move_try:
  "fst (run_solo 9 e T_start s) = T_done (fst (move_try (entry_obj e) (cserver s))) \<and>
   cserver (snd (run_solo 9 e T_start s)) = snd (move_try (entry_obj e) (cserver s))"
  by (cases e) (simp add: numeral_eq_Suc entry_obj_def cserver_def model_defs iter_sum_end_def
      avg_component_def window_average_def record_and_average_def Let_def move_try_def
      split: sum.splits option.splits prod.splits)

lemma cserver_threads_upd [simp]: "cserver (s\<lparr>threads := ts\<rparr>) = cserver s"
  by (simp add: cserver_def)

lemma cexec_append: "cexec s (xs @ ys) = cexec (cexec s xs) ys"
  by (simp add: cexec_def)

lemma run_solo_append_sum:
  assumes "list_all entry_num (history_append (dq s) e)"
  shows "run_solo 3 e T_start s =
    (T_len_x (sum_list (map (num_val \<circ> fst) (history_append (dq s) e))),
     s\<lparr>dq := history_append (dq s) e, dq_mut := Suc (dq_mut s), log := log s @ [e]\<rparr>)"
  using assms by (simp add: numeral_eq_Suc iter_sum_end_def py_sum_cases list_all_iff entry_num_def)

lemma run_solo_len_to_target:
  assumes "list_all entry_num (dq s)" and "dq s \<noteq> []" and "fault (chost s) = None"
  shows "run_solo 5 e (T_len_x sx) s =
    (T_move_to (fst (cursor (chost s)) + sx / real (length (dq s)))
               (snd (cursor (chost s)) + sum_list (map (num_val \<circ> snd) (dq s)) / real (length (dq s))),
     s\<lparr>chost := host_call HPosition (chost s)\<rparr>)"
  using assms
  by (simp add: numeral_eq_Suc iter_sum_end_def py_sum_cases list_all_iff entry_num_def py_truediv_def
      host_position_def Let_def case_prod_unfold)

lemma run_solo_add:
  "run_solo (k + m) e p s = (case run_solo k e p s of (p', s') \<Rightarrow> run_solo m e p' s')"
proof (induction k arbitrary: p s)
  case 0
  then show ?case by simp
next
  case (Suc k)
  then show ?case by (cases p) (simp_all add: run_solo_done case_prod_unfold)
qed

lemma creach_window_num:
  assumes "creach s" and "dq s = map num_entry w"
  shows "length w \<le> history_maxlen"
proof -
  have "length (dq s) \<le> history_maxlen" using creach_cinv [OF assms(1)] by (simp add: cinv_def)
  then show ?thesis using assms(2) by simp
qed

lemma move_try_num:
  assumes "history srv = map num_entry (last_n history_maxlen pre)" and "fault (host_state srv) = None"
  shows "fst (move_try (entry_obj (num_entry d)) srv) = Inr () \<and>
         fault (host_state (snd (move_try (entry_obj (num_entry d)) srv))) = None"
  using assms
  by (simp add: move_try_def entry_obj_def num_entry_def record_and_average_num host_position_def host_moveTo_def
      host_call_def Let_def case_prod_unfold)

lemma serve_move_request:
  "snd (serve (move_request d) srv) = snd (move (sample_body d) srv)"
  by (simp add: serve_def move_request_def case_prod_unfold)

section \<open>Progress of one thread in any schedule\<close>

lemma thread_step_steps_left:
  "\<not> is_done p \<Longrightarrow> steps_left (fst (thread_step e p s)) < steps_left p"
  by (cases "(e, p, s)" rule: thread_step.cases)
     (auto simp: model_defs Let_def split: sum.splits prod.splits option.splits)

lemma steps_left_done: "steps_left p = 0 \<longleftrightarrow> is_done p"
  by (cases p) simp_all

lemma steps_left_le: "steps_left p \<le> 9"
  by (cases p) simp_all

lemma cexec_step_thread:
  assumes "i < length (threads s)" and "threads s ! i = (e, p)"
  shows "i < length (threads (cexec_step s x)) \<and>
    threads (cexec_step s x) ! i = (if x = Run i then (e, fst (thread_step e p s)) else (e, p))"
proof (cases x)
  case (Run j)
  then show ?thesis
    using assms thread_step_threads [of _ _ s] by (auto simp: case_prod_unfold nth_list_update)
next
  case (Request r)
  then show ?thesis using assms by (auto simp: nth_append split: arrival.splits)
qed (use assms in \<open>auto simp: nth_append case_prod_unfold split: option.splits\<close>)

lemma cexec_thread_progress:
  "i < length (threads s) \<Longrightarrow>
   is_done (snd (threads (cexec s xs) ! i)) \<or>
   steps_left (snd (threads (cexec s xs) ! i)) + count_list xs (Run i) \<le> steps_left (snd (threads s ! i))"
proof (induction xs arbitrary: s)
  case Nil
  then show ?case by (simp add: cexec_def)
next
  case (Cons x xs)
  obtain e p where ti: "threads s ! i = (e, p)" by fastforce
  obtain s1 where s1: "s1 = cexec_step s x" by simp
  have c: "cexec s (x # xs) = cexec s1 xs" using s1 by (simp add: cexec_def)
  have t1: "i < length (threads s1)"
    "threads s1 ! i = (if x = Run i then (e, fst (thread_step e p s)) else (e, p))"
    using cexec_step_thread [OF Cons.prems ti, of x] s1 by simp_all
  note IH = Cons.IH [OF t1(1)]
  show ?case
  proof (cases "x = Run i")
    case True
    show ?thesis
    proof (cases "is_done p")
      case d: True
      then have z: "steps_left (fst (thread_step e p s)) = 0"
        using steps_left_done by (cases p) simp_all
      from IH show ?thesis
      proof
        assume "steps_left (snd (threads (cexec s1 xs) ! i)) + count_list xs (Run i) \<le> steps_left (snd (threads s1 ! i))"
        then have "steps_left (snd (threads (cexec s1 xs) ! i)) = 0" using z t1(2) True by simp
        then show ?thesis using c steps_left_done by simp
      qed (simp add: c)
    next
      case False
      then show ?thesis
        using IH c t1(2) True ti thread_step_steps_left [OF False, of e s]
          steps_left_done [of "fst (thread_step e p s)"] steps_left_done [of "snd (threads (cexec s1 xs) ! i)"]
        by auto
    qed
  next
    case False
    then show ?thesis using IH c t1(2) ti by auto
  qed
qed

section \<open>Properties of the threaded server\<close>

text \<open>C29. Under any interleaving of any number of concurrent \<^verbatim>\<open>move\<close> requests, the shared window never holds more than five entries, it holds exactly the last five entries appended, in the order of their appends, and every request that has appended contributed exactly one entry: none is lost or duplicated.\<close>

theorem concurrent_window_invariant:
  "creach s \<Longrightarrow>
   dq s = last_n history_maxlen (log s) \<and> length (dq s) \<le> history_maxlen \<and>
   mset (log s) = mset (appended (threads s))"
  by (drule creach_cinv) (simp add: cinv_def)

theorem concurrent_window_invariant_witness:
  "creach (cexec (cinit idle_host) (mixed_sched 0 sample10 sample10)) \<and>
   dq (cexec (cinit idle_host) (mixed_sched 0 sample10 sample10)) = [sample10, sample10] \<and>
   mset (log (cexec (cinit idle_host) (mixed_sched 0 sample10 sample10))) = {#sample10, sample10#}"
  using concurrent_window_invariant [OF creach_cexec_init [of idle_host "mixed_sched 0 sample10 sample10"]]
    creach_cexec_init [of idle_host "mixed_sched 0 sample10 sample10"]
  by (simp add: mixed_sched_run appended_def history_maxlen_def)

text \<open>C30. Under any interleaving, no request fails with \<^verbatim>\<open>ZeroDivisionError\<close>: a request reads \<^verbatim>\<open>len(movement_history)\<close> only after its own append, and no operation removes entries below one.\<close>

theorem concurrent_no_zero_division:
  "creach s \<Longrightarrow> (e, T_done (Inl ZeroDivisionError)) \<notin> set (threads s)"
  by (drule creach_cinv) (force simp: cinv_def)

theorem concurrent_no_zero_division_witness:
  "creach (cexec (cinit idle_host) (stale_sched 0 sample10 sample10)) \<and>
   (sample10, T_done (Inl ZeroDivisionError)) \<notin> set (threads (cexec (cinit idle_host) (stale_sched 0 sample10 sample10))) \<and>
   (sample10, T_done (Inl RuntimeError)) \<in> set (threads (cexec (cinit idle_host) (stale_sched 0 sample10 sample10)))"
  using concurrent_no_zero_division [OF creach_cexec_init [of idle_host "stale_sched 0 sample10 sample10"], of sample10]
    creach_cexec_init [of idle_host "stale_sched 0 sample10 sample10"]
  by (simp add: stale_sched_run)

text \<open>C31. Under any interleaving, a request whose samples, and all samples received before it, are numbers fails only because of a race or of the host: every thread that has finished with an exception finished with \<^verbatim>\<open>RuntimeError\<close> (the deque mutated while \<^verbatim>\<open>sum\<close> iterated it) or with an error of \<^verbatim>\<open>pyautogui\<close>; no \<^verbatim>\<open>TypeError\<close>, \<^verbatim>\<open>ZeroDivisionError\<close> or any other exception of the code.\<close>

theorem races_fail_only_with_runtime_error:
  "creach s \<Longrightarrow> list_all entry_num (log s) \<Longrightarrow> (e, T_done (Inl ex)) \<in> set (threads s) \<Longrightarrow>
   ex = RuntimeError \<or> (\<exists>m. ex = HostError m)"
  by (drule creach_finv) (fastforce simp: finv_def elim: race_or_host.elims)

theorem races_fail_only_with_runtime_error_witness:
  "creach (cexec (cinit idle_host) (stale_sched 0 sample10 sample10)) \<and>
   list_all entry_num (log (cexec (cinit idle_host) (stale_sched 0 sample10 sample10))) \<and>
   (sample10, T_done (Inl RuntimeError)) \<in> set (threads (cexec (cinit idle_host) (stale_sched 0 sample10 sample10))) \<and>
   (RuntimeError = RuntimeError \<or> (\<exists>m. RuntimeError = HostError m))"
proof -
  have r: "creach (cexec (cinit idle_host) (stale_sched 0 sample10 sample10))" by (rule creach_cexec_init)
  have l: "list_all entry_num (log (cexec (cinit idle_host) (stale_sched 0 sample10 sample10)))"
    by (simp only: stale_sched_run) (simp add: sample10_def entry_num_def py_is_num_def)
  have t: "(sample10, T_done (Inl RuntimeError)) \<in> set (threads (cexec (cinit idle_host) (stale_sched 0 sample10 sample10)))"
    by (simp add: stale_sched_run)
  show ?thesis using r l t races_fail_only_with_runtime_error [OF r l t] by simp
qed

text \<open>C32. Without a lock the average is not the mean of any window. From any reachable state whose window W is numeric and whose host works, with any number of requests already there, let a request with sample a start and read the x sum, and a request with sample b append before it reads \<^verbatim>\<open>len\<close>: the first request is answered with success and moves the pointer horizontally by the sum of the window with a (without b) divided by the length of the window with b, and vertically by the mean of the window with both.\<close>

theorem interleaving_mixes_windows:
  assumes r: "creach s" and w: "dq s = map num_entry W" and f: "fault (chost s) = None"
  shows "snd (threads (cexec s (mixed_sched (length (threads s)) (num_entry a) (num_entry b))) ! length (threads s))
           = T_done (Inr ()) \<and>
         cursor (chost (cexec s (mixed_sched (length (threads s)) (num_entry a) (num_entry b)))) =
           (fst (cursor (chost s)) +
              sum_list (map fst (last_n history_maxlen (W @ [a]))) / real (length (last_n history_maxlen (W @ [a, b]))),
            snd (cursor (chost s)) + snd (smoothed_spec (W @ [a, b])))"
proof -
  let ?n = "length (threads s)"
  define W1 where "W1 = last_n history_maxlen (W @ [a])"
  define W2 where "W2 = last_n history_maxlen (W @ [a, b])"
  have len: "length W \<le> history_maxlen" using creach_window_num [OF r w] .
  have len1: "length W1 \<le> history_maxlen" by (simp add: W1_def)
  have ha: "history_append (map num_entry W) (num_entry a) = map num_entry W1"
    using history_append_num [OF len] by (simp add: W1_def)
  have hb: "history_append (map num_entry W1) (num_entry b) = map num_entry W2"
    using history_append_num [OF len1, of b] by (simp add: W1_def W2_def last_n_last_n_append)
  have ne2: "W2 \<noteq> []" by (simp add: W2_def last_n_nonempty history_maxlen_def)
  obtain s1 where s1: "s1 = s\<lparr>threads := threads s @ [(num_entry a, T_start)]\<rparr>" by simp
  obtain s2 where s2: "s2 = s1\<lparr>dq := map num_entry W1, dq_mut := Suc (dq_mut s), log := log s @ [num_entry a],
      threads := threads s @ [(num_entry a, T_len_x (sum_list (map fst W1)))]\<rparr>" by simp
  have c2: "cexec s1 (replicate 3 (Run ?n)) = s2"
    using cexec_run_replicate [of ?n s1 "num_entry a" T_start 3] run_solo_append_sum [of s1 "num_entry a"]
    by (simp add: s1 s2 w ha)
  obtain s3 where s3: "s3 = s2\<lparr>dq := map num_entry W2, dq_mut := Suc (Suc (dq_mut s)), log := log s @ [num_entry a, num_entry b],
      threads := threads s @ [(num_entry a, T_len_x (sum_list (map fst W1))), (num_entry b, T_sum_x_begin)]\<rparr>" by simp
  have c3: "cexec s2 [Arrive (num_entry b), Run (Suc ?n)] = s3"
    by (simp add: cexec_def s1 s2 s3 hb nth_append list_update_append)
  have r5: "run_solo 5 (num_entry a) (T_len_x (sum_list (map fst W1))) s3 =
    (T_move_to (fst (cursor (chost s)) + sum_list (map fst W1) / real (length W2))
               (snd (cursor (chost s)) + sum_list (map snd W2) / real (length W2)),
     s3\<lparr>chost := host_call HPosition (chost s)\<rparr>)"
    using run_solo_len_to_target [of s3] f ne2 by (simp add: s1 s2 s3)
  have r6: "run_solo 6 (num_entry a) (T_len_x (sum_list (map fst W1))) s3 =
    (T_done (Inr ()), s3\<lparr>chost := (host_call (HMoveTo (fst (cursor (chost s)) + sum_list (map fst W1) / real (length W2))
        (snd (cursor (chost s)) + sum_list (map snd W2) / real (length W2)) move_duration)
        (host_call HPosition (chost s)))\<lparr>cursor := (fst (cursor (chost s)) + sum_list (map fst W1) / real (length W2),
        snd (cursor (chost s)) + sum_list (map snd W2) / real (length W2))\<rparr>\<rparr>)"
    using run_solo_add [of 5 1 "num_entry a" "T_len_x (sum_list (map fst W1))" s3] r5 f
    by (simp add: host_moveTo_def host_call_def Let_def)
  have c4: "cexec s (mixed_sched ?n (num_entry a) (num_entry b)) =
      cexec s3 (replicate 6 (Run ?n))"
  proof -
    have l: "mixed_sched ?n (num_entry a) (num_entry b) =
        [Arrive (num_entry a)] @ replicate 3 (Run ?n) @ [Arrive (num_entry b), Run (Suc ?n)] @ replicate 6 (Run ?n)"
      by (simp add: mixed_sched_def numeral_3_eq_3)
    have c1: "cexec s [Arrive (num_entry a)] = s1" by (simp add: cexec_def s1)
    show ?thesis by (simp only: l cexec_append c1 c2 c3)
  qed
  have t4: "cexec s3 (replicate 6 (Run ?n)) =
      (snd (run_solo 6 (num_entry a) (T_len_x (sum_list (map fst W1))) s3))\<lparr>threads :=
        (threads s3)[?n := (num_entry a, fst (run_solo 6 (num_entry a) (T_len_x (sum_list (map fst W1))) s3))]\<rparr>"
    by (rule cexec_run_replicate) (simp_all add: s3 s2 s1)
  show ?thesis
    using c4 t4 r6 by (simp add: s3 s2 s1 W1_def W2_def smoothed_spec_def mean_def)
qed

theorem interleaving_mixes_windows_witness:
  "creach (cinit desk_host) \<and> dq (cinit desk_host) = map num_entry [] \<and> fault (chost (cinit desk_host)) = None \<and>
   snd (threads (cexec (cinit desk_host) (mixed_sched 0 (num_entry (10, 10)) (num_entry (10, 10)))) ! 0)
     = T_done (Inr ()) \<and>
   cursor (chost (cexec (cinit desk_host) (mixed_sched 0 (num_entry (10, 10)) (num_entry (10, 10))))) = (405, 310)"
  using interleaving_mixes_windows [OF creach.init [of desk_host], of "[]" "(10, 10)" "(10, 10)"] creach.init [of desk_host]
  by (simp add: cinit_def smoothed_spec_def mean_def history_maxlen_def)



text \<open>C19. Bounds under every interleaving: however many requests run at once and however their steps interleave, every average a request computes from the shared window lies within the largest magnitude of the samples appended so far. The races of C32 skew an average but never amplify a sample, because a sum is always divided by the length of a window at least as long as the one summed.\<close>

theorem concurrent_average_bounded:
  "creach s \<Longrightarrow> list_all (entry_bounded M) (log s) \<Longrightarrow> (e, T_position ax ay) \<in> set (threads s) \<Longrightarrow>
   \<bar>ax\<bar> \<le> M \<and> \<bar>ay\<bar> \<le> M"
  by (drule creach_binv [of _ M]) (force simp: binv_def list_all_iff)

theorem concurrent_average_bounded_witness:
  "creach (cexec (cinit idle_host) (take 10 (mixed_sched 0 sample10 sample10))) \<and>
   list_all (entry_bounded 10) (log (cexec (cinit idle_host) (take 10 (mixed_sched 0 sample10 sample10)))) \<and>
   (sample10, T_position 5 10) \<in> set (threads (cexec (cinit idle_host) (take 10 (mixed_sched 0 sample10 sample10)))) \<and>
   \<bar>5::real\<bar> \<le> 10 \<and> \<bar>10::real\<bar> \<le> 10"
proof -
  have r: "creach (cexec (cinit idle_host) (take 10 (mixed_sched 0 sample10 sample10)))" by (rule creach_cexec_init)
  have l: "list_all (entry_bounded 10) (log (cexec (cinit idle_host) (take 10 (mixed_sched 0 sample10 sample10))))"
    by (simp only: mixed_sched_prefix_run) (simp add: sample10_def entry_bounded_def entry_num_def)
  have t: "(sample10, T_position 5 10) \<in> set (threads (cexec (cinit idle_host) (take 10 (mixed_sched 0 sample10 sample10))))"
    by (simp add: mixed_sched_prefix_run)
  show ?thesis using r l t concurrent_average_bounded [OF r l t] by simp
qed

text \<open>C34. Termination in any schedule: a request whose thread is run nine times is finished, whatever else the schedule does in between (other requests arriving and running, clicks, changes of the host). No request waits for another or loops, not even after a \<^verbatim>\<open>RuntimeError\<close>: there is no lock and no retry.\<close>

theorem thread_finishes_in_nine_runs:
  "i < length (threads s) \<Longrightarrow> 9 \<le> count_list xs (Run i) \<Longrightarrow> is_done (snd (threads (cexec s xs) ! i))"
  using cexec_thread_progress [of i s xs] steps_left_le [of "snd (threads s ! i)"] steps_left_done
  by fastforce

theorem thread_finishes_in_nine_runs_witness:
  "0 < length (threads (cexec (cinit idle_host) [Arrive sample10])) \<and>
   9 \<le> count_list (Host_change (3, 3) None # replicate 9 (Run 0)) (Run 0) \<and>
   is_done (snd (threads (cexec (cexec (cinit idle_host) [Arrive sample10])
     (Host_change (3, 3) None # replicate 9 (Run 0))) ! 0))"
  using thread_finishes_in_nine_runs [of 0 "cexec (cinit idle_host) [Arrive sample10]"
      "Host_change (3, 3) None # replicate 9 (Run 0)"]
  by (simp add: cexec_def cinit_def numeral_eq_Suc)

text \<open>C35. Last write wins at the host. From any reachable state whose window is numeric and whose host works, with any number of requests already there: when a second move runs whole while the first has read the pointer and not yet moved it, both requests are answered with success, but the pointer ends where serving the first request alone would put it: the second request's movement is lost.\<close>

theorem overlapping_moves_lose_update:
  assumes r: "creach s" and w: "dq s = map num_entry W" and f: "fault (chost s) = None"
  shows "map (thread_reply \<circ> snd)
           (drop (length (threads s)) (threads (cexec s (lost_sched (length (threads s)) (num_entry a) (num_entry b)))))
           = [Some (Json_resp Success), Some (Json_resp Success)] \<and>
         cursor (chost (cexec s (lost_sched (length (threads s)) (num_entry a) (num_entry b))))
           = cursor (host_state (snd (serve (move_request a) (cserver s))))"
proof -
  let ?n = "length (threads s)"
  define W1 where "W1 = last_n history_maxlen (W @ [a])"
  define tx where "tx = fst (cursor (chost s)) + sum_list (map fst W1) / real (length W1)"
  define ty where "ty = snd (cursor (chost s)) + sum_list (map snd W1) / real (length W1)"
  have len: "length W \<le> history_maxlen" using creach_window_num [OF r w] .
  have ha: "history_append (map num_entry W) (num_entry a) = map num_entry W1"
    using history_append_num [OF len] by (simp add: W1_def)
  have ne1: "W1 \<noteq> []" by (simp add: W1_def last_n_nonempty history_maxlen_def)
  obtain s1 where s1: "s1 = s\<lparr>threads := threads s @ [(num_entry a, T_start)]\<rparr>" by simp
  obtain s2 where s2: "s2 = s\<lparr>dq := map num_entry W1, dq_mut := Suc (dq_mut s), log := log s @ [num_entry a],
      chost := host_call HPosition (chost s), threads := threads s @ [(num_entry a, T_move_to tx ty)]\<rparr>" by simp
  have r8: "run_solo 8 (num_entry a) T_start s1 = (T_move_to tx ty, s2\<lparr>threads := threads s1\<rparr>)"
    using run_solo_add [of 3 5 "num_entry a" T_start s1] run_solo_append_sum [of s1 "num_entry a"]
      run_solo_len_to_target [of "s1\<lparr>dq := map num_entry W1, dq_mut := Suc (dq_mut s), log := log s @ [num_entry a]\<rparr>"
        "num_entry a" "sum_list (map fst W1)"] ne1 f
    by (simp add: s1 s2 w ha tx_def ty_def)
  have c2: "cexec s1 (replicate 8 (Run ?n)) = s2"
    using cexec_run_replicate [of ?n s1 "num_entry a" T_start 8] r8 by (simp add: s1 s2)
  obtain s3 where s3: "s3 = s2\<lparr>threads := threads s2 @ [(num_entry b, T_start)]\<rparr>" by simp
  have h3: "history (cserver s3) = map num_entry (last_n history_maxlen W1)" "fault (host_state (cserver s3)) = None"
    using f by (simp_all add: s3 s2 cserver_def W1_def host_call_def)
  obtain p4 s4 where rs: "run_solo 9 (num_entry b) T_start s3 = (p4, s4)" by fastforce
  have m4: "p4 = T_done (fst (move_try (entry_obj (num_entry b)) (cserver s3)))"
    "cserver s4 = snd (move_try (entry_obj (num_entry b)) (cserver s3))"
    using run_solo_move_try [of "num_entry b" s3] rs by simp_all
  have "chost s4 = host_state (snd (move_try (entry_obj (num_entry b)) (cserver s3)))"
    using arg_cong [OF m4(2), of host_state] by (simp add: cserver_def)
  then have p4: "p4 = T_done (Inr ())" and f4: "fault (chost s4) = None"
    using m4(1) move_try_num [OF h3, of b] by simp_all
  have c4: "cexec s3 (replicate 9 (Run (Suc ?n))) = s4\<lparr>threads := (threads s3)[Suc ?n := (num_entry b, p4)]\<rparr>"
    using cexec_run_replicate [of "Suc ?n" s3 "num_entry b" T_start 9] rs by (simp add: s3 s2 nth_append)
  have l: "lost_sched ?n (num_entry a) (num_entry b) =
      [Arrive (num_entry a)] @ replicate 8 (Run ?n) @ [Arrive (num_entry b)] @ replicate 9 (Run (Suc ?n)) @ [Run ?n]"
    by (simp add: lost_sched_def)
  have c1: "cexec s [Arrive (num_entry a)] = s1" by (simp add: cexec_def s1)
  have c3: "cexec s2 [Arrive (num_entry b)] = s3" by (simp add: cexec_def s3)
  have run: "cexec s (lost_sched ?n (num_entry a) (num_entry b)) =
      cexec (s4\<lparr>threads := (threads s3)[Suc ?n := (num_entry b, p4)]\<rparr>) [Run ?n]"
    by (simp only: l cexec_append c1 c2 c3 c4)
  have final: "cexec (s4\<lparr>threads := (threads s3)[Suc ?n := (num_entry b, p4)]\<rparr>) [Run ?n] =
      (s4\<lparr>chost := (host_call (HMoveTo tx ty move_duration) (chost s4))\<lparr>cursor := (tx, ty)\<rparr>,
          threads := threads s @ [(num_entry a, T_done (Inr ())), (num_entry b, p4)]\<rparr>)"
    using f4 by (simp add: cexec_def s3 s2 nth_append list_update_append host_moveTo_def host_call_def Let_def)
  have seq: "cursor (host_state (snd (serve (move_request a) (cserver s)))) = (tx, ty)"
    using move_numeric_outcome [of "cserver s" W a] w f len
    by (simp add: serve_move_request cserver_def tx_def ty_def W1_def smoothed_spec_def mean_def)
  show ?thesis using run final seq p4 by simp
qed

theorem overlapping_moves_lose_update_witness:
  "creach (cinit desk_host) \<and> dq (cinit desk_host) = map num_entry [] \<and> fault (chost (cinit desk_host)) = None \<and>
   map (thread_reply \<circ> snd) (threads (cexec (cinit desk_host) (lost_sched 0 (num_entry (10, 10)) (num_entry (10, 10)))))
     = [Some (Json_resp Success), Some (Json_resp Success)] \<and>
   cursor (chost (cexec (cinit desk_host) (lost_sched 0 (num_entry (10, 10)) (num_entry (10, 10))))) = (410, 310) \<and>
   cursor (host_state (snd (serve_run [move_request (10, 10), move_request (10, 10)] (init_server desk_host))))
     = (420, 320)"
proof -
  have seq: "cursor (host_state (snd (serve_run (map move_request [(10, 10), (10, 10)]) (init_server desk_host))))
     = (420, 320)"
    using serve_run_moves_numeric [of "init_server desk_host" "[]" "[(10, 10), (10, 10)]"]
    by (simp add: init_server_def smoothed_spec_def mean_def history_maxlen_def)
  have one: "cursor (host_state (snd (serve (move_request (10, 10)) (cserver (cinit desk_host))))) = (410, 310)"
    using serve_run_moves_numeric [of "cserver (cinit desk_host)" "[]" "[(10, 10)]"]
    by (simp add: cserver_def cinit_def smoothed_spec_def mean_def history_maxlen_def case_prod_unfold)
  show ?thesis
    using overlapping_moves_lose_update [OF creach.init [of desk_host], of "[]" "(10, 10)" "(10, 10)"]
      creach.init [of desk_host] seq one
    by (simp add: cinit_def)
qed

end
