(* ===== verification/Startup.thy ===== *)
theory Startup
  imports PyValue "HOL-Library.Word" "HOL-Library.Monad_Syntax"
begin

text \<open>
  Pairing and start-up: \<^verbatim>\<open>get_ip\<close> (lines 7--15) and the \<^verbatim>\<open>__main__\<close> block
  (lines 151--168). \<^verbatim>\<open>get_ip\<close> opens a UDP socket, connects it to
  8.8.8.8:80 (no packet is sent; the kernel only picks the route), reads the
  local address with \<^verbatim>\<open>getsockname\<close> and closes the socket in a
  \<^verbatim>\<open>finally\<close> block; there is no \<^verbatim>\<open>except\<close>. The main block builds the URL
  \<^verbatim>\<open>http://<ip>:5000\<close>, encodes it in a QR image saved to
  \<^verbatim>\<open>server_qr_code.png\<close> and starts Flask on 0.0.0.0:5000.

  The socket library is modelled from its documented behaviour: the network
  environment \<open>netenv\<close> holds the local IPv4 address of the interface that
  routes to 8.8.8.8, or nothing when there is no route (then \<^verbatim>\<open>connect\<close>
  raises \<^verbatim>\<open>OSError\<close>, errno 101), and the log of socket operations.
  \<^verbatim>\<open>getsockname()[0]\<close> is the address in dotted decimal, printed as
  \<^verbatim>\<open>inet_ntoa\<close> does (\<open>dotted\<close>, after the AFP's IP_Addresses).
  \<open>parse_url\<close> is the reader of the QR payload, the part of a browser that
  extracts host and port from an \<^verbatim>\<open>http\<close> URL of that form; it is the
  partner of the round trip, not code of the program.
\<close>

type_synonym ipv4 = "8 word \<times> 8 word \<times> 8 word \<times> 8 word"

datatype sockop = Sock_open | Sock_connect string nat | Sock_getsockname | Sock_close

record netenv =
  route_src :: "ipv4 option"
  sock_ops :: "sockop list"

section \<open>Printing and reading numbers and addresses\<close>

fun string_of_nat :: "nat \<Rightarrow> string" where
  "string_of_nat n = (if n < 10 then [char_of (48 + n)] else
     string_of_nat (n div 10) @ [char_of (48 + n mod 10)])"

definition dotted :: "ipv4 \<Rightarrow> string" where
  "dotted a = (case a of (b1, b2, b3, b4) \<Rightarrow>
     string_of_nat (unat b1) @ ''.'' @ string_of_nat (unat b2) @ ''.'' @
     string_of_nat (unat b3) @ ''.'' @ string_of_nat (unat b4))"

definition is_digit :: "char \<Rightarrow> bool" where
  "is_digit c \<longleftrightarrow> (48::nat) \<le> of_char c \<and> of_char c < (58::nat)"

definition digits_val :: "string \<Rightarrow> nat" where
  "digits_val s = foldl (\<lambda>acc c. 10 * acc + (of_char c - 48)) 0 s"

definition parse_nat :: "string \<Rightarrow> nat option" where
  "parse_nat s = (if s \<noteq> [] \<and> list_all is_digit s then Some (digits_val s) else None)"

fun split_on :: "char \<Rightarrow> string \<Rightarrow> string list" where
  "split_on c [] = [[]]"
| "split_on c (x # xs) =
     (if x = c then [] # split_on c xs
      else (case split_on c xs of [] \<Rightarrow> [[x]] | y # ys \<Rightarrow> (x # y) # ys))"

definition octet :: "string \<Rightarrow> 8 word option" where
  "octet s = do { n \<leftarrow> parse_nat s; if n < 256 then Some (of_nat n) else None }"

definition parse_dotted :: "string \<Rightarrow> ipv4 option" where
  "parse_dotted s =
     (case split_on (CHR ''.'') s of
        [p1, p2, p3, p4] \<Rightarrow>
          do { b1 \<leftarrow> octet p1; b2 \<leftarrow> octet p2; b3 \<leftarrow> octet p3; b4 \<leftarrow> octet p4;
               Some (b1, b2, b3, b4) }
      | _ \<Rightarrow> None)"

definition parse_url :: "string \<Rightarrow> (ipv4 \<times> nat) option" where
  "parse_url u =
     (if take 7 u = ''http://'' then
        (case split_on (CHR '':'') (drop 7 u) of
           [h, p] \<Rightarrow> do { a \<leftarrow> parse_dotted h; n \<leftarrow> parse_nat p; Some (a, n) }
         | _ \<Rightarrow> None)
      else None)"

section \<open>The socket calls and \<^verbatim>\<open>get_ip\<close>\<close>

definition sock_log :: "sockop \<Rightarrow> netenv \<Rightarrow> netenv" where
  "sock_log op env = env\<lparr>sock_ops := sock_ops env @ [op]\<rparr>"

definition sock_connect :: "string \<Rightarrow> nat \<Rightarrow> netenv \<Rightarrow> (pyexc + unit) \<times> netenv" where
  "sock_connect host port env =
     (let env' = sock_log (Sock_connect host port) env in
      case route_src env of
        None \<Rightarrow> (Inl (OSError ''[Errno 101] Network is unreachable''), env')
      | Some a \<Rightarrow> (Inr (), env'))"

definition sock_getsockname :: "netenv \<Rightarrow> string \<times> netenv" where
  "sock_getsockname env =
     (let env' = sock_log Sock_getsockname env in
      case route_src env of None \<Rightarrow> (''0.0.0.0'', env') | Some a \<Rightarrow> (dotted a, env'))"

definition get_ip :: "netenv \<Rightarrow> (pyexc + string) \<times> netenv" where
  "get_ip env =
     (let env1 = sock_log Sock_open env in
      case sock_connect ''8.8.8.8'' 80 env1 of
        (Inl ex, env2) \<Rightarrow> (Inl ex, sock_log Sock_close env2)
      | (Inr u, env2) \<Rightarrow>
          (case sock_getsockname env2 of (ip, env3) \<Rightarrow> (Inr ip, sock_log Sock_close env3)))"

section \<open>The main block\<close>

record launch =
  qr_data :: string
  qr_file :: string
  listen_host :: string
  listen_port :: nat

definition server_url :: "string \<Rightarrow> string" where
  "server_url ip = ''http://'' @ ip @ '':5000''"

definition main :: "netenv \<Rightarrow> (pyexc + launch) \<times> netenv" where
  "main env =
     (case get_ip env of
        (Inl ex, env') \<Rightarrow> (Inl ex, env')
      | (Inr ip, env') \<Rightarrow>
          (Inr \<lparr>qr_data = server_url ip, qr_file = ''server_qr_code.png'',
                listen_host = ''0.0.0.0'', listen_port = 5000\<rparr>, env'))"

section \<open>Decimal numbers read back\<close>

declare string_of_nat.simps [simp del]

lemma string_of_nat_digits: "string_of_nat n \<noteq> [] \<and> list_all is_digit (string_of_nat n)"
proof (induction n rule: string_of_nat.induct)
  case (1 n)
  then show ?case
    unfolding string_of_nat.simps [of n] by (auto simp: is_digit_def of_char_of)
qed

lemma digits_val_snoc: "digits_val (xs @ [c]) = 10 * digits_val xs + (of_char c - 48)"
  by (simp add: digits_val_def)

lemma digits_val_string_of_nat: "digits_val (string_of_nat n) = n"
proof (induction n rule: string_of_nat.induct)
  case (1 n)
  then show ?case
    unfolding string_of_nat.simps [of n] by (simp add: digits_val_snoc of_char_of digits_val_def)
qed

lemma parse_nat_string_of_nat [simp]: "parse_nat (string_of_nat n) = Some n"
  using string_of_nat_digits [of n] by (simp add: parse_nat_def digits_val_string_of_nat)

lemma digit_not_sep: "is_digit c \<Longrightarrow> c \<noteq> CHR ''.'' \<and> c \<noteq> CHR '':''"
  by (auto simp: is_digit_def)

lemma sep_notin_string_of_nat [simp]:
  "CHR ''.'' \<notin> set (string_of_nat n)" "CHR '':'' \<notin> set (string_of_nat n)"
  using string_of_nat_digits [of n] digit_not_sep by (auto simp: list_all_iff)

section \<open>Splitting at a separator\<close>

lemma split_on_none: "c \<notin> set xs \<Longrightarrow> split_on c xs = [xs]"
  by (induction xs) auto

lemma split_on_append: "c \<notin> set xs \<Longrightarrow> split_on c (xs @ c # ys) = xs # split_on c ys"
proof (induction xs)
  case (Cons x xs)
  then show ?case by (cases "split_on c ys") auto
qed simp

lemma octet_unat [simp]: "octet (string_of_nat (unat b)) = Some b"
  using unsigned_less [of b] by (simp add: octet_def)

lemma parse_dotted_dotted: "parse_dotted (dotted a) = Some a"
  by (cases a) (simp add: dotted_def parse_dotted_def split_on_append split_on_none)

lemma colon_notin_dotted: "CHR '':'' \<notin> set (dotted a)"
  by (cases a) (simp add: dotted_def)

lemma parse_url_server_url: "parse_url (server_url (dotted a)) = Some (a, 5000)"
proof -
  have "split_on (CHR '':'') (dotted a @ '':5000'') = [dotted a, ''5000'']"
    using split_on_append [OF colon_notin_dotted, of a "''5000''"] by simp
  moreover have "parse_nat ''5000'' = Some 5000"
    by (simp add: parse_nat_def is_digit_def digits_val_def)
  ultimately show ?thesis
    by (simp add: parse_url_def server_url_def parse_dotted_dotted)
qed

section \<open>The two paths of \<^verbatim>\<open>get_ip\<close>\<close>

lemma get_ip_route:
  "route_src env = Some a \<Longrightarrow>
   get_ip env = (Inr (dotted a),
     env\<lparr>sock_ops := sock_ops env @ [Sock_open, Sock_connect ''8.8.8.8'' 80, Sock_getsockname, Sock_close]\<rparr>)"
  by (simp add: get_ip_def sock_connect_def sock_getsockname_def sock_log_def Let_def)

lemma get_ip_no_route:
  "route_src env = None \<Longrightarrow>
   get_ip env = (Inl (OSError ''[Errno 101] Network is unreachable''),
     env\<lparr>sock_ops := sock_ops env @ [Sock_open, Sock_connect ''8.8.8.8'' 80, Sock_close]\<rparr>)"
  by (simp add: get_ip_def sock_connect_def sock_log_def Let_def)

section \<open>Properties of start-up\<close>

text \<open>C38. \<^verbatim>\<open>get_ip\<close> closes its socket on every path, and it has no handler: without a route to 8.8.8.8 (an offline machine) the \<^verbatim>\<open>OSError\<close> of \<^verbatim>\<open>connect\<close> escapes the main block, so no QR code is made and the server never starts; with a route, the QR code holds the URL of the local address and the server listens on 0.0.0.0:5000.\<close>

theorem main_closes_socket_and_fails_offline:
  "sock_ops (snd (main env)) =
     sock_ops env @ [Sock_open, Sock_connect ''8.8.8.8'' 80] @
     (case route_src env of None \<Rightarrow> [] | Some a \<Rightarrow> [Sock_getsockname]) @ [Sock_close] \<and>
   fst (main env) =
     (case route_src env of
        None \<Rightarrow> Inl (OSError ''[Errno 101] Network is unreachable'')
      | Some a \<Rightarrow> Inr \<lparr>qr_data = server_url (dotted a), qr_file = ''server_qr_code.png'',
                       listen_host = ''0.0.0.0'', listen_port = 5000\<rparr>)"
  by (cases "route_src env") (simp_all add: main_def get_ip_route get_ip_no_route)

text \<open>C39. Round trip of pairing: whenever start-up succeeds, reading the URL in the QR code back gives the address \<^verbatim>\<open>get_ip\<close> found and the port the server listens on.\<close>

theorem qr_url_roundtrip:
  "route_src env = Some a \<Longrightarrow>
   \<exists>l. fst (main env) = Inr l \<and> parse_url (qr_data l) = Some (a, listen_port l)"
  by (simp add: main_def get_ip_route parse_url_server_url)

theorem qr_url_roundtrip_witness:
  "route_src \<lparr>route_src = Some (192, 168, 1, 5), sock_ops = []\<rparr> = Some (192, 168, 1, 5) \<and>
   (\<exists>l. fst (main \<lparr>route_src = Some (192, 168, 1, 5), sock_ops = []\<rparr>) = Inr l \<and>
        parse_url (qr_data l) = Some ((192, 168, 1, 5), listen_port l))"
  using qr_url_roundtrip [of "\<lparr>route_src = Some (192, 168, 1, 5), sock_ops = []\<rparr>" "(192, 168, 1, 5)"]
  by simp

end
