(* ===== verification/Index.thy ===== *)
theory Index
  imports Server
begin

text \<open>
  The \<^verbatim>\<open>index\<close> view (lines 106--109): \<^verbatim>\<open>render_template_string(html_template)\<close>.
  \<open>html_template_lines\<close> is the string literal of lines 24--103, one element per
  line, as the bytes Flask sends (UTF-8: the Russian labels are written byte by
  byte, quotes as \<open>CHR 0x22\<close> and \<open>CHR 0x27\<close>); the literal opens with a line
  break, so the first line is empty, and every line ends with one.

  \<^verbatim>\<open>render_template_string\<close> is Jinja2 under Flask's defaults, a library,
  modelled from its documentation for the templates it leaves as text: a
  template without the start delimiters \<^verbatim>\<open>{{\<close>, \<^verbatim>\<open>{%\<close>, \<^verbatim>\<open>{#\<close> (and, here,
  without carriage returns, which Jinja would normalise) renders to itself,
  except that \<^verbatim>\<open>keep_trailing_newline=False\<close> drops one final line break. A
  template with Jinja syntax is outside the model (\<open>None\<close>). Byte-level checks
  agree with Jinja's character-level lexer because UTF-8 multi-byte sequences
  contain no ASCII byte.
\<close>

definition html_template_lines :: "string list" where
  "html_template_lines = [
     [],
     ''<!DOCTYPE html>'',
     ''<html lang='' @ [CHR 0x22] @ ''en'' @ [CHR 0x22] @ ''>'',
     ''<head>'',
     ''    <meta charset='' @ [CHR 0x22] @ ''UTF-8'' @ [CHR 0x22] @ ''>'',
     ''    <meta name='' @ [CHR 0x22] @ ''viewport'' @ [CHR 0x22] @ '' content='' @ [CHR 0x22] @ ''width=device-width, initial-scale=1.0'' @ [CHR 0x22] @ ''>'',
     ''    <title>Mouse Control</title>'',
     ''    <style>'',
     ''        #touchpad {'',
     ''            width: 300px;'',
     ''            height: 300px;'',
     ''            border: 1px solid black;'',
     ''            touch-action: none;'',
     ''        }'',
     ''        button {'',
     ''            width: 100px;'',
     ''            height: 50px;'',
     ''            margin: 10px;'',
     ''        }'',
     ''    </style>'',
     ''</head>'',
     ''<body>'',
     ''    <h1>'' @ [CHR 0xD0] @ [CHR 0xA3] @ [CHR 0xD0] @ [CHR 0xBF] @ [CHR 0xD1] @ [CHR 0x80] @ [CHR 0xD0] @ [CHR 0xB0] @ [CHR 0xD0] @ [CHR 0xB2] @ [CHR 0xD0] @ [CHR 0xBB] @ [CHR 0xD0] @ [CHR 0xB5] @ [CHR 0xD0] @ [CHR 0xBD] @ [CHR 0xD0] @ [CHR 0xB8] @ [CHR 0xD0] @ [CHR 0xB5] @ '' '' @ [CHR 0xD0] @ [CHR 0xBA] @ [CHR 0xD1] @ [CHR 0x83] @ [CHR 0xD1] @ [CHR 0x80] @ [CHR 0xD1] @ [CHR 0x81] @ [CHR 0xD0] @ [CHR 0xBE] @ [CHR 0xD1] @ [CHR 0x80] @ [CHR 0xD0] @ [CHR 0xBE] @ [CHR 0xD0] @ [CHR 0xBC] @ ''</h1>'',
     ''    <div id='' @ [CHR 0x22] @ ''touchpad'' @ [CHR 0x22] @ ''></div>'',
     ''    <button onclick='' @ [CHR 0x22] @ ''sendClick('' @ [CHR 0x27] @ ''left'' @ [CHR 0x27] @ '')'' @ [CHR 0x22] @ ''>'' @ [CHR 0xD0] @ [CHR 0x9B] @ [CHR 0xD0] @ [CHR 0xB5] @ [CHR 0xD0] @ [CHR 0xB2] @ [CHR 0xD0] @ [CHR 0xB0] @ [CHR 0xD1] @ [CHR 0x8F] @ '' '' @ [CHR 0xD0] @ [CHR 0xBA] @ [CHR 0xD0] @ [CHR 0xBD] @ [CHR 0xD0] @ [CHR 0xBE] @ [CHR 0xD0] @ [CHR 0xBF] @ [CHR 0xD0] @ [CHR 0xBA] @ [CHR 0xD0] @ [CHR 0xB0] @ ''</button>'',
     ''    <button onclick='' @ [CHR 0x22] @ ''sendClick('' @ [CHR 0x27] @ ''right'' @ [CHR 0x27] @ '')'' @ [CHR 0x22] @ ''>'' @ [CHR 0xD0] @ [CHR 0x9F] @ [CHR 0xD1] @ [CHR 0x80] @ [CHR 0xD0] @ [CHR 0xB0] @ [CHR 0xD0] @ [CHR 0xB2] @ [CHR 0xD0] @ [CHR 0xB0] @ [CHR 0xD1] @ [CHR 0x8F] @ '' '' @ [CHR 0xD0] @ [CHR 0xBA] @ [CHR 0xD0] @ [CHR 0xBD] @ [CHR 0xD0] @ [CHR 0xBE] @ [CHR 0xD0] @ [CHR 0xBF] @ [CHR 0xD0] @ [CHR 0xBA] @ [CHR 0xD0] @ [CHR 0xB0] @ ''</button>'',
     ''    <script>'',
     ''        let lastX = null;'',
     ''        let lastY = null;'',
     ''        let touchpad = document.getElementById('' @ [CHR 0x27] @ ''touchpad'' @ [CHR 0x27] @ '');'',
     [],
     ''        touchpad.addEventListener('' @ [CHR 0x27] @ ''touchstart'' @ [CHR 0x27] @ '', function(event) {'',
     ''            let touch = event.touches[0];'',
     ''            lastX = touch.clientX;'',
     ''            lastY = touch.clientY;'',
     ''        });'',
     [],
     ''        touchpad.addEventListener('' @ [CHR 0x27] @ ''touchmove'' @ [CHR 0x27] @ '', function(event) {'',
     ''            event.preventDefault();'',
     ''            let touch = event.touches[0];'',
     ''            if (lastX !== null && lastY !== null) {'',
     ''                let deltaX = (touch.clientX - lastX) * 2;  // '' @ [CHR 0xD0] @ [CHR 0xA3] @ [CHR 0xD0] @ [CHR 0xB2] @ [CHR 0xD0] @ [CHR 0xB5] @ [CHR 0xD0] @ [CHR 0xBB] @ [CHR 0xD0] @ [CHR 0xB8] @ [CHR 0xD1] @ [CHR 0x87] @ [CHR 0xD0] @ [CHR 0xB5] @ [CHR 0xD0] @ [CHR 0xBD] @ [CHR 0xD0] @ [CHR 0xB8] @ [CHR 0xD0] @ [CHR 0xB5] @ '' '' @ [CHR 0xD1] @ [CHR 0x88] @ [CHR 0xD0] @ [CHR 0xB0] @ [CHR 0xD0] @ [CHR 0xB3] @ [CHR 0xD0] @ [CHR 0xB0] @ '' '' @ [CHR 0xD0] @ [CHR 0xBF] @ [CHR 0xD0] @ [CHR 0xB5] @ [CHR 0xD1] @ [CHR 0x80] @ [CHR 0xD0] @ [CHR 0xB5] @ [CHR 0xD0] @ [CHR 0xBC] @ [CHR 0xD0] @ [CHR 0xB5] @ [CHR 0xD1] @ [CHR 0x89] @ [CHR 0xD0] @ [CHR 0xB5] @ [CHR 0xD0] @ [CHR 0xBD] @ [CHR 0xD0] @ [CHR 0xB8] @ [CHR 0xD1] @ [CHR 0x8F],
     ''                let deltaY = (touch.clientY - lastY) * 2;'',
     ''                '',
     ''                // '' @ [CHR 0xD0] @ [CHR 0x9E] @ [CHR 0xD1] @ [CHR 0x82] @ [CHR 0xD0] @ [CHR 0xBF] @ [CHR 0xD1] @ [CHR 0x80] @ [CHR 0xD0] @ [CHR 0xB0] @ [CHR 0xD0] @ [CHR 0xB2] @ [CHR 0xD0] @ [CHR 0xBA] @ [CHR 0xD0] @ [CHR 0xB0] @ '' '' @ [CHR 0xD0] @ [CHR 0xB4] @ [CHR 0xD0] @ [CHR 0xB0] @ [CHR 0xD0] @ [CHR 0xBD] @ [CHR 0xD0] @ [CHR 0xBD] @ [CHR 0xD1] @ [CHR 0x8B] @ [CHR 0xD1] @ [CHR 0x85] @ '' '' @ [CHR 0xD0] @ [CHR 0xBE] @ '' '' @ [CHR 0xD0] @ [CHR 0xBF] @ [CHR 0xD0] @ [CHR 0xB5] @ [CHR 0xD1] @ [CHR 0x80] @ [CHR 0xD0] @ [CHR 0xB5] @ [CHR 0xD0] @ [CHR 0xBC] @ [CHR 0xD0] @ [CHR 0xB5] @ [CHR 0xD1] @ [CHR 0x89] @ [CHR 0xD0] @ [CHR 0xB5] @ [CHR 0xD0] @ [CHR 0xBD] @ [CHR 0xD0] @ [CHR 0xB8] @ [CHR 0xD0] @ [CHR 0xB8] @ '' '' @ [CHR 0xD0] @ [CHR 0xBA] @ [CHR 0xD1] @ [CHR 0x83] @ [CHR 0xD1] @ [CHR 0x80] @ [CHR 0xD1] @ [CHR 0x81] @ [CHR 0xD0] @ [CHR 0xBE] @ [CHR 0xD1] @ [CHR 0x80] @ [CHR 0xD0] @ [CHR 0xB0] @ '' '' @ [CHR 0xD0] @ [CHR 0xBD] @ [CHR 0xD0] @ [CHR 0xB0] @ '' '' @ [CHR 0xD1] @ [CHR 0x81] @ [CHR 0xD0] @ [CHR 0xB5] @ [CHR 0xD1] @ [CHR 0x80] @ [CHR 0xD0] @ [CHR 0xB2] @ [CHR 0xD0] @ [CHR 0xB5] @ [CHR 0xD1] @ [CHR 0x80],
     ''                fetch('' @ [CHR 0x27] @ ''/move'' @ [CHR 0x27] @ '', {'',
     ''                    method: '' @ [CHR 0x27] @ ''POST'' @ [CHR 0x27] @ '','',
     ''                    headers: {'',
     ''                        '' @ [CHR 0x27] @ ''Content-Type'' @ [CHR 0x27] @ '': '' @ [CHR 0x27] @ ''application/json'' @ [CHR 0x27],
     ''                    },'',
     ''                    body: JSON.stringify({ dx: deltaX, dy: deltaY })'',
     ''                }).then(response => response.json())'',
     ''                .then(data => console.log(data))'',
     ''                .catch(error => console.error('' @ [CHR 0x27] @ [CHR 0xD0] @ [CHR 0x9E] @ [CHR 0xD1] @ [CHR 0x88] @ [CHR 0xD0] @ [CHR 0xB8] @ [CHR 0xD0] @ [CHR 0xB1] @ [CHR 0xD0] @ [CHR 0xBA] @ [CHR 0xD0] @ [CHR 0xB0] @ '':'' @ [CHR 0x27] @ '', error));'',
     [],
     ''                lastX = touch.clientX;'',
     ''                lastY = touch.clientY;'',
     ''            }'',
     ''        });'',
     [],
     ''        touchpad.addEventListener('' @ [CHR 0x27] @ ''touchend'' @ [CHR 0x27] @ '', function() {'',
     ''            lastX = null;'',
     ''            lastY = null;'',
     ''        });'',
     [],
     ''        function sendClick(button) {'',
     ''            fetch('' @ [CHR 0x27] @ ''/click'' @ [CHR 0x27] @ '', {'',
     ''                method: '' @ [CHR 0x27] @ ''POST'' @ [CHR 0x27] @ '','',
     ''                headers: {'',
     ''                    '' @ [CHR 0x27] @ ''Content-Type'' @ [CHR 0x27] @ '': '' @ [CHR 0x27] @ ''application/json'' @ [CHR 0x27],
     ''                },'',
     ''                body: JSON.stringify({ button: button })'',
     ''            }).then(response => response.json())'',
     ''            .then(data => console.log(data))'',
     ''            .catch(error => console.error('' @ [CHR 0x27] @ [CHR 0xD0] @ [CHR 0x9E] @ [CHR 0xD1] @ [CHR 0x88] @ [CHR 0xD0] @ [CHR 0xB8] @ [CHR 0xD0] @ [CHR 0xB1] @ [CHR 0xD0] @ [CHR 0xBA] @ [CHR 0xD0] @ [CHR 0xB0] @ '':'' @ [CHR 0x27] @ '', error));'',
     ''        }'',
     ''    </script>'',
     ''</body>'',
     ''</html>'']"

definition html_template :: string where
  "html_template = concat (map (\<lambda>l. l @ [CHR 0x0A]) html_template_lines)"

text \<open>No Jinja start delimiter: no \<^verbatim>\<open>{\<close> followed by \<^verbatim>\<open>{\<close>, \<^verbatim>\<open>%\<close> or \<^verbatim>\<open>#\<close>.\<close>

fun jinja_plain :: "string \<Rightarrow> bool" where
  "jinja_plain (a # b # cs) =
     (\<not> (a = CHR ''{'' \<and> (b = CHR ''{'' \<or> b = CHR ''%'' \<or> b = CHR ''#'')) \<and> jinja_plain (b # cs))"
| "jinja_plain cs = True"

definition jinja_render :: "string \<Rightarrow> string option" where
  "jinja_render t =
     (if jinja_plain t \<and> CHR 0x0D \<notin> set t
      then Some (if t \<noteq> [] \<and> last t = CHR 0x0A then butlast t else t)
      else None)"

definition index_view :: "string option" where
  "index_view = jinja_render html_template"

section \<open>Texts made of lines\<close>

lemma jinja_plain_LF_append:
  "jinja_plain (xs @ CHR 0x0A # ys) \<longleftrightarrow> jinja_plain (xs @ [CHR 0x0A]) \<and> jinja_plain ys"
proof (induction xs)
  case Nil
  then show ?case by (cases ys) simp_all
next
  case (Cons x xs)
  then show ?case by (cases xs) (simp_all add: jinja_plain.simps(1) [of _ _ "_ @ _"])
qed

lemma jinja_plain_lines:
  "jinja_plain (concat (map (\<lambda>l. l @ [CHR 0x0A]) ls)) \<longleftrightarrow> list_all (\<lambda>l. jinja_plain (l @ [CHR 0x0A])) ls"
proof (induction ls)
  case (Cons l ls)
  have "concat (map (\<lambda>l. l @ [CHR 0x0A]) (l # ls)) = l @ CHR 0x0A # concat (map (\<lambda>l. l @ [CHR 0x0A]) ls)"
    by simp
  then show ?case
    using Cons.IH jinja_plain_LF_append [of l "concat (map (\<lambda>l. l @ [CHR 0x0A]) ls)"] by simp
qed simp

lemma last_lines: "ls \<noteq> [] \<Longrightarrow> last (concat (map (\<lambda>l. l @ [c]) ls)) = c"
  by (induction ls) auto

section \<open>The page\<close>

lemma html_template_plain: "jinja_plain html_template \<and> CHR 0x0D \<notin> set html_template"
proof -
  have "list_all (\<lambda>l. jinja_plain (l @ [CHR 0x0A])) html_template_lines"
    by (simp add: html_template_lines_def)
  moreover have "list_all (\<lambda>l. CHR 0x0D \<notin> set l) html_template_lines"
    by (simp add: html_template_lines_def)
  ultimately show ?thesis by (simp add: html_template_def jinja_plain_lines list_all_iff)
qed

lemma length_html_template_lines: "length html_template_lines = 79"
  by (simp add: html_template_lines_def)

lemma index_view_page: "index_view = Some (butlast html_template)"
proof -
  have "html_template_lines \<noteq> []" using length_html_template_lines by auto
  then have "html_template \<noteq> [] \<and> last html_template = CHR 0x0A"
    by (simp add: html_template_def last_lines)
  then show ?thesis using html_template_plain by (simp add: index_view_def jinja_render_def)
qed


end
