(* ===== verification/Spec2Isabelle.thy ===== *)
theory Spec2Isabelle
  imports Concurrency Startup Index
begin

text \<open>
  \<^bold>\<open>A verification library for the Qr-Mouse-Control server.\<close>

  \<^verbatim>\<open>src/mouse_control_server.py\<close> is a Flask application that lets a phone
  act as a touchpad. The page it serves (the script inside \<^verbatim>\<open>html_template\<close>,
  lines 50--99) turns touch movements into relative samples (dx, dy) and posts
  them to \<^verbatim>\<open>/move\<close>, and posts button taps to \<^verbatim>\<open>/click\<close>. The view
  \<^verbatim>\<open>move\<close> (lines 111--133) appends each sample to the module-level window
  \<^verbatim>\<open>movement_history = deque(maxlen=5)\<close> (line 21), averages the window
  coordinate-wise and moves the pointer by that average through
  \<^verbatim>\<open>pyautogui\<close>; the view \<^verbatim>\<open>click\<close> (lines 136--149) clicks a button.
  The window is the only state the program keeps, and it is shared by all
  requests.

  \<^bold>\<open>Theories and what they model.\<close>
  \<^item> \<open>Prelude\<close>: the simp collection \<open>model_defs\<close> of handler definitions, the
    abstract window \<open>last_n\<close> (the last n elements of a list) and \<open>mean\<close>, with
    the generic list lemmas the components share.
  \<^item> \<open>PyValue\<close>: the JSON values \<^verbatim>\<open>request.get_json()\<close> returns
    (\<open>jval\<close>), Python's exceptions (\<open>pyexc\<close>), and the four Python operations
    the views apply, raising exactly where CPython raises: \<^verbatim>\<open>in\<close>
    (\<open>py_contains\<close>), subscription (\<open>py_getitem\<close>, last duplicate key wins),
    \<^verbatim>\<open>sum\<close> (\<open>py_sum\<close>, booleans count as 0/1) and \<^verbatim>\<open>/\<close>
    (\<open>py_truediv\<close>).
  \<^item> \<open>Window\<close>: the Smoothing Filter. \<open>deque_append\<close> is CPython's bounded
    append (append, then pop left if over \<^verbatim>\<open>maxlen\<close>); \<open>history_append\<close>
    is line 117, \<open>avg_component\<close> and \<open>window_average\<close> lines 120--121,
    \<open>record_and_average\<close> the two together. The window stores the raw values
    of the request, numeric or not. The abstract specification \<open>smoothed_spec\<close>
    is the coordinate-wise mean of the last five samples.
  \<^item> \<open>Host\<close>: the host input subsystem (\<^verbatim>\<open>pyautogui.position\<close>,
    \<^verbatim>\<open>moveTo\<close>, \<^verbatim>\<open>click\<close>), a library, modelled from the specification as a
    record of pointer position, the log of calls made and an optional fault.
  \<^item> \<open>Dispatcher\<close>: the two views, whole. \<open>move\<close> and \<open>click\<close> take the
    request body and the server state (\<open>server\<close>: the window and the host) and
    return the HTTP response and the new state. Tests outside \<^verbatim>\<open>try\<close> that
    raise give HTTP 500; exceptions inside \<^verbatim>\<open>try\<close> give
    \<open>Error (Exc_message e)\<close>; the state returned is the state when the view
    returned or raised, so an append before an exception is kept.
  \<^item> \<open>Server\<close>: Flask's routing (\<open>serve\<close>: method and path to the views,
    \<^verbatim>\<open>OPTIONS\<close>, 404, 405), runs of request sequences (\<open>serve_run\<close>), and the
    server as a transition system: \<open>server_step\<close> (a request is served, or the
    environment moves the pointer or makes the host fail) and its reachable
    states \<open>reachable\<close>, an inductive set.
  \<^item> \<open>Client\<close>: the page's touch handlers (lines 55--99) as a state machine
    over \<^verbatim>\<open>lastX\<close>/\<^verbatim>\<open>lastY\<close> (\<open>touch_state\<close>, \<open>page_step\<close>), producing the
    requests it posts; \<open>drag\<close> is a touchstart followed by touchmoves;
    \<open>fetch_outcome\<close> is the end of each \<^verbatim>\<open>fetch\<close> chain (\<^verbatim>\<open>response.json()\<close>,
    then \<^verbatim>\<open>console.log\<close> or \<^verbatim>\<open>console.error\<close>).
  \<^item> \<open>Concurrency\<close>: Flask's server is threaded (\<^verbatim>\<open>app.run\<close>, line 168) and
    \<^verbatim>\<open>move\<close> takes no lock. A request first takes the part of its thread that
    reads only the request (\<open>route_arrival\<close>: routing, body, field tests,
    subscriptions) and is answered there, or becomes a thread: a move thread's
    nine steps (\<open>thread_step\<close>) are the operations CPython performs
    atomically on the shared deque: the append (which bumps the deque's mutation
    counter), the creation and the last \<^verbatim>\<open>next\<close> of the iterator \<^verbatim>\<open>sum\<close>
    walks (raising \<^verbatim>\<open>RuntimeError\<close> if the counter moved), \<^verbatim>\<open>len\<close>, and
    the host calls; a \<^verbatim>\<open>click\<close> request is a thread of one step, its
    \<^verbatim>\<open>try\<close> block. \<open>cstep\<close> interleaves arrivals, steps of any thread and
    changes of the host; \<open>creach\<close> is its reachable set; \<open>cexec\<close> runs an
    explicit schedule, such as \<open>mixed_sched\<close>, \<open>stale_sched\<close> and
    \<open>lost_sched\<close>, the three races of two requests started from any state;
    \<open>run_solo\<close> runs one thread alone. A ghost \<open>log\<close> records the appends
    in order.
  \<^item> \<open>Index\<close>: the \<^verbatim>\<open>index\<close> view (lines 106--108) and the template literal
    (lines 24--103) as the UTF-8 bytes sent, one element per line;
    \<^verbatim>\<open>render_template_string\<close> (Jinja2) modelled from its documentation for
    templates without Jinja syntax; the template has none, so the view
    renders it unchanged but for its final line break (\<open>index_view_page\<close>).
  \<^item> \<open>Startup\<close>: \<^verbatim>\<open>get_ip\<close> (lines 7--15) and the main block (lines
    150--168). The socket library is modelled from its documented behaviour as a
    network environment (the local address of the route to 8.8.8.8, or no route
    and \<^verbatim>\<open>OSError\<close>) with a log of socket operations; \<open>main\<close> returns the
    QR payload and the address \<^verbatim>\<open>app.run\<close> listens on, or the exception
    that ends the program. \<open>parse_url\<close> reads the payload back as a phone's
    browser does.

  \<^bold>\<open>What is proved.\<close>
  \<^item> Smoothing Filter (C1--C6): the deque implementation refines the
    specification ``mean of the last five samples'' for every sequence of numeric
    samples (C1); exact means before the window is full (C2) and over exactly
    the five latest samples after (C3); the oldest sample is forgotten (C4);
    constant input is a fixed point whatever the window held (C5); the step
    response from a constant movement a to a movement b is linear, reaching b
    at the fifth sample, of which the specification's scenario is an instance
    (C6).
  \<^item> Dispatcher (C7--C11, C13--C18): the success path of \<open>move\<close> with the exact host
    calls (C7); every error path: missing field (C8), host failure (C9),
    non-numeric field (C10), non-container body (C17); \<open>click\<close> for each button
    (C13), an unknown button (C14), no button (C15), host failure (C16).
  \<^item> Server (C12, C20--C23): whatever the request, the pointer moves only
    when a \<^verbatim>\<open>POST /move\<close> is answered with success (C12); only
    \<^verbatim>\<open>POST /move\<close> changes the window (C20); after any
    request sequence the window is the last five samples of the \<^verbatim>\<open>/move\<close>
    requests that passed the field tests (C21); every reachable state has a
    window of at most five entries, by rule induction (C22); five numeric moves
    replace whatever the window held (C23).
  \<^item> Client (C24, C25): the deltas of one drag add up to twice the finger's
    displacement (C24); no request is posted before a touchstart, nor after a
    touchend until the next touchstart, from any state of the page (C25).
  \<^item> Across components (C26--C28, this theory): a drag served end to end moves
    the pointer to where the specification's moving average puts it (C26); the
    window is shared across drags, so a new drag can move the pointer against
    the finger (C27); the pointer's travel is not the finger's: over a drag of
    n samples the i-th is applied 1/i + ... + 1/n times (C28).
  \<^item> Concurrency (C19, C29--C35): under every interleaving the window holds
    exactly the last five appended entries, none lost or duplicated (C29), no
    request divides by zero (C30), every average a request computes stays
    within the largest sample appended (C19, an invariant on the threads'
    partial sums by rule induction), and with numeric samples a request fails
    only by a race (\<^verbatim>\<open>RuntimeError\<close>) or a host error (C31, by rule
    induction); in any schedule, a thread run nine times has finished (C34).
    The races, each from any reachable state with a numeric window and a
    working host: an average can divide one window's sum by another window's
    length (C32); the iteration of \<^verbatim>\<open>sum\<close> raises \<^verbatim>\<open>RuntimeError\<close>
    exactly when another request has appended since it began (C33);
    overlapping moves are both answered with success but the pointer ends
    where the first alone would put it, last write wins (C35).
  \<^item> Bounds and types (C36, C37): one move shifts the pointer by at most the
    largest sample in the window (C36); the requests the page sends keep the
    window numeric, so with a working host every move succeeds, and every
    request the page posts gets a JSON answer its \<^verbatim>\<open>fetch\<close> chain logs (C37).
  \<^item> Start-up (C38, C39): \<^verbatim>\<open>get_ip\<close> closes its socket on both paths, and
    without a route start-up aborts before the QR code (C38); the QR payload
    reads back as the host's address and the port the server listens on (C39).
  \<^item> Findings proved as theorems: a non-numeric sample is stored before the
    type error (C10) and makes the next four well-formed moves fail for every
    client (C11); an unknown button is answered with success (C14); a
    scalar JSON body escapes the \<^verbatim>\<open>try\<close> and yields HTTP 500 (C17); JSON
    \<^verbatim>\<open>true\<close> is accepted as 1 (C18); the drift of the pointer (C27, C28); the
    races of C32, C33 and C35; start-up fails on a machine without a default
    route (C38).

  \<^bold>\<open>Choices of the model.\<close> JSON and Python numbers are \<open>real\<close>: floating-point
  rounding and float overflow are not modelled, so the averages are exact. The
  pointer is a pair of reals; \<^verbatim>\<open>pyautogui\<close>'s rounding to pixels, fail-safe
  corners and tweening over the 0.05 s duration are not modelled (the duration is
  recorded in the call log). No loop of the program is unbounded: the window
  has at most five entries and every recursion of the model is structural. The
  one fuel, \<open>run_solo\<close>'s, is nine: a \<^verbatim>\<open>move\<close> thread has nine steps
  (\<open>steps_left\<close>, C34: every run of an unfinished thread lowers it), and a
  finished thread stays finished, so nine steps run a thread to its end
  (\<open>run_solo_move_try\<close>: then it has done what the sequential \<^verbatim>\<open>try\<close>
  block does). The
  \<^verbatim>\<open>print\<close> calls are not modelled. In the concurrent model the routing, field
  tests and reads before the append are one step of the thread (they read only
  the request), and each host call is atomic (\<^verbatim>\<open>pyautogui\<close> makes one OS
  call) and returns: C34 counts steps, not time, so a host call that blocks
  is outside it. \<open>thread_step\<close> raises \<^verbatim>\<open>RuntimeError\<close> at the last
  \<^verbatim>\<open>next\<close> of a mutated iteration; on a window with a non-numeric entry
  CPython may raise \<^verbatim>\<open>TypeError\<close> earlier in the same iteration, which is
  why C31 and C33 assume every sample numeric, where the two agree. The
  concrete runs of the races start from a host whose pointer is at (400, 300),
  away from the corners where \<^verbatim>\<open>pyautogui\<close>'s fail-safe raises. The template is checked line by line: every line ends with a line
  break, which no Jinja delimiter contains, so no delimiter spans two lines.

  \<^bold>\<open>Not modelled.\<close> The QR image itself (\<^verbatim>\<open>qrcode\<close> encodes the URL
  \<open>main\<close> gives it; the matrix and the PNG file are library work), the
  \<^verbatim>\<open>print\<close> calls, Flask's server loop beyond the routing and the
  threads, Jinja's treatment of templates that do use its syntax (the program
  has none), and the browser's execution of the page: the script's behaviour is
  modelled by \<open>Client\<close> from its source, and its text is what \<open>Index\<close> shows
  is served; the markup around it does nothing else. \<^verbatim>\<open>pyautogui\<close> stays a
  specification-level model (pixel rounding, fail-safe corners and pauses are
  library behaviour the program does not rely on).

  \<^bold>\<open>Left open.\<close>
  \<^item> Interleavings of one drag under which the pointer still ends where C26
    puts it: C32 and C35 show that overlapping requests can end elsewhere; a
    characterisation of the harmless overlaps (those that split no thread's
    reads of the window and no position read from its move) is not proved.
  \<^item> \<^verbatim>\<open>pyautogui\<close> and \<^verbatim>\<open>qrcode\<close> remain models of their documented
    behaviour: the program only calls them, and what they do inside (pixel
    rounding, fail-safe, the QR matrix) is outside the source.
\<close>


section \<open>Properties across components\<close>

text \<open>C26. End to end: a drag on the page, its requests served in order by a server whose window is numeric and whose host works, is answered with success for every touchmove; the window ends with the last five of the page's samples, and the pointer ends where the specification's moving average puts it.\<close>

theorem drag_end_to_end:
  assumes "history s = map num_entry (last_n history_maxlen pre)" and "fault (host_state s) = None"
  shows "fst (serve_run (snd (page_run st (drag p0 ps))) s) = replicate (length ps) (View (Json_resp Success)) \<and>
         history (snd (serve_run (snd (page_run st (drag p0 ps))) s))
           = map num_entry (last_n history_maxlen (pre @ drag_deltas p0 ps)) \<and>
         cursor (host_state (snd (serve_run (snd (page_run st (drag p0 ps))) s)))
           = pointer_after (cursor (host_state s)) pre (drag_deltas p0 ps)"
  using serve_run_moves_numeric [OF assms, of "drag_deltas p0 ps"] by (simp add: page_run_drag)

theorem drag_end_to_end_witness:
  "history (init_server idle_host) = map num_entry (last_n history_maxlen []) \<and>
   fault (host_state (init_server idle_host)) = None \<and>
   fst (serve_run (snd (page_run page_init (drag (0, 0) [(5, 0), (10, 5)]))) (init_server idle_host))
     = [View (Json_resp Success), View (Json_resp Success)] \<and>
   history (snd (serve_run (snd (page_run page_init (drag (0, 0) [(5, 0), (10, 5)]))) (init_server idle_host)))
     = [num_entry (10, 0), num_entry (10, 10)] \<and>
   cursor (host_state (snd (serve_run (snd (page_run page_init (drag (0, 0) [(5, 0), (10, 5)])))
      (init_server idle_host)))) = (20, 5)"
  using drag_end_to_end [of "init_server idle_host" "[]" page_init "(0, 0)" "[(5, 0), (10, 5)]"]
  by (simp add: init_server_def smoothed_spec_def history_maxlen_def mean_def)

text \<open>C27. The window is not reset when a drag ends, and it is shared by all drags: after a drag that left four samples (v, w), a new drag whose first step moves the finger left by u moves the pointer by (4v - 2u)/5 horizontally, to the right when 2u < 4v, and by 4w/5 vertically although the finger did not move vertically.\<close>

theorem new_drag_moves_against_finger:
  assumes "history s = map num_entry (replicate 4 (v, w))" and "fault (host_state s) = None"
  shows "cursor (host_state (snd (serve_run (snd (page_run st [TouchEnd, TouchStart x y, TouchMove (x - u) y])) s)))
           = (fst (cursor (host_state s)) + (4 * v - 2 * u) / 5, snd (cursor (host_state s)) + 4 * w / 5)"
proof -
  have h: "history s = map num_entry (last_n history_maxlen (replicate 4 (v, w)))"
    using assms(1) by (simp add: history_maxlen_def)
  show ?thesis
    using serve_run_moves_numeric [OF h assms(2), of "[(- (u * 2), 0)]"]
    by (simp add: page_run_new_drag smoothed_spec_def history_maxlen_def mean_def numeral_eq_Suc
        algebra_simps)
qed

theorem new_drag_moves_against_finger_witness:
  "history \<lparr>history = map num_entry (replicate 4 (20, 0)), host_state = idle_host\<rparr>
     = map num_entry (replicate 4 (20, 0)) \<and>
   fault (host_state \<lparr>history = map num_entry (replicate 4 (20, 0)), host_state = idle_host\<rparr>) = None \<and>
   cursor (host_state (snd (serve_run (snd (page_run page_init [TouchEnd, TouchStart 100 0, TouchMove (100 - 5) 0]))
      \<lparr>history = map num_entry (replicate 4 (20, 0)), host_state = idle_host\<rparr>))) = (14, 0)"
  using new_drag_moves_against_finger [of "\<lparr>history = map num_entry (replicate 4 (20, 0)), host_state = idle_host\<rparr>"
      20 0 page_init 100 0 5]
  by simp

text \<open>C28. The pointer's travel is not the finger's. A drag of n samples d_1, ..., d_n (n at most five) posted into an empty window by a working host moves the pointer by the sum over i of d_i times (1/i + 1/(i+1) + ... + 1/n): the first sample is applied 1 + 1/2 + ... + 1/n times (more than twice for n = 5), the last only 1/n times, and what is missing is never applied once the finger stops.\<close>

theorem pointer_travel_differs_from_finger:
  assumes "history s = []" and "fault (host_state s) = None" and "length ps \<le> history_maxlen"
  shows "cursor (host_state (snd (serve_run (snd (page_run st (drag p0 ps))) s)))
     = (fst (cursor (host_state s)) +
          (\<Sum>i<length ps. fst (drag_deltas p0 ps ! i) * (\<Sum>k = Suc i..length ps. 1 / real k)),
        snd (cursor (host_state s)) +
          (\<Sum>i<length ps. snd (drag_deltas p0 ps ! i) * (\<Sum>k = Suc i..length ps. 1 / real k)))"
proof -
  have h: "history s = map num_entry (last_n history_maxlen [])" using assms(1) by simp
  show ?thesis
    using serve_run_moves_numeric [OF h assms(2), of "drag_deltas p0 ps"]
      pointer_after_weights [of "drag_deltas p0 ps" "cursor (host_state s)"] assms(3)
    by (simp add: page_run_drag)
qed

theorem pointer_travel_differs_from_finger_witness:
  "history (init_server idle_host) = [] \<and> fault (host_state (init_server idle_host)) = None \<and>
   length [(0, 0), (10, 0)] \<le> history_maxlen \<and>
   sum_list (map fst (drag_deltas (0, 0) [(0, 0), (10, 0)])) = 20 \<and>
   cursor (host_state (snd (serve_run (snd (page_run page_init (drag (0, 0) [(0, 0), (10, 0)])))
      (init_server idle_host)))) = (10, 0)"
  using pointer_travel_differs_from_finger [of "init_server idle_host" "[(0, 0), (10, 0)]" page_init "(0, 0)"]
  by (simp add: init_server_def history_maxlen_def numeral_2_eq_2 lessThan_Suc)

end
